(* ===== verification/SOS_Prelude.thy ===== *)
theory SOS_Prelude
  imports Main "HOL-Library.Word" "HOL-Library.Monad_Syntax"
begin

text \<open>
  Shared vocabulary of the development: the C types of the ARM build of SOS, the
  \<^verbatim>\<open>errno\<close> values, assertions and bounds-checked array accesses in the option monad
  (\<^term>\<open>None\<close> stands for a run that aborts: a failing \<^verbatim>\<open>assert\<close>, a NULL dereference or an
  access outside an array), the counting loop of C, and the generic lemmas that the
  component theories use.
\<close>

unbundle bit_operations_syntax

named_theorems sos_simps \<open>unfolding rules for the C primitives\<close>
named_theorems sos_inv \<open>preservation lemmas of the component invariants\<close>

type_synonym u8 = "8 word"
type_synonym u32 = "32 word"
type_synonym u64 = "64 word"

abbreviation (input) EBADF :: int where "EBADF \<equiv> 9"
abbreviation (input) ENOMEM :: int where "ENOMEM \<equiv> 12"
abbreviation (input) EACCES :: int where "EACCES \<equiv> 13"
abbreviation (input) EFAULT :: int where "EFAULT \<equiv> 14"
abbreviation (input) EINVAL :: int where "EINVAL \<equiv> 22"
abbreviation (input) EMFILE :: int where "EMFILE \<equiv> 24"

subsection \<open>Assertions and array accesses\<close>

definition c_assert :: "bool \<Rightarrow> unit option" where
  "c_assert p = (if p then Some () else None)"

definition rd :: "'a list \<Rightarrow> int \<Rightarrow> 'a option" where
  "rd xs i = (if 0 \<le> i \<and> i < int (length xs) then Some (xs ! nat i) else None)"

definition wr :: "'a list \<Rightarrow> int \<Rightarrow> 'a \<Rightarrow> 'a list option" where
  "wr xs i v = (if 0 \<le> i \<and> i < int (length xs) then Some (xs[nat i := v]) else None)"

lemma c_assert_simps [simp]: "c_assert True = Some ()" "c_assert False = None"
  by (simp_all add: c_assert_def)

lemma c_assert_Some [simp]: "c_assert p = Some u \<longleftrightarrow> p"
  by (simp add: c_assert_def)

lemma c_assert_None [simp]: "c_assert p = None \<longleftrightarrow> \<not> p"
  by (simp add: c_assert_def)

lemma bind_c_assert [simp]: "c_assert p \<bind> f = (if p then f () else None)"
  by (simp add: c_assert_def)

lemma rd_in [simp]: "0 \<le> i \<Longrightarrow> i < int (length xs) \<Longrightarrow> rd xs i = Some (xs ! nat i)"
  by (simp add: rd_def)

lemma rd_of_nat [simp]: "n < length xs \<Longrightarrow> rd xs (int n) = Some (xs ! n)"
  by (simp add: rd_def)

lemma rd_eq_Some: "rd xs i = Some v \<longleftrightarrow> 0 \<le> i \<and> i < int (length xs) \<and> v = xs ! nat i"
  by (auto simp: rd_def)

lemma rd_eq_None: "rd xs i = None \<longleftrightarrow> i < 0 \<or> int (length xs) \<le> i"
  by (auto simp: rd_def)

lemma wr_in [simp]: "0 \<le> i \<Longrightarrow> i < int (length xs) \<Longrightarrow> wr xs i v = Some (xs[nat i := v])"
  by (simp add: wr_def)

lemma wr_eq_Some:
  "wr xs i v = Some ys \<longleftrightarrow> 0 \<le> i \<and> i < int (length xs) \<and> ys = xs[nat i := v]"
  by (auto simp: wr_def)

lemma rd_wr: "wr xs i v = Some ys \<Longrightarrow> rd ys j = (if i = j then Some v else rd xs j)"
  by (auto simp: wr_eq_Some rd_def nth_list_update)

lemma length_wr: "wr xs i v = Some ys \<Longrightarrow> length ys = length xs"
  by (auto simp: wr_eq_Some)

subsection \<open>The counting loop\<close>

text \<open>\<^verbatim>\<open>for (i = lo; i < hi; i++) body\<close>, where the body may abort.\<close>

function for_up :: "int \<Rightarrow> int \<Rightarrow> (int \<Rightarrow> 's \<Rightarrow> 's option) \<Rightarrow> 's \<Rightarrow> 's option" where
  "for_up i n f s = (if i < n then f i s \<bind> for_up (i + 1) n f else Some s)"
  by pat_completeness auto
termination
  by (relation "measure (\<lambda>(i, n, f, s). nat (n - i))") auto

declare for_up.simps [simp del]

lemma for_up_done [simp]: "n \<le> i \<Longrightarrow> for_up i n f s = Some s"
  by (subst for_up.simps) simp

lemma for_up_step: "i < n \<Longrightarrow> for_up i n f s = f i s \<bind> for_up (i + 1) n f"
  by (subst for_up.simps) simp

text \<open>
  Total correctness of the loop: an invariant indexed by the counter, which the body keeps
  without aborting, holds at the end, and the loop returns.
\<close>

lemma for_up_total:
  assumes "i \<le> n" and "P i s"
    and "\<And>k t. i \<le> k \<Longrightarrow> k < n \<Longrightarrow> P k t \<Longrightarrow> \<exists>t'. f k t = Some t' \<and> P (k + 1) t'"
  shows "\<exists>s'. for_up i n f s = Some s' \<and> P n s'"
  using assms
proof (induction i n f s rule: for_up.induct)
  case (1 i n f s)
  show ?case
  proof (cases "i < n")
    case True
    with "1.prems" obtain t where t: "f i s = Some t" "P (i + 1) t" by blast
    have "\<exists>s'. for_up (i + 1) n f t = Some s' \<and> P n s'"
    proof (rule "1.IH" [OF True t(1)])
      show "i + 1 \<le> n" using True by simp
      show "P (i + 1) t" by (rule t(2))
      show "\<And>k ta. i + 1 \<le> k \<Longrightarrow> k < n \<Longrightarrow> P k ta \<Longrightarrow> \<exists>t'. f k ta = Some t' \<and> P (k + 1) t'"
        using "1.prems"(3) by simp
    qed
    with True t(1) show ?thesis by (simp add: for_up_step)
  next
    case False
    with "1.prems" have "i = n" by simp
    with "1.prems" show ?thesis by simp
  qed
qed

text \<open>Partial correctness: the invariant holds at the end of a loop that returns.\<close>

lemma for_up_inv:
  assumes "for_up i n f s = Some s'" "i \<le> n" "P i s"
    and "\<And>j t t'. i \<le> j \<Longrightarrow> j < n \<Longrightarrow> P j t \<Longrightarrow> f j t = Some t' \<Longrightarrow> P (j + 1) t'"
  shows "P n s'"
  using assms
proof (induction "nat (n - i)" arbitrary: i s)
  case 0
  then show ?case by simp
next
  case (Suc m)
  then have lt: "i < n" by simp
  obtain t where t: "f i s = Some t" "for_up (i + 1) n f t = Some s'"
    using Suc.prems(1) for_up_step [OF lt, of f s] by (cases "f i s") auto
  have "P (i + 1) t" using Suc.prems(3,4) t(1) lt by blast
  moreover have "m = nat (n - (i + 1))" "i + 1 \<le> n" using Suc.hyps(2) lt by simp_all
  ultimately show ?case using Suc.hyps(1) [of "i + 1" t] t(2) Suc.prems(4) by simp
qed

text \<open>The loops that move a range of array elements towards the front.\<close>

lemma shift_loop:
  assumes "b \<le> a" "0 \<le> lo + b" "lo \<le> hi" "hi + a \<le> int (length m)"
  shows "\<exists>m'. for_up lo hi (\<lambda>j m. do { v \<leftarrow> rd m (j + a); wr m (j + b) v }) m = Some m' \<and>
    (length m' = length m \<and> (\<forall>k. 0 \<le> k \<and> k < int (length m) \<longrightarrow>
       m' ! nat k = (if lo + b \<le> k \<and> k < hi + b then m ! nat (k - b + a) else m ! nat k)))"
proof (rule for_up_total [where P = "\<lambda>i m'. length m' = length m \<and> (\<forall>k. 0 \<le> k \<and> k < int (length m) \<longrightarrow>
       m' ! nat k = (if lo + b \<le> k \<and> k < i + b then m ! nat (k - b + a) else m ! nat k))"])
  fix i t assume i: "lo \<le> i" "i < hi" and P: "length t = length m \<and> (\<forall>k. 0 \<le> k \<and> k < int (length m) \<longrightarrow>
       t ! nat k = (if lo + b \<le> k \<and> k < i + b then m ! nat (k - b + a) else m ! nat k))"
  have r: "rd t (i + a) = Some (m ! nat (i + a))" using assms i P by (auto simp: rd_def)
  have "t[nat (i + b) := m ! nat (i + a)] ! nat k =
      (if lo + b \<le> k \<and> k < i + 1 + b then m ! nat (k - b + a) else m ! nat k)"
    if k: "0 \<le> k" "k < int (length m)" for k
    using P i k assms by (cases "k = i + b") (auto simp: nth_list_update nat_eq_iff)
  then show "\<exists>t'. do { v \<leftarrow> rd t (i + a); wr t (i + b) v } = Some t' \<and> length t' = length m \<and>
     (\<forall>k. 0 \<le> k \<and> k < int (length m) \<longrightarrow>
       t' ! nat k = (if lo + b \<le> k \<and> k < i + 1 + b then m ! nat (k - b + a) else m ! nat k))"
    using r assms i P by simp
qed (use assms in auto)

lemma all_int_step:
  "(\<forall>k. i \<le> k \<and> k < n \<longrightarrow> P k) \<longleftrightarrow> (i < n \<longrightarrow> P i) \<and> (\<forall>k. i + 1 \<le> k \<and> k < n \<longrightarrow> P k)"
  for i n :: int
proof -
  have "i \<le> k \<longleftrightarrow> k = i \<or> i + 1 \<le> k" for k by linarith
  then show ?thesis by auto
qed

subsection \<open>Masks\<close>

lemma and_mask_int: "(x::int) AND mask n = x mod 2 ^ n"
  by (simp flip: take_bit_eq_mask add: take_bit_eq_mod)

lemma and_not_mask_int: "(x::int) AND NOT (mask n) = 2 ^ n * (x div 2 ^ n)"
proof -
  have "x AND NOT (mask n) = push_bit n (drop_bit n x)"
    by (rule bit_eqI) (auto simp: bit_simps)
  then show ?thesis by (simp add: push_bit_eq_mult drop_bit_eq_div)
qed

subsection \<open>Division, alignment and word arithmetic\<close>

lemma div_eq_range_iff:
  fixes j k u :: int
  assumes "0 < u"
  shows "j div u = k \<longleftrightarrow> k * u \<le> j \<and> j < k * u + u"
proof
  assume "j div u = k"
  then show "k * u \<le> j \<and> j < k * u + u"
    using pos_mod_sign [OF assms, of j] pos_mod_bound [OF assms, of j] div_mult_mod_eq [of j u] by auto
next
  assume "k * u \<le> j \<and> j < k * u + u"
  then show "j div u = k" by (intro int_div_pos_eq [of _ _ _ "j - k * u"]) (auto simp: algebra_simps)
qed

lemma unit_bounds:
  "0 < (u::int) \<Longrightarrow> 0 \<le> j div u \<and> j div u < N \<longleftrightarrow> 0 \<le> j \<and> j < N * u"
proof -
  assume u: "0 < u"
  have "(j div u) * u \<le> j" "j < (j div u) * u + u" using div_eq_range_iff [OF u, of j "j div u"] by auto
  moreover have "(j div u + 1) * u \<le> N * u" if "j div u < N" using that u by (intro mult_right_mono) auto
  moreover have "N * u \<le> (j div u) * u" if "N \<le> j div u" using that u by (intro mult_right_mono) auto
  ultimately have "j div u < N \<longleftrightarrow> j < N * u" by (fastforce simp: distrib_right not_less [symmetric])
  then show ?thesis using u by (simp add: pos_imp_zdiv_nonneg_iff)
qed

lemma uint_of_int_small: "0 \<le> x \<Longrightarrow> x < 2 ^ 32 \<Longrightarrow> uint (word_of_int x :: u32) = x"
  by (simp add: unsigned_of_int take_bit_int_eq_self)

lemma uint_and_not_mask: "uint ((w::u32) AND NOT (push_bit n 1 - 1)) = 2 ^ n * (uint w div 2 ^ n)"
proof -
  have m: "push_bit n 1 - 1 = (mask n :: u32)" by (simp add: mask_eq_exp_minus_1 push_bit_eq_mult)
  have "uint (w AND NOT (mask n)) = uint w AND NOT (mask n)"
  proof (rule bit_eqI)
    fix i show "bit (uint (w AND NOT (mask n))) i = bit (uint w AND NOT (mask n)) i"
      by (auto simp: bit_simps dest: bit_imp_le_length)
  qed
  then show ?thesis unfolding m by (simp add: and_not_mask_int)
qed

lemma remove1_fst:
  "distinct (map fst ps) \<Longrightarrow> (p, k) \<in> set ps \<Longrightarrow> map fst (remove1 (p, k) ps) = remove1 p (map fst ps)"
proof (induction ps)
  case (Cons a ps)
  show ?case
  proof (cases "a = (p, k)")
    case False
    with Cons.prems have "(p, k) \<in> set ps" by simp
    then have "p \<in> fst ` set ps" by force
    with Cons.prems have "fst a \<noteq> p" by auto
    with Cons False show ?thesis by simp
  qed simp
qed simp

lemma align14:
  fixes b k r :: int
  assumes "b mod 2 ^ 14 = 0" "0 \<le> r" "r < 2 ^ 14"
  shows "2 ^ 14 * ((b + k * 2 ^ 14 + r) div 2 ^ 14) = b + k * 2 ^ 14"
proof -
  have b: "b = (b div 2 ^ 14) * 2 ^ 14" using assms(1) div_mult_mod_eq [of b "2 ^ 14"] by simp
  have "(b + k * 2 ^ 14 + r) div 2 ^ 14 = b div 2 ^ 14 + k"
    using assms(2,3) b by (subst div_eq_range_iff) (simp_all add: distrib_right)
  then show ?thesis using b by (simp add: distrib_left)
qed

lemma unat_inc: "unat (c::u32) < unat (e::u32) \<Longrightarrow> unat (c + 1) = Suc (unat c)"
  using unsigned_less [where 'a = nat and w = e] by (simp add: unat_word_ariths)

end
