(* ===== verification/Slot_Interface.thy ===== *)
theory Slot_Interface
  imports SOS_Prelude
begin

text \<open>
  The contract of an allocator of numbered slots: what the bitfield of the untyped manager
  (\<^verbatim>\<open>ut_manager/bitfield.c\<close>) and the slot map of the swap file (\<^verbatim>\<open>vm/swap.c\<close>) promise to their
  clients. \<open>alloc\<close> returns \<open>-1\<close> when every slot is taken; \<open>used\<close> is the abstract value.
\<close>

primrec alloc_many :: "('s \<Rightarrow> (int \<times> 's) option) \<Rightarrow> nat \<Rightarrow> 's \<Rightarrow> (int list \<times> 's) option" where
  "alloc_many alloc 0 s = Some ([], s)"
| "alloc_many alloc (Suc n) s = do {
     (i, s1) \<leftarrow> alloc s;
     (is, s2) \<leftarrow> alloc_many alloc n s1;
     Some (i # is, s2) }"

primrec free_many :: "('s \<Rightarrow> int \<Rightarrow> 's option) \<Rightarrow> int list \<Rightarrow> 's \<Rightarrow> 's option" where
  "free_many free [] s = Some s"
| "free_many free (i # is) s = do { s1 \<leftarrow> free s i; free_many free is s1 }"

locale slot_allocator =
  fixes alloc :: "'s \<Rightarrow> (int \<times> 's) option"
    and free :: "'s \<Rightarrow> int \<Rightarrow> 's option"
    and inv :: "'s \<Rightarrow> bool"
    and used :: "'s \<Rightarrow> int set"
    and cap :: "'s \<Rightarrow> int"
  assumes used_bounded: "inv s \<Longrightarrow> used s \<subseteq> {0..<cap s}"
    and alloc_full: "inv s \<Longrightarrow> used s = {0..<cap s} \<Longrightarrow> alloc s = Some (- 1, s)"
    and alloc_free_slot: "inv s \<Longrightarrow> used s \<noteq> {0..<cap s} \<Longrightarrow>
      \<exists>i s'. alloc s = Some (i, s') \<and> i \<in> {0..<cap s} - used s \<and> inv s'
        \<and> used s' = insert i (used s) \<and> cap s' = cap s"
    and free_used: "inv s \<Longrightarrow> i \<in> used s \<Longrightarrow>
      \<exists>s'. free s i = Some s' \<and> inv s' \<and> used s' = used s - {i} \<and> cap s' = cap s"
begin

lemma finite_used: "inv s \<Longrightarrow> finite (used s)"
  using used_bounded finite_subset by blast

lemma card_used: "inv s \<Longrightarrow> int (card (used s)) \<le> max 0 (cap s)"
  using card_mono [OF _ used_bounded] by fastforce

lemma alloc_many_distinct:
  "inv s \<Longrightarrow> int (card (used s) + n) \<le> cap s \<Longrightarrow>
   \<exists>is s'. alloc_many alloc n s = Some (is, s') \<and> length is = n \<and> distinct is
     \<and> set is \<inter> used s = {} \<and> set is \<subseteq> {0..<cap s} \<and> inv s'
     \<and> used s' = used s \<union> set is \<and> cap s' = cap s"
proof (induction n arbitrary: s)
  case (Suc n)
  have "used s \<noteq> {0..<cap s}" using Suc.prems(2) by (auto split: if_splits)
  then obtain i s1 where s1: "alloc s = Some (i, s1)" "i \<in> {0..<cap s} - used s" "inv s1"
    "used s1 = insert i (used s)" "cap s1 = cap s" using alloc_free_slot [OF Suc.prems(1)] by blast
  have "int (card (used s1) + n) \<le> cap s1"
    using Suc.prems s1 finite_used [OF Suc.prems(1)] by simp
  from Suc.IH [OF s1(3) this] obtain "is" s' where "alloc_many alloc n s1 = Some (is, s')"
    "length is = n" "distinct is" "set is \<inter> used s1 = {}" "set is \<subseteq> {0..<cap s1}" "inv s'"
    "used s' = used s1 \<union> set is" "cap s' = cap s1" by blast
  with s1 show ?case by auto
qed simp

lemma free_many_used:
  "inv s \<Longrightarrow> set is \<subseteq> used s \<Longrightarrow> distinct is \<Longrightarrow>
   \<exists>s'. free_many free is s = Some s' \<and> inv s' \<and> used s' = used s - set is \<and> cap s' = cap s"
proof (induction "is" arbitrary: s)
  case (Cons i "is")
  then obtain s1 where s1: "free s i = Some s1" "inv s1" "used s1 = used s - {i}" "cap s1 = cap s"
    using free_used [of s i] by auto
  have "set is \<subseteq> used s1" using Cons.prems s1(3) by auto
  with Cons.IH [OF s1(2)] Cons.prems(3) obtain s' where "free_many free is s1 = Some s'" "inv s'"
    "used s' = used s1 - set is" "cap s' = cap s1" by auto
  with s1 show ?case by auto
qed simp

lemma alloc_all_then_full:
  "inv s \<Longrightarrow> 0 \<le> cap s \<Longrightarrow> n = nat (cap s - int (card (used s))) \<Longrightarrow>
   \<exists>is s'. alloc_many alloc n s = Some (is, s') \<and> alloc s' = Some (- 1, s')"
proof -
  assume a: "inv s" "0 \<le> cap s" "n = nat (cap s - int (card (used s)))"
  then have n: "int (card (used s) + n) = cap s" using card_used by fastforce
  from alloc_many_distinct [OF a(1), of n] n obtain "is" s' where
    r: "alloc_many alloc n s = Some (is, s')" "length is = n" "distinct is" "set is \<inter> used s = {}"
       "set is \<subseteq> {0..<cap s}" "inv s'" "used s' = used s \<union> set is" "cap s' = cap s" by auto
  have "card (used s') = nat (cap s)"
    using r n finite_used [OF a(1)] by (simp add: card_Un_disjoint Int_commute distinct_card)
  then have "used s' = {0..<cap s'}"
    using used_bounded [OF r(6)] r(8) by (intro card_subset_eq) auto
  with r alloc_full [OF r(6)] show ?thesis by blast
qed

lemma alloc_free_roundtrip:
  "inv s \<Longrightarrow> int (card (used s) + n) \<le> cap s \<Longrightarrow>
   \<exists>is s1 s2. alloc_many alloc n s = Some (is, s1) \<and> free_many free is s1 = Some s2
     \<and> inv s2 \<and> used s2 = used s \<and> cap s2 = cap s"
proof -
  assume a: "inv s" "int (card (used s) + n) \<le> cap s"
  from alloc_many_distinct [OF this] obtain "is" s1 where
    r: "alloc_many alloc n s = Some (is, s1)" "distinct is" "set is \<inter> used s = {}" "inv s1"
       "used s1 = used s \<union> set is" "cap s1 = cap s" by blast
  from free_many_used [OF r(4), of "is"] r obtain s2 where "free_many free is s1 = Some s2" "inv s2"
    "used s2 = used s1 - set is" "cap s2 = cap s1" by auto
  with r show ?thesis by (intro exI [of _ "is"] exI [of _ s1] exI [of _ s2]) auto
qed

end

end
