(* ===== verification/Bitfield.thy ===== *)
theory Bitfield
  imports Slot_Interface
begin

text \<open>
  \<^verbatim>\<open>ut_manager/bitfield.c\<close>: a fixed-size array of bits with a count of the clear bits and a
  search hint. The plain \<^verbatim>\<open>char\<close> of the ARM ABI is unsigned, so the bytes are \<^typ>\<open>u8\<close>.
\<close>

definition FLOOR8 :: "int \<Rightarrow> int" where
  "FLOOR8 x = x AND NOT 7"

definition CEILING8 :: "int \<Rightarrow> int" where
  "CEILING8 x = FLOOR8 (x + 7)"

record bitfield =
  bf_next_free :: int
  bf_available :: int
  bf_size :: int
  bf_b :: "u8 list"

datatype bf_init_state = BITFIELD_INIT_FILLED | BITFIELD_INIT_EMPTY

primrec shift_mask :: "nat \<Rightarrow> int \<Rightarrow> int" where
  "shift_mask 0 m = m"
| "shift_mask (Suc k) m = shift_mask k (push_bit 1 m)"

definition bf_decode :: "int \<Rightarrow> int \<times> int" where
  "bf_decode offset = (drop_bit 3 offset, shift_mask (nat (offset AND 7)) 1)"

definition bf_get :: "bitfield \<Rightarrow> int \<Rightarrow> bool option" where
  "bf_get bf offset =
     (let (byte, bitmask) = bf_decode offset in do {
        c_assert (byte < CEILING8 (bf_size bf) div 8);
        v \<leftarrow> rd (bf_b bf) byte;
        Some (v AND word_of_int bitmask \<noteq> 0) })"

definition bf_set :: "bitfield \<Rightarrow> int \<Rightarrow> bitfield option" where
  "bf_set bf offset = do {
     used \<leftarrow> bf_get bf offset;
     c_assert (\<not> used);
     let (byte, bitmask) = bf_decode offset;
     c_assert (byte < CEILING8 (bf_size bf) div 8);
     v \<leftarrow> rd (bf_b bf) byte;
     b' \<leftarrow> wr (bf_b bf) byte (v OR word_of_int bitmask);
     Some (bf\<lparr>bf_b := b', bf_available := bf_available bf - 1\<rparr>) }"

definition bf_clr :: "bitfield \<Rightarrow> int \<Rightarrow> bitfield option" where
  "bf_clr bf offset = do {
     used \<leftarrow> bf_get bf offset;
     c_assert used;
     let (byte, bitmask) = bf_decode offset;
     c_assert (byte < CEILING8 (bf_size bf) div 8);
     v \<leftarrow> rd (bf_b bf) byte;
     b' \<leftarrow> wr (bf_b bf) byte (v AND NOT (word_of_int bitmask));
     Some (bf\<lparr>bf_b := b', bf_available := bf_available bf + 1\<rparr>) }"

text \<open>
  \<^verbatim>\<open>malloc_ok k\<close> tells whether the \<open>k\<close>-th \<^verbatim>\<open>malloc\<close> of the function succeeds; the inner
  \<^term>\<open>None\<close> is the NULL return.
\<close>

definition new_bitfield :: "(nat \<Rightarrow> bool) \<Rightarrow> int \<Rightarrow> bf_init_state \<Rightarrow> bitfield option option" where
  "new_bitfield malloc_ok sz st =
     (if \<not> malloc_ok 0 then Some None
      else let bytes = CEILING8 sz div 8 in
        if \<not> malloc_ok 1 then Some None
        else case st of
          BITFIELD_INIT_FILLED \<Rightarrow>
            Some (Some \<lparr>bf_next_free = 0, bf_available = 0, bf_size = sz,
                        bf_b = replicate (nat bytes) 0xFF\<rparr>)
        | BITFIELD_INIT_EMPTY \<Rightarrow>
            map_option Some
              (for_up sz (bytes * 8) (\<lambda>i bf. bf_set bf i)
                 \<lparr>bf_next_free = 0, bf_available = sz, bf_size = sz,
                  bf_b = replicate (nat bytes) 0\<rparr>))"

text \<open>The byte search: first from \<^verbatim>\<open>next\<close> to the end, then from the start to \<^verbatim>\<open>next\<close>.\<close>

function scan_bytes :: "u8 list \<Rightarrow> int \<Rightarrow> int \<Rightarrow> int option option" where
  "scan_bytes field current limit =
     (if current < limit then do {
        v \<leftarrow> rd field current;
        if v \<noteq> 0xFF then Some (Some current) else scan_bytes field (current + 1) limit }
      else Some None)"
  by pat_completeness auto
termination
  by (relation "measure (\<lambda>(field, current, limit). nat (limit - current))") auto

definition bf_find_next_free_byte :: "u8 list \<Rightarrow> int \<Rightarrow> int \<Rightarrow> int option" where
  "bf_find_next_free_byte field nxt0 sz0 =
     (let nxt = FLOOR8 nxt0 div 8; sz = CEILING8 sz0 div 8 in do {
        r \<leftarrow> scan_bytes field nxt sz;
        case r of Some c \<Rightarrow> Some c
        | None \<Rightarrow> do {
            r' \<leftarrow> scan_bytes field 0 nxt;
            case r' of Some c \<Rightarrow> Some c | None \<Rightarrow> Some (- 1) } })"

fun scan_bits :: "u8 \<Rightarrow> nat \<Rightarrow> nat \<Rightarrow> int" where
  "scan_bits field i 0 = - 1"
| "scan_bits field i (Suc k) =
     (if field AND push_bit i 1 = 0 then int i else scan_bits field (Suc i) k)"

definition bf_find_next_free_bit :: "u8 \<Rightarrow> int option" where
  "bf_find_next_free_bit field = do { c_assert (field \<noteq> 0xFF); Some (scan_bits field 0 8) }"

definition bf_set_next_free :: "bitfield \<Rightarrow> (int \<times> bitfield) option" where
  "bf_set_next_free bf =
     (if bf_available bf \<noteq> 0 then do {
        byte \<leftarrow> bf_find_next_free_byte (bf_b bf) (bf_next_free bf) (bf_size bf);
        if byte \<noteq> - 1 then do {
          v \<leftarrow> rd (bf_b bf) byte;
          bt \<leftarrow> bf_find_next_free_bit v;
          let offset = byte * 8 + bt;
          bf1 \<leftarrow> bf_set bf offset;
          let nf = offset + 1;
          Some (offset, bf1\<lparr>bf_next_free := (if nf > bf_size bf then 0 else nf)\<rparr>) }
        else Some (- 1, bf) }
      else Some (- 1, bf))"

declare scan_bytes.simps [simp del]

subsection \<open>Abstraction and invariant\<close>

text \<open>
  The abstract value of a bitfield is the set of the offsets in use. The invariant: the byte
  array has the rounded-up size, the padding bits of the last byte are set (so that the search
  never returns one), the count of available bits is right, and the search hint is in range.
\<close>

definition bf_bit :: "u8 list \<Rightarrow> int \<Rightarrow> bool" where
  "bf_bit b i = bit (b ! nat (i div 8)) (nat (i mod 8))"

definition bf_used :: "bitfield \<Rightarrow> int set" where
  "bf_used bf = {i. 0 \<le> i \<and> i < bf_size bf \<and> bf_bit (bf_b bf) i}"

definition bf_clear :: "bitfield \<Rightarrow> int set" where
  "bf_clear bf = {i. 0 \<le> i \<and> i < bf_size bf \<and> \<not> bf_bit (bf_b bf) i}"

definition bf_shape :: "bitfield \<Rightarrow> bool" where
  "bf_shape bf \<longleftrightarrow> 0 \<le> bf_size bf \<and> int (length (bf_b bf)) = (bf_size bf + 7) div 8"

definition bf_wf :: "bitfield \<Rightarrow> bool" where
  "bf_wf bf \<longleftrightarrow> bf_shape bf
     \<and> (\<forall>i. bf_size bf \<le> i \<and> i < 8 * int (length (bf_b bf)) \<longrightarrow> bf_bit (bf_b bf) i)
     \<and> bf_available bf = int (card (bf_clear bf))
     \<and> 0 \<le> bf_next_free bf \<and> bf_next_free bf \<le> bf_size bf"

subsection \<open>Bits of the byte array\<close>

lemma FLOOR8_eq: "FLOOR8 x = 8 * (x div 8)"
  using and_not_mask_int [of x 3] by (simp add: FLOOR8_def mask_eq_exp_minus_1)

lemma CEILING8_eq: "CEILING8 x = 8 * ((x + 7) div 8)"
  by (simp add: CEILING8_def FLOOR8_eq)

lemma shift_mask_eq: "shift_mask k m = m * 2 ^ k"
  by (induction k arbitrary: m) (auto simp: push_bit_eq_mult)

lemma bf_decode_eq: "bf_decode x = (x div 8, 2 ^ nat (x mod 8))"
  using and_mask_int [of x 3]
  by (simp add: bf_decode_def shift_mask_eq drop_bit_eq_div mask_eq_exp_minus_1)

lemma mask_test: "i < 8 \<Longrightarrow> ((v::u8) AND word_of_int (2 ^ i) \<noteq> 0) = bit v i"
  by (simp add: bit_iff_and_push_bit_not_eq_0 push_bit_eq_mult)

lemma div8_bounds: "0 \<le> (i::int) \<Longrightarrow> i < 8 * int n \<Longrightarrow> i div 8 < int n"
  by linarith

lemma bf_get_bit:
  "bf_shape bf \<Longrightarrow> 0 \<le> i \<Longrightarrow> i < 8 * int (length (bf_b bf)) \<Longrightarrow>
   bf_get bf i = Some (bf_bit (bf_b bf) i)"
  using mask_test [of "nat (i mod 8)"] div8_bounds [of i "length (bf_b bf)"]
  by (simp add: bf_get_def bf_decode_eq CEILING8_eq bf_shape_def bf_bit_def nat_less_iff
                pos_imp_zdiv_nonneg_iff)

lemma bf_bit_update_or:
  assumes "0 \<le> i" "i < 8 * int (length b)" "0 \<le> j"
  shows "bf_bit (b[nat (i div 8) := b ! nat (i div 8) OR word_of_int (2 ^ nat (i mod 8))]) j
         \<longleftrightarrow> j = i \<or> bf_bit b j"
proof (cases "nat (j div 8) = nat (i div 8)")
  case True
  with assms have d: "j div 8 = i div 8"
    by (simp add: nat_eq_iff pos_imp_zdiv_nonneg_iff) 
  have "j = i \<longleftrightarrow> nat (j mod 8) = nat (i mod 8)"
    using d by (metis mod_div_mult_eq nat_eq_iff pos_mod_sign zero_less_numeral)
  moreover have "nat (i div 8) < length b" "nat (i mod 8) < 8" using assms by linarith+
  ultimately show ?thesis by (auto simp: bf_bit_def d bit_or_iff bit_exp_iff)
next
  case False
  then show ?thesis by (auto simp: bf_bit_def)
qed

lemma bf_bit_update_and_not:
  assumes "0 \<le> i" "i < 8 * int (length b)" "0 \<le> j"
  shows "bf_bit (b[nat (i div 8) := b ! nat (i div 8) AND NOT (word_of_int (2 ^ nat (i mod 8)))]) j
         \<longleftrightarrow> j \<noteq> i \<and> bf_bit b j"
proof (cases "nat (j div 8) = nat (i div 8)")
  case True
  with assms have d: "j div 8 = i div 8"
    by (simp add: nat_eq_iff pos_imp_zdiv_nonneg_iff)
  have "j = i \<longleftrightarrow> nat (j mod 8) = nat (i mod 8)"
    using d by (metis mod_div_mult_eq nat_eq_iff pos_mod_sign zero_less_numeral)
  moreover have "nat (i div 8) < length b" "nat (j mod 8) < 8" using assms by linarith+
  ultimately show ?thesis by (auto simp: bf_bit_def d bit_and_iff bit_not_iff bit_exp_iff)
next
  case False
  then show ?thesis by (auto simp: bf_bit_def)
qed

lemma bf_set_bit:
  assumes "bf_shape bf" "0 \<le> i" "i < 8 * int (length (bf_b bf))" "\<not> bf_bit (bf_b bf) i"
  obtains b' where "bf_set bf i = Some (bf\<lparr>bf_b := b', bf_available := bf_available bf - 1\<rparr>)"
    "length b' = length (bf_b bf)" "\<And>j. 0 \<le> j \<Longrightarrow> bf_bit b' j \<longleftrightarrow> j = i \<or> bf_bit (bf_b bf) j"
proof -
  let ?b = "(bf_b bf)[nat (i div 8) := bf_b bf ! nat (i div 8) OR word_of_int (2 ^ nat (i mod 8))]"
  have "0 \<le> i div 8" "i div 8 < int (length (bf_b bf))" using assms by linarith+
  moreover have "int (length (bf_b bf)) = CEILING8 (bf_size bf) div 8"
    using assms(1) by (simp add: bf_shape_def CEILING8_eq)
  ultimately have "bf_set bf i = Some (bf\<lparr>bf_b := ?b, bf_available := bf_available bf - 1\<rparr>)"
    using assms by (simp add: bf_set_def bf_get_bit bf_decode_eq Let_def)
  then show ?thesis using that bf_bit_update_or [OF assms(2,3)] by simp
qed

lemma bf_clr_bit:
  assumes "bf_shape bf" "0 \<le> i" "i < 8 * int (length (bf_b bf))" "bf_bit (bf_b bf) i"
  obtains b' where "bf_clr bf i = Some (bf\<lparr>bf_b := b', bf_available := bf_available bf + 1\<rparr>)"
    "length b' = length (bf_b bf)" "\<And>j. 0 \<le> j \<Longrightarrow> bf_bit b' j \<longleftrightarrow> j \<noteq> i \<and> bf_bit (bf_b bf) j"
proof -
  let ?b = "(bf_b bf)[nat (i div 8) := bf_b bf ! nat (i div 8) AND NOT (word_of_int (2 ^ nat (i mod 8)))]"
  have "0 \<le> i div 8" "i div 8 < int (length (bf_b bf))" using assms by linarith+
  moreover have "int (length (bf_b bf)) = CEILING8 (bf_size bf) div 8"
    using assms(1) by (simp add: bf_shape_def CEILING8_eq)
  ultimately have "bf_clr bf i = Some (bf\<lparr>bf_b := ?b, bf_available := bf_available bf + 1\<rparr>)"
    using assms by (simp add: bf_clr_def bf_get_bit bf_decode_eq Let_def)
  then show ?thesis using that bf_bit_update_and_not [OF assms(2,3)] by simp
qed

lemma finite_bf_sets [simp]: "finite (bf_clear bf)" "finite (bf_used bf)"
  by (rule finite_subset [of _ "{0..<bf_size bf}"]; auto simp: bf_clear_def bf_used_def)+

lemma bf_clear_used: "bf_clear bf = {0..<bf_size bf} - bf_used bf"
  by (auto simp: bf_clear_def bf_used_def)

lemma bf_wf_shape: "bf_wf bf \<Longrightarrow> bf_shape bf"
  by (simp add: bf_wf_def)

lemma bf_size_bits: "bf_shape bf \<Longrightarrow> i < bf_size bf \<Longrightarrow> i < 8 * int (length (bf_b bf))"
  unfolding bf_shape_def by linarith

lemma bf_get_wf:
  "bf_wf bf \<Longrightarrow> 0 \<le> i \<Longrightarrow> i < bf_size bf \<Longrightarrow> bf_get bf i = Some (i \<in> bf_used bf)"
  using bf_get_bit [OF bf_wf_shape] bf_size_bits [OF bf_wf_shape] by (simp add: bf_used_def)

lemma bf_set_wf:
  assumes wf: "bf_wf bf" and i: "0 \<le> i" "i < bf_size bf" "i \<notin> bf_used bf"
  shows "\<exists>bf'. bf_set bf i = Some bf' \<and> bf_wf bf' \<and> bf_used bf' = insert i (bf_used bf)
    \<and> bf_size bf' = bf_size bf \<and> bf_next_free bf' = bf_next_free bf"
proof -
  have "\<not> bf_bit (bf_b bf) i" using i by (simp add: bf_used_def)
  from bf_set_bit [OF bf_wf_shape [OF wf] i(1) bf_size_bits [OF bf_wf_shape [OF wf] i(2)] this]
  obtain b' where b': "bf_set bf i = Some (bf\<lparr>bf_b := b', bf_available := bf_available bf - 1\<rparr>)"
    "length b' = length (bf_b bf)" and bits: "\<And>j. 0 \<le> j \<Longrightarrow> bf_bit b' j \<longleftrightarrow> j = i \<or> bf_bit (bf_b bf) j"
    by blast
  let ?bf = "bf\<lparr>bf_b := b', bf_available := bf_available bf - 1\<rparr>"
  have used: "bf_used ?bf = insert i (bf_used bf)" using i bits by (auto simp: bf_used_def)
  have mem: "i \<in> bf_clear bf" using i by (simp add: bf_clear_used)
  have "bf_clear ?bf = bf_clear bf - {i}" using used by (auto simp: bf_clear_used)
  then have "bf_available ?bf = int (card (bf_clear ?bf))"
    using wf card_Suc_Diff1 [OF finite_bf_sets(1) mem] by (simp add: bf_wf_def)
  then have "bf_wf ?bf" using wf b' bits by (auto simp: bf_wf_def bf_shape_def)
  with used b' show ?thesis by simp
qed

lemma bf_clr_wf:
  assumes wf: "bf_wf bf" and i: "i \<in> bf_used bf"
  shows "\<exists>bf'. bf_clr bf i = Some bf' \<and> bf_wf bf' \<and> bf_used bf' = bf_used bf - {i}
    \<and> bf_size bf' = bf_size bf \<and> bf_next_free bf' = bf_next_free bf"
proof -
  have i': "0 \<le> i" "i < bf_size bf" "bf_bit (bf_b bf) i" using i by (auto simp: bf_used_def)
  from bf_clr_bit [OF bf_wf_shape [OF wf] i'(1) bf_size_bits [OF bf_wf_shape [OF wf] i'(2)] i'(3)]
  obtain b' where b': "bf_clr bf i = Some (bf\<lparr>bf_b := b', bf_available := bf_available bf + 1\<rparr>)"
    "length b' = length (bf_b bf)" and bits: "\<And>j. 0 \<le> j \<Longrightarrow> bf_bit b' j \<longleftrightarrow> j \<noteq> i \<and> bf_bit (bf_b bf) j"
    by blast
  let ?bf = "bf\<lparr>bf_b := b', bf_available := bf_available bf + 1\<rparr>"
  have used: "bf_used ?bf = bf_used bf - {i}" using i bits by (auto simp: bf_used_def)
  have "i \<notin> bf_clear bf" using i by (simp add: bf_clear_used)
  moreover have "bf_clear ?bf = insert i (bf_clear bf)"
    using i'(1,2) unfolding bf_clear_used used by auto
  ultimately have "bf_available ?bf = int (card (bf_clear ?bf))"
    using wf by (simp add: bf_wf_def)
  then have "bf_wf ?bf" using wf b' bits i' by (auto simp: bf_wf_def bf_shape_def)
  with used b' show ?thesis by simp
qed

lemma scan_bytes_spec:
  "0 \<le> cur \<Longrightarrow> lim \<le> int (length f) \<Longrightarrow>
   \<exists>r. scan_bytes f cur lim = Some r \<and>
     (case r of Some c \<Rightarrow> cur \<le> c \<and> c < lim \<and> f ! nat c \<noteq> 0xFF
      | None \<Rightarrow> \<forall>k. cur \<le> k \<and> k < lim \<longrightarrow> f ! nat k = 0xFF)"
proof (induction f cur lim rule: scan_bytes.induct)
  case (1 f cur lim)
  show ?case
  proof (cases "cur < lim \<and> f ! nat cur = 0xFF")
    case True
    then have "scan_bytes f cur lim = scan_bytes f (cur + 1) lim"
      using "1.prems" by (subst scan_bytes.simps) simp
    moreover obtain r where "scan_bytes f (cur + 1) lim = Some r"
      "case r of Some c \<Rightarrow> cur + 1 \<le> c \<and> c < lim \<and> f ! nat c \<noteq> 0xFF
       | None \<Rightarrow> \<forall>k. cur + 1 \<le> k \<and> k < lim \<longrightarrow> f ! nat k = 0xFF"
      using "1.IH" [of "f ! nat cur"] "1.prems" True by auto
    ultimately show ?thesis using True all_int_step [of cur lim "\<lambda>k. f ! nat k = 0xFF"]
      by (cases r) simp_all
  next
    case False
    then show ?thesis using "1.prems" by (subst scan_bytes.simps) auto
  qed
qed

lemma byte_full_iff: "(v::u8) = 0xFF \<longleftrightarrow> (\<forall>i<8. bit v i)"
proof
  assume "\<forall>i<8. bit v i"
  then have "v = mask 8" by (intro bit_eqI) (simp add: bit_mask_iff)
  then show "v = 0xFF" by (simp add: mask_eq_exp_minus_1)
next
  have "bit (mask 8 :: u8) i" if "i < 8" for i using that by (simp add: bit_mask_iff)
  then have "bit (255::u8) i" if "i < 8" for i using that by (simp add: mask_eq_exp_minus_1)
  then show "v = 0xFF \<Longrightarrow> \<forall>i<8. bit v i" by blast
qed

lemma scan_bits_spec:
  "\<exists>j. i \<le> j \<and> j < i + k \<and> \<not> bit v j \<Longrightarrow>
   \<exists>j. scan_bits v i k = int j \<and> i \<le> j \<and> j < i + k \<and> \<not> bit v j"
proof (induction v i k rule: scan_bits.induct)
  case (2 v i k)
  show ?case
  proof (cases "bit v i")
    case True
    with "2.prems" have "\<exists>j. Suc i \<le> j \<and> j < Suc i + k \<and> \<not> bit v j"
      by (metis Suc_leI add_Suc_right add_Suc le_neq_implies_less)
    with "2.IH" True show ?thesis by (auto simp: bit_iff_and_push_bit_not_eq_0)
  next
    case False
    then show ?thesis by (auto simp: bit_iff_and_push_bit_not_eq_0)
  qed
qed auto

lemma bf_find_next_free_bit_spec:
  "v \<noteq> 0xFF \<Longrightarrow> \<exists>j. bf_find_next_free_bit v = Some (int j) \<and> j < 8 \<and> \<not> bit v j"
  using scan_bits_spec [of 0 8 v] byte_full_iff [of v]
  by (auto simp: bf_find_next_free_bit_def)

lemma bf_find_next_free_byte_spec:
  assumes "bf_wf bf"
  shows "\<exists>c. bf_find_next_free_byte (bf_b bf) (bf_next_free bf) (bf_size bf) = Some c \<and>
    (c = -1 \<and> bf_clear bf = {} \<or> 0 \<le> c \<and> c < int (length (bf_b bf)) \<and> bf_b bf ! nat c \<noteq> 0xFF)"
proof -
  let ?n = "bf_next_free bf div 8" and ?l = "int (length (bf_b bf))"
  have l: "(bf_size bf + 7) div 8 = ?l" and n: "0 \<le> ?n" "?n \<le> ?l"
    using assms unfolding bf_wf_def bf_shape_def by linarith+
  obtain r where r: "scan_bytes (bf_b bf) ?n ?l = Some r" 
     "case r of Some c \<Rightarrow> ?n \<le> c \<and> c < ?l \<and> bf_b bf ! nat c \<noteq> 0xFF
      | None \<Rightarrow> \<forall>k. ?n \<le> k \<and> k < ?l \<longrightarrow> bf_b bf ! nat k = 0xFF"
    using scan_bytes_spec [OF n(1), of ?l "bf_b bf"] by auto
  obtain r' where r': "scan_bytes (bf_b bf) 0 ?n = Some r'" 
     "case r' of Some c \<Rightarrow> 0 \<le> c \<and> c < ?n \<and> bf_b bf ! nat c \<noteq> 0xFF
      | None \<Rightarrow> \<forall>k. 0 \<le> k \<and> k < ?n \<longrightarrow> bf_b bf ! nat k = 0xFF"
    using scan_bytes_spec [OF order_refl, of ?n "bf_b bf"] n by auto
  have full: "bf_clear bf = {}" if "\<forall>k. 0 \<le> k \<and> k < ?l \<longrightarrow> bf_b bf ! nat k = 0xFF"
  proof -
    have "bf_bit (bf_b bf) i" if "0 \<le> i" "i < bf_size bf" for i
    proof -
      have "bf_b bf ! nat (i div 8) = 0xFF"
        using \<open>\<forall>k. _\<close> that bf_size_bits [OF bf_wf_shape [OF assms] that(2)]
        by (simp add: pos_imp_zdiv_nonneg_iff div8_bounds)
      then show ?thesis using byte_full_iff [of "bf_b bf ! nat (i div 8)"] by (simp add: bf_bit_def)
    qed
    then show ?thesis by (auto simp: bf_clear_def)
  qed
  have find: "bf_find_next_free_byte (bf_b bf) (bf_next_free bf) (bf_size bf) =
      Some (case r of Some c \<Rightarrow> c | None \<Rightarrow> (case r' of Some c \<Rightarrow> c | None \<Rightarrow> - 1))"
    using r(1) r'(1) by (simp add: bf_find_next_free_byte_def FLOOR8_eq CEILING8_eq l split: option.split)
  show ?thesis
  proof (cases r)
    case None
    note rN = this
    show ?thesis
    proof (cases r')
      case None
      have "bf_b bf ! nat k = 0xFF" if "0 \<le> k" "k < ?l" for k
        using r(2) r'(2) None rN that by (cases "k < ?n") auto
      then show ?thesis using full find None rN by auto
    next
      case (Some c)
      then show ?thesis using find rN r'(2) n by auto
    qed
  next
    case (Some c)
    then show ?thesis using find r(2) n by auto
  qed
qed

lemma bf_wf_next_free:
  "bf_wf bf \<Longrightarrow> 0 \<le> n \<Longrightarrow> n \<le> bf_size bf \<Longrightarrow> bf_wf (bf\<lparr>bf_next_free := n\<rparr>)"
  by (simp add: bf_wf_def bf_shape_def bf_clear_def)

lemma bf_used_next_free [simp]: "bf_used (bf\<lparr>bf_next_free := n\<rparr>) = bf_used bf"
  by (simp add: bf_used_def)

lemma bf_set_next_free_none:
  assumes "bf_wf bf" "bf_clear bf = {}"
  shows "bf_set_next_free bf = Some (- 1, bf)"
  using assms by (simp add: bf_set_next_free_def bf_wf_def)

lemma bf_set_next_free_some:
  assumes wf: "bf_wf bf" and "bf_clear bf \<noteq> {}"
  shows "\<exists>i bf'. bf_set_next_free bf = Some (i, bf') \<and> i \<in> bf_clear bf \<and> bf_wf bf'
    \<and> bf_used bf' = insert i (bf_used bf) \<and> bf_size bf' = bf_size bf"
proof -
  have "card (bf_clear bf) \<noteq> 0" using assms(2) by simp
  then have av: "bf_available bf \<noteq> 0" using wf by (simp add: bf_wf_def)
  obtain c where c: "bf_find_next_free_byte (bf_b bf) (bf_next_free bf) (bf_size bf) = Some c"
    "0 \<le> c" "c < int (length (bf_b bf))" "bf_b bf ! nat c \<noteq> 0xFF"
    using bf_find_next_free_byte_spec [OF wf] assms(2) by auto
  obtain j where j: "bf_find_next_free_bit (bf_b bf ! nat c) = Some (int j)" "j < 8"
    "\<not> bit (bf_b bf ! nat c) j" using bf_find_next_free_bit_spec [OF c(4)] by blast
  let ?i = "c * 8 + int j"
  have "?i div 8 = c" "?i mod 8 = int j" using j(2) by simp_all
  then have nb: "\<not> bf_bit (bf_b bf) ?i" using j(3) by (simp add: bf_bit_def)
  have "0 \<le> ?i" "?i < 8 * int (length (bf_b bf))" using c j(2) by linarith+
  then have i: "0 \<le> ?i" "?i < bf_size bf" using nb wf unfolding bf_wf_def by (auto simp: not_le [symmetric])
  then have "?i \<notin> bf_used bf" using nb by (simp add: bf_used_def)
  from bf_set_wf [OF wf i this] obtain bf' where bf': "bf_set bf ?i = Some bf'" "bf_wf bf'"
    "bf_used bf' = insert ?i (bf_used bf)" "bf_size bf' = bf_size bf" by blast
  let ?nf = "if ?i + 1 > bf_size bf then 0 else ?i + 1"
  have "bf_set_next_free bf = Some (?i, bf'\<lparr>bf_next_free := ?nf\<rparr>)"
    using av c j(1) bf'(1) by (simp add: bf_set_next_free_def Let_def)
  moreover have "bf_wf (bf'\<lparr>bf_next_free := ?nf\<rparr>)" using bf' i by (intro bf_wf_next_free) auto
  moreover have "?i \<in> bf_clear bf" using nb i by (simp add: bf_clear_def)
  ultimately show ?thesis using bf' by simp
qed

subsection \<open>Creation\<close>

lemma bf_bit_replicate0: "0 \<le> i \<Longrightarrow> i < 8 * int n \<Longrightarrow> \<not> bf_bit (replicate n 0) i"
  by (simp add: bf_bit_def nat_less_iff div8_bounds pos_imp_zdiv_nonneg_iff)

lemma bf_bit_replicate255: "0 \<le> i \<Longrightarrow> i < 8 * int n \<Longrightarrow> bf_bit (replicate n 0xFF) i"
  using byte_full_iff [of 255]
  by (simp add: bf_bit_def nat_less_iff div8_bounds pos_imp_zdiv_nonneg_iff)

lemma new_bitfield_filled:
  assumes sz: "0 \<le> sz" and ok: "ok 0" "ok 1"
  shows "\<exists>bf. new_bitfield ok sz BITFIELD_INIT_FILLED = Some (Some bf) \<and> bf_wf bf
    \<and> bf_size bf = sz \<and> bf_used bf = {0..<sz}"
proof -
  define n where "n = nat ((sz + 7) div 8)"
  let ?bf = "\<lparr>bf_next_free = 0, bf_available = 0, bf_size = sz, bf_b = replicate n (0xFF::u8)\<rparr>"
  have b: "int n = (sz + 7) div 8" "sz \<le> 8 * int n" using sz unfolding n_def by linarith+
  have bits: "bf_bit (replicate n 0xFF) i" if "0 \<le> i" "i < 8 * int n" for i
    using that by (rule bf_bit_replicate255)
  have used: "bf_used ?bf = {0..<sz}" using bits b(2) by (auto simp: bf_used_def)
  have "bf_clear ?bf = {}" unfolding bf_clear_used used by simp
  then have "bf_wf ?bf" using bits b sz by (simp add: bf_wf_def bf_shape_def)
  moreover have "new_bitfield ok sz BITFIELD_INIT_FILLED = Some (Some ?bf)"
    using ok by (simp add: new_bitfield_def CEILING8_eq flip: n_def)
  ultimately show ?thesis using used by simp
qed

lemma bf_set_range:
  assumes sh: "bf_shape bf" and lo: "0 \<le> lo" "lo \<le> hi" "hi \<le> 8 * int (length (bf_b bf))"
    and clear: "\<And>j. lo \<le> j \<Longrightarrow> j < hi \<Longrightarrow> \<not> bf_bit (bf_b bf) j"
  shows "\<exists>bf'. for_up lo hi (\<lambda>i bf. bf_set bf i) bf = Some bf' \<and>
     (\<exists>b'. bf' = bf\<lparr>bf_b := b', bf_available := bf_available bf - (hi - lo)\<rparr> \<and>
       length b' = length (bf_b bf) \<and>
       (\<forall>j\<ge>0. bf_bit b' j = (bf_bit (bf_b bf) j \<or> lo \<le> j \<and> j < hi)))"
proof (rule for_up_total [where P = "\<lambda>k bf'. \<exists>b'. bf' = bf\<lparr>bf_b := b', bf_available := bf_available bf - (k - lo)\<rparr> \<and>
       length b' = length (bf_b bf) \<and>
       (\<forall>j\<ge>0. bf_bit b' j = (bf_bit (bf_b bf) j \<or> lo \<le> j \<and> j < k))"])
  show "lo \<le> hi" by (rule lo(2))
  show "\<exists>b'. bf = bf\<lparr>bf_b := b', bf_available := bf_available bf - (lo - lo)\<rparr> \<and>
       length b' = length (bf_b bf) \<and>
       (\<forall>j\<ge>0. bf_bit b' j = (bf_bit (bf_b bf) j \<or> lo \<le> j \<and> j < lo))"
    by (rule exI [of _ "bf_b bf"]) auto
next
  fix k t assume k: "lo \<le> k" "k < hi"
  assume "\<exists>b'. t = bf\<lparr>bf_b := b', bf_available := bf_available bf - (k - lo)\<rparr> \<and>
       length b' = length (bf_b bf) \<and>
       (\<forall>j\<ge>0. bf_bit b' j = (bf_bit (bf_b bf) j \<or> lo \<le> j \<and> j < k))"
  then obtain b1 where t: "t = bf\<lparr>bf_b := b1, bf_available := bf_available bf - (k - lo)\<rparr>"
    "length b1 = length (bf_b bf)"
    and b1: "\<And>j. 0 \<le> j \<Longrightarrow> bf_bit b1 j = (bf_bit (bf_b bf) j \<or> lo \<le> j \<and> j < k)" by blast
  have "bf_shape t" "0 \<le> k" "k < 8 * int (length (bf_b t))" "\<not> bf_bit (bf_b t) k"
    using sh t b1 [of k] clear [of k] k lo by (auto simp: bf_shape_def)
  from bf_set_bit [OF this] obtain b2 where
    b2: "bf_set t k = Some (t\<lparr>bf_b := b2, bf_available := bf_available t - 1\<rparr>)"
      "length b2 = length (bf_b t)" "\<And>j. 0 \<le> j \<Longrightarrow> bf_bit b2 j = (j = k \<or> bf_bit (bf_b t) j)" by blast
  have "bf_bit b2 j = (bf_bit (bf_b bf) j \<or> lo \<le> j \<and> j < k + 1)" if "0 \<le> j" for j
    using b2(3) [OF that] b1 [OF that] t(1) k by auto
  then show "\<exists>t'. bf_set t k = Some t' \<and> (\<exists>b'. t' = bf\<lparr>bf_b := b', bf_available := bf_available bf - (k + 1 - lo)\<rparr> \<and>
       length b' = length (bf_b bf) \<and>
       (\<forall>j\<ge>0. bf_bit b' j = (bf_bit (bf_b bf) j \<or> lo \<le> j \<and> j < k + 1)))"
    using b2(1,2) t by (intro exI [of _ "bf\<lparr>bf_b := b2, bf_available := bf_available bf - (k + 1 - lo)\<rparr>"]
      conjI exI [of _ b2]) (simp_all add: algebra_simps)
qed

lemma new_bitfield_empty:
  assumes sz: "0 \<le> sz" and ok: "ok 0" "ok 1"
  shows "\<exists>bf. new_bitfield ok sz BITFIELD_INIT_EMPTY = Some (Some bf) \<and> bf_size bf = sz
    \<and> bf_used bf = {} \<and> bf_available bf = sz - (CEILING8 sz - sz)
    \<and> bf_wf (bf\<lparr>bf_available := sz\<rparr>)"
proof -
  define n where "n = nat ((sz + 7) div 8)"
  define bf0 where "bf0 = \<lparr>bf_next_free = 0, bf_available = sz, bf_size = sz, bf_b = replicate n (0::u8)\<rparr>"
  have n: "int n = (sz + 7) div 8" "sz \<le> 8 * int n" using sz unfolding n_def by linarith+
  have bits: "\<not> bf_bit (bf_b bf0) j" if "0 \<le> j" "j < 8 * int n" for j
    using bf_bit_replicate0 [OF that] by (simp add: bf0_def)
  have "bf_shape bf0" "0 \<le> sz" "sz \<le> 8 * int n" "8 * int n \<le> 8 * int (length (bf_b bf0))"
    using n sz by (simp_all add: bf0_def bf_shape_def)
  from bf_set_range [OF this] bits sz obtain b' where
    b': "for_up sz (8 * int n) (\<lambda>i bf. bf_set bf i) bf0 =
           Some (bf0\<lparr>bf_b := b', bf_available := sz - (8 * int n - sz)\<rparr>)" "length b' = n"
      "\<And>j. 0 \<le> j \<Longrightarrow> j < 8 * int n \<Longrightarrow> bf_bit b' j = (sz \<le> j)"
    by (force simp: bf0_def)
  let ?bf = "bf0\<lparr>bf_b := b', bf_available := sz - (8 * int n - sz)\<rparr>"
  have clear: "bf_clear (?bf\<lparr>bf_available := sz\<rparr>) = {0..<sz}"
    using b'(3) n by (auto simp: bf_clear_def bf0_def)
  have "bf_wf (?bf\<lparr>bf_available := sz\<rparr>)"
    using b' n sz clear by (simp add: bf_wf_def bf_shape_def bf0_def)
  moreover have "bf_used ?bf = {}" using b'(3) n by (auto simp: bf_used_def bf0_def)
  moreover have "new_bitfield ok sz BITFIELD_INIT_EMPTY = Some (Some ?bf)"
    using ok b'(1) n(1) by (simp add: new_bitfield_def CEILING8_eq Let_def bf0_def mult.commute flip: n_def)
  ultimately show ?thesis using n by (simp add: CEILING8_eq bf0_def)
qed

subsection \<open>Executable forms of the abstraction\<close>

lemma bf_used_code [code]:
  "bf_used bf = set (filter (bf_bit (bf_b bf)) [0..bf_size bf - 1])"
  by (auto simp: bf_used_def)

lemma bf_clear_code [code]:
  "bf_clear bf = set (filter (\<lambda>i. \<not> bf_bit (bf_b bf) i) [0..bf_size bf - 1])"
  by (auto simp: bf_clear_def)

lemma bf_wf_code [code]:
  "bf_wf bf \<longleftrightarrow> bf_shape bf
     \<and> list_all (bf_bit (bf_b bf)) [bf_size bf..8 * int (length (bf_b bf)) - 1]
     \<and> bf_available bf = int (length (filter (\<lambda>i. \<not> bf_bit (bf_b bf) i) [0..bf_size bf - 1]))
     \<and> 0 \<le> bf_next_free bf \<and> bf_next_free bf \<le> bf_size bf"
proof -
  have "card (bf_clear bf) = length (filter (\<lambda>i. \<not> bf_bit (bf_b bf) i) [0..bf_size bf - 1])"
    unfolding bf_clear_code by (intro distinct_card distinct_filter) simp
  moreover have "(\<forall>i. bf_size bf \<le> i \<and> i < n \<longrightarrow> P i) = list_all P [bf_size bf..n - 1]" for n P
    by (auto simp: list_all_iff)
  ultimately show ?thesis by (simp only: bf_wf_def)
qed

subsection \<open>The bitfield is a slot allocator\<close>

lemma bf_clear_empty: "bf_clear bf = {} \<longleftrightarrow> bf_used bf = {0..<bf_size bf}"
proof -
  have "bf_used bf \<subseteq> {0..<bf_size bf}" by (auto simp: bf_used_def)
  then show ?thesis unfolding bf_clear_used by blast
qed

interpretation bitmap: slot_allocator bf_set_next_free bf_clr bf_wf bf_used bf_size
proof
  fix s assume wf: "bf_wf s"
  show "bf_used s \<subseteq> {0..<bf_size s}" by (auto simp: bf_used_def)
  show "bf_set_next_free s = Some (- 1, s)" if "bf_used s = {0..<bf_size s}"
    using bf_set_next_free_none [OF wf] that by (simp add: bf_clear_empty)
  show "\<exists>i s'. bf_set_next_free s = Some (i, s') \<and> i \<in> {0..<bf_size s} - bf_used s \<and> bf_wf s'
        \<and> bf_used s' = insert i (bf_used s) \<and> bf_size s' = bf_size s"
    if "bf_used s \<noteq> {0..<bf_size s}"
  proof -
    have "bf_clear s \<noteq> {}" using that by (simp add: bf_clear_empty)
    from bf_set_next_free_some [OF wf this] show ?thesis unfolding bf_clear_used .
  qed
  show "\<exists>s'. bf_clr s i = Some s' \<and> bf_wf s' \<and> bf_used s' = bf_used s - {i} \<and> bf_size s' = bf_size s"
    if "i \<in> bf_used s" for i
    using bf_clr_wf [OF wf that] by blast
qed

subsection \<open>Properties\<close>

abbreviation bf_example :: bitfield where
  "bf_example \<equiv> \<lparr>bf_next_free = 3, bf_available = 2, bf_size = 10, bf_b = [0xFF, 0xFC]\<rparr>"

text \<open>
  C9. On a well-formed bitfield the search never fails and never reads outside the array: it
  returns \<open>-1\<close> and leaves the bitfield alone exactly when no bit is clear, and otherwise it
  returns an offset that was clear and marks that offset, and no other, as used.
\<close>

theorem bf_set_next_free_correct:
  assumes "bf_wf bf"
  shows "if bf_clear bf = {} then bf_set_next_free bf = Some (- 1, bf)
         else (\<exists>i bf'. bf_set_next_free bf = Some (i, bf') \<and> i \<in> bf_clear bf \<and> bf_wf bf'
                \<and> bf_used bf' = insert i (bf_used bf) \<and> bf_size bf' = bf_size bf)"
  using bf_set_next_free_none [OF assms] bf_set_next_free_some [OF assms] by simp

theorem bf_set_next_free_correct_witness:
  "bf_wf bf_example \<and> bf_clear bf_example = {8, 9} \<and>
   (\<exists>i bf'. bf_set_next_free bf_example = Some (i, bf') \<and> i \<in> bf_clear bf_example \<and> bf_wf bf'
      \<and> bf_used bf' = insert i (bf_used bf_example) \<and> bf_size bf' = bf_size bf_example)"
proof -
  have wf: "bf_wf bf_example" by code_simp
  have cl: "bf_clear bf_example = {8, 9}" by code_simp
  show ?thesis using bf_set_next_free_correct [OF wf] wf cl by simp
qed

text \<open>
  C10. A sequence of \<open>n\<close> allocations from a bitfield with at least \<open>n\<close> clear bits succeeds and
  returns \<open>n\<close> different offsets, all in range and none of them in use before; the offsets in
  use afterwards are the old ones and these.
\<close>

theorem bf_alloc_many_distinct:
  assumes "bf_wf bf" and "int (card (bf_used bf) + n) \<le> bf_size bf"
  shows "\<exists>is bf'. alloc_many bf_set_next_free n bf = Some (is, bf') \<and> length is = n \<and> distinct is
     \<and> set is \<inter> bf_used bf = {} \<and> set is \<subseteq> {0..<bf_size bf} \<and> bf_wf bf'
     \<and> bf_used bf' = bf_used bf \<union> set is \<and> bf_size bf' = bf_size bf"
  using assms by (rule bitmap.alloc_many_distinct)

theorem bf_alloc_many_distinct_witness:
  "\<exists>is bf'. alloc_many bf_set_next_free 2 bf_example = Some (is, bf') \<and> length is = 2 \<and> distinct is
     \<and> bf_used bf' = bf_used bf_example \<union> set is"
proof -
  have "bf_wf bf_example" by code_simp
  moreover have "card (bf_used bf_example) = 8" by code_simp
  ultimately show ?thesis using bf_alloc_many_distinct [of bf_example 2] by auto
qed

text \<open>
  C11. \<^verbatim>\<open>new_bitfield\<close> with \<^verbatim>\<open>BITFIELD_INIT_EMPTY\<close> returns a bitfield of the requested size with no
  bit in use. Marking the padding bits of the last byte also decrements the count of available
  bits, so the count, and with it the invariant, is right exactly when the size is a multiple of 8.
\<close>

theorem new_bitfield_empty_count:
  assumes "0 \<le> sz" and "ok 0" and "ok 1"
  shows "\<exists>bf. new_bitfield ok sz BITFIELD_INIT_EMPTY = Some (Some bf) \<and> bf_size bf = sz
    \<and> bf_used bf = {} \<and> bf_available bf = sz - (CEILING8 sz - sz) \<and> (bf_wf bf \<longleftrightarrow> sz mod 8 = 0)"
proof -
  from new_bitfield_empty [of sz ok, OF assms] obtain bf where
    bf: "new_bitfield ok sz BITFIELD_INIT_EMPTY = Some (Some bf)" "bf_size bf = sz" "bf_used bf = {}"
      "bf_available bf = sz - (CEILING8 sz - sz)" "bf_wf (bf\<lparr>bf_available := sz\<rparr>)" by blast
  have "bf_wf bf \<longleftrightarrow> bf_available bf = sz"
    using bf(5) unfolding bf_wf_def by (auto simp: bf_shape_def bf_clear_def)
  also have "\<dots> \<longleftrightarrow> sz mod 8 = 0" unfolding bf(4) CEILING8_eq by presburger
  finally show ?thesis using bf(1-4) by (intro exI [of _ bf]) simp
qed

theorem new_bitfield_empty_count_witness:
  "\<exists>bf. new_bitfield (\<lambda>_. True) 12 BITFIELD_INIT_EMPTY = Some (Some bf) \<and> bf_used bf = {}
    \<and> bf_available bf = 8 \<and> \<not> bf_wf bf"
proof -
  have "12 - (CEILING8 12 - 12) = 8" by code_simp
  then show ?thesis using new_bitfield_empty_count [of 12 "\<lambda>_. True"] by auto
qed

end
