(* ===== verification/UT_Allocator.thy ===== *)
theory UT_Allocator
  imports Bitfield
begin

text \<open>
  \<^verbatim>\<open>ut_manager/ut_allocator.c\<close>: the allocator of untyped memory. Three bitfields hold the free
  blocks of 16K, 4K and 1K; a 16K block that is taken from the primary pool is split into the
  blocks of a smaller pool, and merged back when all of them are free. Blocks of 512 and 16 bytes
  come from sub-allocators, each one a 16K block with a bitfield of its own, kept in two doubly
  linked lists. The list nodes live in an explicit store, with the \<^verbatim>\<open>prev\<close> field a reference to
  the pointer that points at the node.
\<close>

subsection \<open>State\<close>

datatype sub_ref = Pool9 | Pool4 | NextOf nat

record suballocator =
  sub_prev :: "sub_ref option"
  sub_next :: "nat option"
  sub_base :: u32
  sub_bitfield :: bitfield

record ut_state =
  pool14 :: "bitfield option"
  pool12 :: "bitfield option"
  pool10 :: "bitfield option"
  pool9 :: "nat option"
  pool4 :: "nat option"
  sub_store :: "nat \<rightharpoonup> suballocator"
  initialised :: bool
  pool_base :: u32

definition FLOOR14 :: "u32 \<Rightarrow> u32" where
  "FLOOR14 x = x AND NOT (push_bit 14 1 - 1)"

definition CEILING14 :: "u32 \<Rightarrow> u32" where
  "CEILING14 x = FLOOR14 (x + push_bit 14 1 - 1)"

text \<open>The switch on the size that selects a bitfield, as a pair of accessors.\<close>

definition pool_of :: "nat \<Rightarrow> ut_state \<Rightarrow> bitfield option" where
  "pool_of sb s = (if sb = 14 then pool14 s else if sb = 12 then pool12 s
                   else if sb = 10 then pool10 s else None)"

definition set_pool :: "nat \<Rightarrow> bitfield \<Rightarrow> ut_state \<Rightarrow> ut_state" where
  "set_pool sb bf s = (if sb = 14 then s\<lparr>pool14 := Some bf\<rparr> else if sb = 12 then s\<lparr>pool12 := Some bf\<rparr>
                       else if sb = 10 then s\<lparr>pool10 := Some bf\<rparr> else s)"

subsection \<open>The bitfield pools\<close>

definition bitfield_fill_pool :: "nat \<Rightarrow> ut_state \<Rightarrow> ut_state option" where
  "bitfield_fill_pool sb s =
     (if sb \<noteq> 14 then do {
        prim \<leftarrow> pool14 s;
        (offset, prim') \<leftarrow> bf_set_next_free prim;
        let s1 = s\<lparr>pool14 := Some prim'\<rparr>;
        bf \<leftarrow> pool_of sb s1;
        (offset', bf') \<leftarrow>
          (if offset \<noteq> - 1 then do {
             let off = push_bit (14 - sb) offset;
             bf' \<leftarrow> for_up 0 (2 ^ (14 - sb)) (\<lambda>i b. bf_clr b (off + i)) bf;
             Some (off, bf') }
           else Some (offset, bf));
        Some (set_pool sb (bf'\<lparr>bf_next_free := offset'\<rparr>) s1) }
      else Some s)"

primrec any_used :: "bitfield \<Rightarrow> int \<Rightarrow> nat \<Rightarrow> bool option" where
  "any_used bf off 0 = Some False"
| "any_used bf off (Suc n) = do {
     used \<leftarrow> bf_get bf off;
     if used then Some True else any_used bf (off + 1) n }"

definition bitfield_merge_up :: "nat \<Rightarrow> int \<Rightarrow> ut_state \<Rightarrow> ut_state option" where
  "bitfield_merge_up sb offset s =
     (if sb \<noteq> 14 then do {
        let units = (2 ^ (14 - sb) :: int);
        let base = offset AND NOT (units - 1);
        let primary_base = drop_bit (14 - sb) base;
        pool \<leftarrow> pool_of sb s;
        busy \<leftarrow> any_used pool base (nat units);
        if busy then Some s
        else do {
          pool' \<leftarrow> for_up 0 units (\<lambda>i b. bf_set b (base + i)) pool;
          let s1 = set_pool sb pool' s;
          prim \<leftarrow> pool14 s1;
          prim' \<leftarrow> bf_clr prim primary_base;
          Some (s1\<lparr>pool14 := Some prim'\<rparr>) } }
      else Some s)"

definition do_ut_alloc_from_bitfield :: "nat \<Rightarrow> ut_state \<Rightarrow> (u32 \<times> ut_state) option" where
  "do_ut_alloc_from_bitfield sb s = do {
     pool \<leftarrow> pool_of sb s;
     (offset, pool') \<leftarrow> bf_set_next_free pool;
     let s1 = set_pool sb pool' s;
     (offset', s') \<leftarrow>
       (if offset = - 1 then do {
          s2 \<leftarrow> bitfield_fill_pool sb s1;
          pool2 \<leftarrow> pool_of sb s2;
          (offset2, pool2') \<leftarrow> bf_set_next_free pool2;
          Some (offset2, set_pool sb pool2' s2) }
        else Some (offset, s1));
     Some (if offset' = - 1 then 0 else word_of_int (push_bit sb offset') + pool_base s', s') }"

definition do_ut_free_from_bitfield :: "u32 \<Rightarrow> nat \<Rightarrow> ut_state \<Rightarrow> ut_state option" where
  "do_ut_free_from_bitfield addr sb s = do {
     pool \<leftarrow> pool_of sb s;
     let offset = uint (drop_bit sb (addr - pool_base s));
     pool' \<leftarrow> bf_clr pool offset;
     bitfield_merge_up sb offset (set_pool sb pool' s) }"

subsection \<open>The lists of sub-allocators\<close>

definition get_ref :: "sub_ref \<Rightarrow> ut_state \<Rightarrow> nat option option" where
  "get_ref r s = (case r of Pool9 \<Rightarrow> Some (pool9 s) | Pool4 \<Rightarrow> Some (pool4 s)
                  | NextOf q \<Rightarrow> map_option sub_next (sub_store s q))"

definition upd_node :: "nat \<Rightarrow> (suballocator \<Rightarrow> suballocator) \<Rightarrow> ut_state \<Rightarrow> ut_state option" where
  "upd_node p f s = do { n \<leftarrow> sub_store s p; Some (s\<lparr>sub_store := (sub_store s)(p \<mapsto> f n)\<rparr>) }"

definition set_ref :: "sub_ref \<Rightarrow> nat option \<Rightarrow> ut_state \<Rightarrow> ut_state option" where
  "set_ref r v s = (case r of Pool9 \<Rightarrow> Some (s\<lparr>pool9 := v\<rparr>) | Pool4 \<Rightarrow> Some (s\<lparr>pool4 := v\<rparr>)
                    | NextOf q \<Rightarrow> upd_node q (\<lambda>n. n\<lparr>sub_next := v\<rparr>) s)"

definition pool_list_detach :: "nat \<Rightarrow> ut_state \<Rightarrow> ut_state option" where
  "pool_list_detach p s = do {
     node \<leftarrow> sub_store s p;
     prev \<leftarrow> sub_prev node;
     tgt \<leftarrow> get_ref prev s;
     c_assert (tgt \<noteq> None);
     s1 \<leftarrow> (case sub_next node of None \<Rightarrow> Some s
            | Some q \<Rightarrow> upd_node q (\<lambda>n. n\<lparr>sub_prev := sub_prev node\<rparr>) s);
     s2 \<leftarrow> set_ref prev (sub_next node) s1;
     upd_node p (\<lambda>n. n\<lparr>sub_prev := None, sub_next := None\<rparr>) s2 }"

definition pool_list_attach :: "sub_ref \<Rightarrow> nat \<Rightarrow> ut_state \<Rightarrow> ut_state option" where
  "pool_list_attach pool p s = do {
     node \<leftarrow> sub_store s p;
     c_assert (sub_next node = None);
     c_assert (sub_prev node = None);
     hd \<leftarrow> get_ref pool s;
     s1 \<leftarrow> upd_node p (\<lambda>n. n\<lparr>sub_next := hd\<rparr>) s;
     s2 \<leftarrow> (case hd of None \<Rightarrow> Some s1
            | Some q \<Rightarrow> upd_node q (\<lambda>n. n\<lparr>sub_prev := Some (NextOf p)\<rparr>) s1);
     s3 \<leftarrow> upd_node p (\<lambda>n. n\<lparr>sub_prev := Some pool\<rparr>) s2;
     set_ref pool (Some p) s3 }"

text \<open>The two list searches; a list with a cycle would make them run for ever.\<close>

partial_function (option) pool_list_find_base ::
    "(nat \<rightharpoonup> suballocator) \<Rightarrow> nat option \<Rightarrow> u32 \<Rightarrow> nat option option" where
  "pool_list_find_base st pool base =
     (case pool of None \<Rightarrow> Some None
      | Some p \<Rightarrow> do {
          n \<leftarrow> st p;
          if sub_base n = base then Some (Some p) else pool_list_find_base st (sub_next n) base })"

partial_function (option) pool_list_find_free ::
    "(nat \<rightharpoonup> suballocator) \<Rightarrow> nat option \<Rightarrow> nat option option" where
  "pool_list_find_free st pool =
     (case pool of None \<Rightarrow> Some None
      | Some p \<Rightarrow> do {
          n \<leftarrow> st p;
          if bf_available (sub_bitfield n) \<noteq> 0 then Some (Some p)
          else pool_list_find_free st (sub_next n) })"

text \<open>
  \<open>malloc 0\<close> is the address returned for the list node, \<open>malloc 1\<close> and \<open>malloc 2\<close> those of
  the two blocks of \<^const>\<open>new_bitfield\<close>; \<^term>\<open>None\<close> is NULL.
\<close>

definition new_suballocator :: "(nat \<Rightarrow> nat option) \<Rightarrow> nat \<Rightarrow> ut_state \<Rightarrow> (nat option \<times> ut_state) option" where
  "new_suballocator malloc sb s = do {
     (primary_addr, s1) \<leftarrow> do_ut_alloc_from_bitfield 14 s;
     if primary_addr = 0 then Some (None, s1)
     else case malloc 0 of
       None \<Rightarrow> do { s2 \<leftarrow> do_ut_free_from_bitfield primary_addr 14 s1; Some (None, s2) }
     | Some p \<Rightarrow> do {
         r \<leftarrow> new_bitfield (\<lambda>k. malloc (Suc k) \<noteq> None) (2 ^ (14 - sb)) BITFIELD_INIT_EMPTY;
         case r of
           None \<Rightarrow> do { s2 \<leftarrow> do_ut_free_from_bitfield primary_addr 14 s1; Some (None, s2) }
         | Some bf \<Rightarrow>
             Some (Some p, s1\<lparr>sub_store := (sub_store s1)(p \<mapsto>
               \<lparr>sub_prev = None, sub_next = None, sub_base = primary_addr, sub_bitfield = bf\<rparr>)\<rparr>) } }"

definition list_pool :: "nat \<Rightarrow> sub_ref option" where
  "list_pool sb = (if sb = 9 then Some Pool9 else if sb = 4 then Some Pool4 else None)"

definition do_ut_alloc_from_list :: "(nat \<Rightarrow> nat option) \<Rightarrow> nat \<Rightarrow> ut_state \<Rightarrow> (u32 \<times> ut_state) option" where
  "do_ut_alloc_from_list malloc sb s = do {
     pool \<leftarrow> list_pool sb;
     head \<leftarrow> get_ref pool s;
     found \<leftarrow> pool_list_find_free (sub_store s) head;
     (node, s1) \<leftarrow>
       (case found of Some p \<Rightarrow> Some (Some p, s)
        | None \<Rightarrow> do {
            (new, s1) \<leftarrow> new_suballocator malloc sb s;
            case new of None \<Rightarrow> Some (None, s1)
            | Some p \<Rightarrow> do { s2 \<leftarrow> pool_list_attach pool p s1; Some (Some p, s2) } });
     case node of None \<Rightarrow> Some (0, s1)
     | Some p \<Rightarrow> do {
         n \<leftarrow> sub_store s1 p;
         (offset, bf') \<leftarrow> bf_set_next_free (sub_bitfield n);
         c_assert (offset \<noteq> - 1);
         s2 \<leftarrow> upd_node p (\<lambda>n. n\<lparr>sub_bitfield := bf'\<rparr>) s1;
         Some (word_of_int (push_bit sb offset) + sub_base n, s2) } }"

definition do_ut_free_from_list :: "u32 \<Rightarrow> nat \<Rightarrow> ut_state \<Rightarrow> ut_state option" where
  "do_ut_free_from_list addr sb s = do {
     pool \<leftarrow> list_pool sb;
     head \<leftarrow> get_ref pool s;
     let base = addr AND NOT (push_bit 14 1 - 1);
     let offset = uint (drop_bit sb (addr - base));
     found \<leftarrow> pool_list_find_base (sub_store s) head base;
     p \<leftarrow> found;
     n \<leftarrow> sub_store s p;
     bf' \<leftarrow> bf_clr (sub_bitfield n) offset;
     s1 \<leftarrow> upd_node p (\<lambda>n. n\<lparr>sub_bitfield := bf'\<rparr>) s;
     if bf_available bf' = 2 ^ (14 - sb) then do {
       s2 \<leftarrow> pool_list_detach p s1;
       s3 \<leftarrow> do_ut_free_from_bitfield (sub_base n) 14 s2;
       Some (s3\<lparr>sub_store := (sub_store s3)(p := None)\<rparr>) }
     else Some s1 }"

subsection \<open>Exported functions\<close>

definition ut_allocator_init :: "(nat \<Rightarrow> bool) \<Rightarrow> u32 \<Rightarrow> u32 \<Rightarrow> ut_state \<Rightarrow> ut_state option" where
  "ut_allocator_init malloc_ok low0 high0 s = do {
     c_assert (\<not> initialised s);
     let low = FLOOR14 low0;
     let high = CEILING14 high0;
     let mem_size = high - low;
     p14 \<leftarrow> new_bitfield malloc_ok (uint (drop_bit 14 mem_size)) BITFIELD_INIT_FILLED;
     p12 \<leftarrow> new_bitfield (\<lambda>k. malloc_ok (k + 2)) (uint (drop_bit 12 mem_size)) BITFIELD_INIT_FILLED;
     p10 \<leftarrow> new_bitfield (\<lambda>k. malloc_ok (k + 4)) (uint (drop_bit 10 mem_size)) BITFIELD_INIT_FILLED;
     p14' \<leftarrow> for_up 0 (uint (drop_bit 14 mem_size))
               (\<lambda>i p. do { bf \<leftarrow> p; bf' \<leftarrow> bf_clr bf i; Some (Some bf') }) p14;
     Some (s\<lparr>pool_base := low, pool14 := p14', pool12 := p12, pool10 := p10,
             pool9 := None, pool4 := None, initialised := True\<rparr>) }"

definition ut_alloc :: "(nat \<Rightarrow> nat option) \<Rightarrow> nat \<Rightarrow> ut_state \<Rightarrow> (u32 \<times> ut_state) option" where
  "ut_alloc malloc sb s = do {
     c_assert (initialised s);
     c_assert (pool14 s \<noteq> None);
     if sb = 4 \<or> sb = 9 then do_ut_alloc_from_list malloc sb s
     else if sb = 10 \<or> sb = 12 \<or> sb = 14 then do_ut_alloc_from_bitfield sb s
     else None }"

definition ut_free :: "u32 \<Rightarrow> nat \<Rightarrow> ut_state \<Rightarrow> ut_state option" where
  "ut_free addr sb s = do {
     c_assert (addr \<noteq> 0);
     c_assert (addr AND (push_bit sb 1 - 1) = 0);
     if sb = 4 \<or> sb = 9 then do_ut_free_from_list addr sb s
     else if sb = 10 \<or> sb = 12 \<or> sb = 14 then do_ut_free_from_bitfield addr sb s
     else None }"

end
