(* ===== verification/UT_Ownership.thy ===== *)
theory UT_Ownership
  imports UT_Allocator
begin

text \<open>
  The bitfield pools of the untyped allocator, proved against an ownership map: every 16K unit
  of the managed memory belongs to one size class, and a block of a class is free exactly when
  its unit belongs to the class and the block is not live.
\<close>

subsection \<open>Ranges of a bitfield\<close>

lemma bf_clear_of_used:
  "bf_size bf' = bf_size bf \<Longrightarrow> bf_used bf' = insert i (bf_used bf) \<Longrightarrow> bf_clear bf' = bf_clear bf - {i}"
  by (auto simp: bf_clear_used)

lemma bf_clear_of_unused:
  assumes "bf_size bf' = bf_size bf" "bf_used bf' = bf_used bf - {i}" "i \<in> {0..<bf_size bf}"
  shows "bf_clear bf' = insert i (bf_clear bf)"
  using assms(3) unfolding bf_clear_used assms(1,2) by blast

lemma bf_clr_clear:
  assumes "bf_wf bf" "i \<in> {0..<bf_size bf} - bf_clear bf"
  shows "\<exists>bf'. bf_clr bf i = Some bf' \<and> bf_wf bf' \<and> bf_clear bf' = insert i (bf_clear bf)
    \<and> bf_size bf' = bf_size bf \<and> bf_next_free bf' = bf_next_free bf"
proof -
  have "i \<in> bf_used bf" using assms(2) by (auto simp: bf_clear_used)
  from bf_clr_wf [OF assms(1) this] obtain bf' where "bf_clr bf i = Some bf'" "bf_wf bf'"
    "bf_used bf' = bf_used bf - {i}" "bf_size bf' = bf_size bf" "bf_next_free bf' = bf_next_free bf" by blast
  then show ?thesis using bf_clear_of_unused assms(2) by blast
qed

lemma bf_set_clear:
  assumes "bf_wf bf" "i \<in> bf_clear bf"
  shows "\<exists>bf'. bf_set bf i = Some bf' \<and> bf_wf bf' \<and> bf_clear bf' = bf_clear bf - {i}
    \<and> bf_size bf' = bf_size bf \<and> bf_next_free bf' = bf_next_free bf"
proof -
  have "0 \<le> i" "i < bf_size bf" "i \<notin> bf_used bf" using assms(2) by (auto simp: bf_clear_used)
  from bf_set_wf [OF assms(1) this] show ?thesis using bf_clear_of_used by blast
qed

lemma bf_clr_range:
  assumes wf: "bf_wf bf" and r: "{off..<off + n} \<subseteq> {0..<bf_size bf} - bf_clear bf" and n: "0 \<le> n"
  shows "\<exists>bf'. for_up 0 n (\<lambda>i b. bf_clr b (off + i)) bf = Some bf' \<and> bf_wf bf'
    \<and> bf_clear bf' = bf_clear bf \<union> {off..<off + n} \<and> bf_size bf' = bf_size bf"
proof -
  let ?P = "\<lambda>k b. bf_wf b \<and> bf_clear b = bf_clear bf \<union> {off..<off + k} \<and> bf_size b = bf_size bf"
  have "\<exists>bf'. for_up 0 n (\<lambda>i b. bf_clr b (off + i)) bf = Some bf' \<and> ?P n bf'"
  proof (rule for_up_total)
    show "?P 0 bf" using wf by simp
  next
    fix k b assume k: "0 \<le> k" "k < n" and P: "?P k b"
    have "off + k \<in> {off..<off + n}" using k by simp
    with r have "off + k \<in> {0..<bf_size bf} - bf_clear bf" by (rule subsetD)
    then have "off + k \<in> {0..<bf_size b} - bf_clear b" using P by simp
    from bf_clr_clear [OF _ this] P obtain b' where "bf_clr b (off + k) = Some b'" "bf_wf b'"
      "bf_clear b' = insert (off + k) (bf_clear b)" "bf_size b' = bf_size b" by blast
    moreover have "{off..<off + (k + 1)} = insert (off + k) {off..<off + k}" using k by auto
    ultimately show "\<exists>b'. bf_clr b (off + k) = Some b' \<and> ?P (k + 1) b'" using P by simp
  qed (rule n)
  then show ?thesis by blast
qed

lemma bf_set_range_clear:
  assumes wf: "bf_wf bf" and r: "{off..<off + n} \<subseteq> bf_clear bf" and n: "0 \<le> n"
  shows "\<exists>bf'. for_up 0 n (\<lambda>i b. bf_set b (off + i)) bf = Some bf' \<and> bf_wf bf'
    \<and> bf_clear bf' = bf_clear bf - {off..<off + n} \<and> bf_size bf' = bf_size bf"
proof -
  let ?P = "\<lambda>k b. bf_wf b \<and> bf_clear b = bf_clear bf - {off..<off + k} \<and> bf_size b = bf_size bf"
  have "\<exists>bf'. for_up 0 n (\<lambda>i b. bf_set b (off + i)) bf = Some bf' \<and> ?P n bf'"
  proof (rule for_up_total)
    show "?P 0 bf" using wf by simp
  next
    fix k b assume k: "0 \<le> k" "k < n" and P: "?P k b"
    then have "off + k \<in> bf_clear b" using r by auto
    from bf_set_clear [OF _ this] P obtain b' where "bf_set b (off + k) = Some b'" "bf_wf b'"
      "bf_clear b' = bf_clear b - {off + k}" "bf_size b' = bf_size b" by blast
    moreover have "{off..<off + (k + 1)} = insert (off + k) {off..<off + k}" using k by auto
    ultimately show "\<exists>b'. bf_set b (off + k) = Some b' \<and> ?P (k + 1) b'" using P by auto
  qed (rule n)
  then show ?thesis by blast
qed

lemma any_used_spec:
  "bf_wf bf \<Longrightarrow> {off..<off + int n} \<subseteq> {0..<bf_size bf} \<Longrightarrow>
   any_used bf off n = Some (\<not> {off..<off + int n} \<subseteq> bf_clear bf)"
proof (induction n arbitrary: off)
  case (Suc n)
  have split: "{off..<off + int (Suc n)} = insert off {off + 1..<off + 1 + int n}" by auto
  with Suc.prems have "0 \<le> off" "off < bf_size bf" "{off + 1..<off + 1 + int n} \<subseteq> {0..<bf_size bf}"
    by auto
  with Suc.IH [OF Suc.prems(1) this(3)] Suc.prems(1) show ?case
    unfolding split by (auto simp: bf_get_wf bf_clear_used)
qed simp

subsection \<open>Ownership of the 16K units\<close>

definition ut_sizes :: "nat set" where
  "ut_sizes = {14, 12, 10, 9, 4}"

definition own_ok :: "int \<Rightarrow> (nat \<Rightarrow> int set) \<Rightarrow> (nat \<times> int) set \<Rightarrow> (int \<Rightarrow> nat) \<Rightarrow> bool" where
  "own_ok N c live own \<longleftrightarrow>
     (\<forall>sb j. sb \<in> ut_sizes \<longrightarrow> (j \<in> c sb \<longleftrightarrow> 0 \<le> j div 2 ^ (14 - sb) \<and> j div 2 ^ (14 - sb) < N
        \<and> own (j div 2 ^ (14 - sb)) = sb \<and> (sb, j) \<notin> live))
   \<and> (\<forall>sb j. (sb, j) \<in> live \<longrightarrow> sb \<in> ut_sizes \<and> 0 \<le> j div 2 ^ (14 - sb) \<and> j div 2 ^ (14 - sb) < N
        \<and> own (j div 2 ^ (14 - sb)) = sb)"

definition unit_range :: "nat \<Rightarrow> int \<Rightarrow> int set" where
  "unit_range sb k = {k * 2 ^ (14 - sb)..<k * 2 ^ (14 - sb) + 2 ^ (14 - sb)}"

lemma unit_range_iff: "j \<in> unit_range sb k \<longleftrightarrow> j div 2 ^ (14 - sb) = k"
  by (simp add: unit_range_def div_eq_range_iff)

lemma sizes_14 [simp]: "14 \<in> ut_sizes"
  by (simp add: ut_sizes_def)

lemma own_okD:
  assumes "own_ok N c live own"
  shows "sb \<in> ut_sizes \<Longrightarrow> j \<in> c sb \<longleftrightarrow>
      0 \<le> j div 2 ^ (14 - sb) \<and> j div 2 ^ (14 - sb) < N \<and> own (j div 2 ^ (14 - sb)) = sb \<and> (sb, j) \<notin> live"
    and "(sb, j) \<in> live \<Longrightarrow> sb \<in> ut_sizes \<and> 0 \<le> j div 2 ^ (14 - sb) \<and> j div 2 ^ (14 - sb) < N
      \<and> own (j div 2 ^ (14 - sb)) = sb"
  using assms unfolding own_ok_def by blast+

lemma own_okI:
  assumes "\<And>sb j. sb \<in> ut_sizes \<Longrightarrow> j \<in> c sb \<longleftrightarrow>
      0 \<le> j div 2 ^ (14 - sb) \<and> j div 2 ^ (14 - sb) < N \<and> own (j div 2 ^ (14 - sb)) = sb \<and> (sb, j) \<notin> live"
    and "\<And>sb j. (sb, j) \<in> live \<Longrightarrow> sb \<in> ut_sizes \<and> 0 \<le> j div 2 ^ (14 - sb) \<and> j div 2 ^ (14 - sb) < N
      \<and> own (j div 2 ^ (14 - sb)) = sb"
  shows "own_ok N c live own"
  unfolding own_ok_def using assms by blast

lemma own_take:
  assumes "own_ok N c live own" "sb \<in> ut_sizes" "j \<in> c sb"
  shows "own_ok N (c(sb := c sb - {j})) (insert (sb, j) live) own"
  using own_okD [OF assms(1)] assms(2,3) by (intro own_okI) (auto split: if_splits)

lemma own_give:
  assumes "own_ok N c live own" "(sb, j) \<in> live"
  shows "own_ok N (c(sb := insert j (c sb))) (live - {(sb, j)}) own"
  using own_okD [OF assms(1)] assms(2) by (intro own_okI) (auto split: if_splits)

lemma own_split:
  assumes "own_ok N c live own" "(14, k) \<in> live" "sb \<in> ut_sizes" "sb \<noteq> 14"
  shows "own_ok N (c(sb := c sb \<union> unit_range sb k)) (live - {(14, k)}) (own(k := sb))"
  using own_okD [OF assms(1)] own_okD(2) [OF assms(1,2)] assms(2-)
  by (intro own_okI) (auto simp: unit_range_iff split: if_splits)

lemma own_of_range:
  assumes "own_ok N c live own" "sb \<in> ut_sizes" "unit_range sb k \<subseteq> c sb"
  shows "own k = sb"
proof -
  have "k * 2 ^ (14 - sb) \<in> unit_range sb k" by (simp add: unit_range_iff)
  with assms(3) show ?thesis using own_okD(1) [OF assms(1,2), of "k * 2 ^ (14 - sb)"] by auto
qed

lemma own_merge:
  assumes "own_ok N c live own" "0 \<le> k" "k < N" "sb \<in> ut_sizes" "sb \<noteq> 14" "unit_range sb k \<subseteq> c sb"
  shows "own_ok N (c(sb := c sb - unit_range sb k)) (insert (14, k) live) (own(k := 14))"
proof -
  note D = own_okD [OF assms(1)]
  have "own k = sb" using own_of_range [OF assms(1,4,6)] .
  moreover have "(sb, j) \<notin> live" if "j div 2 ^ (14 - sb) = k" for j
    using D(1) [OF assms(4), of j] assms(6) that by (auto simp: unit_range_iff)
  moreover have "(14, k) \<notin> live" using \<open>own k = sb\<close> D(2) [of 14 k] assms(5) by auto
  ultimately show ?thesis using D assms(2-)
    by (intro own_okI) (auto simp: unit_range_iff split: if_splits)
qed

subsection \<open>The bitfield pools against the ownership map\<close>

definition bf_sizes :: "nat set" where
  "bf_sizes = {14, 12, 10}"

definition ut_core :: "ut_state \<Rightarrow> int \<Rightarrow> (nat \<Rightarrow> int set) \<Rightarrow> bool" where
  "ut_core s N c \<longleftrightarrow> 0 \<le> N \<and> (\<forall>sb\<in>bf_sizes. \<exists>p. pool_of sb s = Some p \<and> bf_wf p
     \<and> bf_size p = N * 2 ^ (14 - sb) \<and> c sb = bf_clear p)"

definition ut_rest :: "ut_state \<Rightarrow> nat option \<times> nat option \<times> (nat \<rightharpoonup> suballocator) \<times> bool \<times> u32" where
  "ut_rest s = (pool9 s, pool4 s, sub_store s, initialised s, pool_base s)"

lemma bf_sizes_simps [simp]:
  "14 \<in> bf_sizes" "12 \<in> bf_sizes" "10 \<in> bf_sizes" "sb \<in> bf_sizes \<Longrightarrow> sb \<in> ut_sizes"
  by (auto simp: bf_sizes_def ut_sizes_def)

lemma pool_of_set_pool:
  "sb \<in> bf_sizes \<Longrightarrow> pool_of sb' (set_pool sb b s) = (if sb' = sb then Some b else pool_of sb' s)"
  by (auto simp: bf_sizes_def pool_of_def set_pool_def)

lemma ut_rest_set_pool [simp]: "ut_rest (set_pool sb b s) = ut_rest s"
  by (simp add: ut_rest_def set_pool_def)

lemma set_pool_14: "s\<lparr>pool14 := Some b\<rparr> = set_pool 14 b s" "pool14 s = pool_of 14 s"
  by (simp_all add: set_pool_def pool_of_def)

lemma set_pool_twice [simp]: "set_pool sb b (set_pool sb b' s) = set_pool sb b s"
  by (simp add: set_pool_def)

lemma set_pool_same: "pool_of sb s = Some b \<Longrightarrow> set_pool sb b s = s"
  by (auto simp: set_pool_def pool_of_def split: if_splits)

lemma pool_base_set_pool [simp]: "pool_base (set_pool sb b s) = pool_base s"
  by (simp add: set_pool_def)

lemma core_pool:
  assumes "ut_core s N c" "sb \<in> bf_sizes"
  obtains p where "pool_of sb s = Some p" "bf_wf p" "bf_size p = N * 2 ^ (14 - sb)" "c sb = bf_clear p"
  using assms unfolding ut_core_def by blast

lemma core_set_pool:
  assumes "ut_core s N c" "sb \<in> bf_sizes" "bf_wf p" "bf_size p = N * 2 ^ (14 - sb)"
  shows "ut_core (set_pool sb p s) N (c(sb := bf_clear p))"
  using assms by (simp add: ut_core_def pool_of_set_pool)

lemma bf_clear_nonneg: "j \<in> bf_clear p \<Longrightarrow> 0 \<le> j \<and> j < bf_size p"
  by (simp add: bf_clear_def)

lemma core_take:
  assumes core: "ut_core s N c" and sb: "sb \<in> bf_sizes" and ne: "c sb \<noteq> {}"
  shows "\<exists>p j p'. pool_of sb s = Some p \<and> bf_set_next_free p = Some (j, p') \<and> 0 \<le> j \<and> j \<in> c sb
    \<and> ut_core (set_pool sb p' s) N (c(sb := c sb - {j}))"
proof -
  from core sb obtain p where p: "pool_of sb s = Some p" "bf_wf p" "bf_size p = N * 2 ^ (14 - sb)"
    "c sb = bf_clear p" by (rule core_pool)
  from bf_set_next_free_some [OF p(2)] ne p(4) obtain j p' where
    j: "bf_set_next_free p = Some (j, p')" "j \<in> bf_clear p" "bf_wf p'" "bf_used p' = insert j (bf_used p)"
      "bf_size p' = bf_size p" by auto
  have "bf_clear p' = c sb - {j}" using bf_clear_of_used [OF j(5,4)] p(4) by simp
  with core_set_pool [OF core sb j(3)] j p bf_clear_nonneg show ?thesis by auto
qed

lemma core_empty:
  assumes "ut_core s N c" "sb \<in> bf_sizes" "c sb = {}"
  shows "\<exists>p. pool_of sb s = Some p \<and> bf_set_next_free p = Some (- 1, p)"
  using assms core_pool bf_set_next_free_none by metis

lemma fill_pool_some:
  assumes core: "ut_core s N c" and own: "own_ok N c live own" and sb: "sb \<in> bf_sizes" "sb \<noteq> 14"
    and ne: "c 14 \<noteq> {}"
  shows "\<exists>s' k. bitfield_fill_pool sb s = Some s' \<and> k \<in> c 14 \<and> ut_rest s' = ut_rest s
    \<and> ut_core s' N (c(14 := c 14 - {k}, sb := c sb \<union> unit_range sb k))"
proof -
  let ?u = "2 ^ (14 - sb) :: int"
  from core_take [OF core _ ne] obtain p k p' where k: "pool_of 14 s = Some p"
    "bf_set_next_free p = Some (k, p')" "0 \<le> k" "k \<in> c 14"
    and core1: "ut_core (set_pool 14 p' s) N (c(14 := c 14 - {k}))" by auto
  from core1 sb(1) obtain b where b: "pool_of sb (set_pool 14 p' s) = Some b" "bf_wf b"
    "bf_size b = N * ?u" "(c(14 := c 14 - {k})) sb = bf_clear b" by (rule core_pool)
  have kD: "0 \<le> k" "k < N" "own k = 14" using own_okD(1) [OF own sizes_14, of k] k(4) by auto
  have "j \<in> {0..<bf_size b} - bf_clear b" if "j \<in> unit_range sb k" for j
    using that own_okD(1) [OF own bf_sizes_simps(4) [OF sb(1)], of j] kD b(3,4) sb(2)
      unit_bounds [of ?u j N] by (auto simp: unit_range_iff)
  then have "{k * ?u..<k * ?u + ?u} \<subseteq> {0..<bf_size b} - bf_clear b" unfolding unit_range_def by blast
  from bf_clr_range [OF b(2) this] obtain b' where b':
    "for_up 0 ?u (\<lambda>i b. bf_clr b (k * ?u + i)) b = Some b'" "bf_wf b'"
    "bf_clear b' = c sb \<union> unit_range sb k" "bf_size b' = N * ?u"
    using b(3,4) sb(2) by (auto simp: unit_range_def)
  let ?b = "b'\<lparr>bf_next_free := k * ?u\<rparr>"
  have "k * ?u \<le> N * ?u" using kD by simp
  then have wf: "bf_wf ?b" using bf_wf_next_free [OF b'(2)] kD b'(4) by simp
  have "bf_clear ?b = c sb \<union> unit_range sb k" using b'(3) by (simp add: bf_clear_def)
  with core_set_pool [OF core1 sb(1) wf] b'(4)
  have "ut_core (set_pool sb ?b (set_pool 14 p' s)) N (c(14 := c 14 - {k}, sb := c sb \<union> unit_range sb k))"
    by simp
  moreover have "bitfield_fill_pool sb s = Some (set_pool sb ?b (set_pool 14 p' s))"
    using k(1,2,3) b(1) b'(1) sb(2)
    by (simp add: bitfield_fill_pool_def set_pool_14 Let_def push_bit_eq_mult)
  ultimately show ?thesis using k(4) by fastforce
qed

lemma fill_pool_none:
  assumes "ut_core s N c" "sb \<in> bf_sizes" "sb \<noteq> 14" "c 14 = {}"
  shows "\<exists>b. pool_of sb s = Some b \<and> bitfield_fill_pool sb s = Some (set_pool sb (b\<lparr>bf_next_free := - 1\<rparr>) s)"
proof -
  from core_empty [OF assms(1) _ assms(4)] obtain p where
    p: "pool_of 14 s = Some p" "bf_set_next_free p = Some (- 1, p)" by auto
  from assms(1,2) obtain b where b: "pool_of sb s = Some b" by (rule core_pool)
  show ?thesis using p b assms(3) set_pool_same [OF p(1)]
    by (simp add: bitfield_fill_pool_def set_pool_14)
qed

subsection \<open>Allocation from the bitfields\<close>

definition blk_addr :: "ut_state \<Rightarrow> nat \<Rightarrow> int \<Rightarrow> u32" where
  "blk_addr s sb j = word_of_int (push_bit sb j) + pool_base s"

lemma alloc_from_bitfield_direct:
  assumes core: "ut_core s N c" and own: "own_ok N c live own" and sb: "sb \<in> bf_sizes" and ne: "c sb \<noteq> {}"
  shows "\<exists>s' j. do_ut_alloc_from_bitfield sb s = Some (blk_addr s sb j, s') \<and> ut_rest s' = ut_rest s
    \<and> j \<in> c sb \<and> ut_core s' N (c(sb := c sb - {j}))"
proof -
  from core_take [OF core sb ne] obtain p j p' where "pool_of sb s = Some p"
    "bf_set_next_free p = Some (j, p')" "0 \<le> j" "j \<in> c sb" "ut_core (set_pool sb p' s) N (c(sb := c sb - {j}))"
    by blast
  then show ?thesis
    by (intro exI [of _ "set_pool sb p' s"] exI [of _ j])
       (simp add: do_ut_alloc_from_bitfield_def blk_addr_def)
qed

lemma alloc_from_bitfield_fill:
  assumes core: "ut_core s N c" and own: "own_ok N c live own" and sb: "sb \<in> bf_sizes" "sb \<noteq> 14"
    and e: "c sb = {}" and ne: "c 14 \<noteq> {}"
  shows "\<exists>s' j k. do_ut_alloc_from_bitfield sb s = Some (blk_addr s sb j, s') \<and> ut_rest s' = ut_rest s
    \<and> k \<in> c 14 \<and> j \<in> unit_range sb k \<and> ut_core s' N (c(14 := c 14 - {k}, sb := unit_range sb k - {j}))"
proof -
  from core_empty [OF core sb(1) e] obtain p where p: "pool_of sb s = Some p"
    "bf_set_next_free p = Some (- 1, p)" by blast
  from fill_pool_some [OF core own sb ne] obtain s2 k where s2: "bitfield_fill_pool sb s = Some s2"
    "k \<in> c 14" "ut_rest s2 = ut_rest s" 
    and core2: "ut_core s2 N (c(14 := c 14 - {k}, sb := c sb \<union> unit_range sb k))" by blast
  have "k * 2 ^ (14 - sb) \<in> unit_range sb k" by (simp add: unit_range_iff)
  with core_take [OF core2 sb(1)] obtain p2 j p2' where j: "pool_of sb s2 = Some p2"
    "bf_set_next_free p2 = Some (j, p2')" "0 \<le> j" "j \<in> unit_range sb k"
    "ut_core (set_pool sb p2' s2) N (c(14 := c 14 - {k}, sb := unit_range sb k - {j}))" using e by auto
  have "pool_base s2 = pool_base s" using s2(3) by (simp add: ut_rest_def)
  then have "do_ut_alloc_from_bitfield sb s = Some (blk_addr s sb j, set_pool sb p2' s2)"
    using p j(1,2,3) s2(1) set_pool_same [OF p(1)] by (simp add: do_ut_alloc_from_bitfield_def blk_addr_def)
  with j s2 show ?thesis by (intro exI [of _ "set_pool sb p2' s2"] exI [of _ j] exI [of _ k]) simp
qed

lemma alloc_from_bitfield_none:
  assumes core: "ut_core s N c" and sb: "sb \<in> bf_sizes" and e: "c sb = {}" "c 14 = {}"
  shows "\<exists>s'. do_ut_alloc_from_bitfield sb s = Some (0, s') \<and> ut_rest s' = ut_rest s \<and> (sb = 14 \<longrightarrow> s' = s)"
proof -
  from core_empty [OF core sb e(1)] obtain p where p: "pool_of sb s = Some p"
    "bf_set_next_free p = Some (- 1, p)" by blast
  note same = set_pool_same [OF p(1)]
  show ?thesis
  proof (cases "sb = 14")
    case True
    then show ?thesis using p same
      by (intro exI [of _ s]) (simp add: do_ut_alloc_from_bitfield_def bitfield_fill_pool_def)
  next
    case False
    from core sb obtain p0 where "pool_of sb s = Some p0" "bf_wf p0" "c sb = bf_clear p0"
      by (rule core_pool)
    with p(1) e(1) have "bf_available p = 0" by (simp add: bf_wf_def)
    then have "bf_set_next_free (p\<lparr>bf_next_free := - 1\<rparr>) = Some (- 1, p\<lparr>bf_next_free := - 1\<rparr>)"
      by (simp add: bf_set_next_free_def)
    moreover obtain b where "pool_of sb s = Some b"
      "bitfield_fill_pool sb s = Some (set_pool sb (b\<lparr>bf_next_free := - 1\<rparr>) s)"
      using fill_pool_none [OF core sb False e(2)] by blast
    ultimately show ?thesis using p same False sb
      by (intro exI [of _ "set_pool sb (p\<lparr>bf_next_free := - 1\<rparr>) s"])
         (simp add: do_ut_alloc_from_bitfield_def pool_of_set_pool)
  qed
qed

definition ut_base_ok :: "ut_state \<Rightarrow> int \<Rightarrow> bool" where
  "ut_base_ok s N \<longleftrightarrow> 0 < uint (pool_base s) \<and> uint (pool_base s) mod 2 ^ 14 = 0
     \<and> uint (pool_base s) + N * 2 ^ 14 \<le> 2 ^ 32"

text \<open>Which changes of the ownership map leave the sub-allocators alone.\<close>

definition own_frame :: "(nat \<Rightarrow> int set) \<Rightarrow> (int \<Rightarrow> nat) \<Rightarrow> (nat \<Rightarrow> int set) \<Rightarrow> (int \<Rightarrow> nat) \<Rightarrow> bool" where
  "own_frame c own c' own' \<longleftrightarrow> (\<forall>sb. sb \<notin> bf_sizes \<longrightarrow> c' sb = c sb)
     \<and> (\<forall>k. own' k = own k \<or> own k \<in> bf_sizes \<and> own' k \<in> bf_sizes)"

lemma own_live_fresh: "own_ok N c live own \<Longrightarrow> sb \<in> ut_sizes \<Longrightarrow> j \<in> c sb \<Longrightarrow> (sb, j) \<notin> live"
  using own_okD(1) by blast

lemma alloc_bitfield_own:
  assumes core: "ut_core s N c" and own: "own_ok N c live own" and sb: "sb \<in> bf_sizes"
    and some: "c sb \<noteq> {} \<or> c 14 \<noteq> {}"
  shows "\<exists>s' j c' own'. do_ut_alloc_from_bitfield sb s = Some (blk_addr s sb j, s') \<and> ut_rest s' = ut_rest s
    \<and> ut_core s' N c' \<and> own_ok N c' (insert (sb, j) live) own' \<and> (sb, j) \<notin> live \<and> own_frame c own c' own'"
proof (cases "c sb = {}")
  case False
  from alloc_from_bitfield_direct [OF core own sb False] obtain s' j where
    s': "do_ut_alloc_from_bitfield sb s = Some (blk_addr s sb j, s')" "ut_rest s' = ut_rest s" "j \<in> c sb"
      "ut_core s' N (c(sb := c sb - {j}))" by blast
  moreover have "own_frame c own (c(sb := c sb - {j})) own" using sb by (auto simp: own_frame_def)
  ultimately show ?thesis using own_take [OF own _ s'(3)] own_live_fresh [OF own _ s'(3)] sb
    by (intro exI [of _ s'] exI [of _ j] exI [of _ "c(sb := c sb - {j})"] exI [of _ own]) simp
next
  case True
  with some have ne: "c 14 \<noteq> {}" "sb \<noteq> 14" by auto
  from alloc_from_bitfield_fill [OF core own sb ne(2) True ne(1)] obtain s' j k where
    s': "do_ut_alloc_from_bitfield sb s = Some (blk_addr s sb j, s')" "ut_rest s' = ut_rest s"
      "k \<in> c 14" "j \<in> unit_range sb k"
    and core': "ut_core s' N (c(14 := c 14 - {k}, sb := unit_range sb k - {j}))" by blast
  let ?c1 = "c(14 := c 14 - {k}, sb := unit_range sb k)"
  from own_split [OF own_take [OF own _ s'(3)], of k sb] sb ne own_live_fresh [OF own _ s'(3)]
  have own1: "own_ok N ?c1 live (own(k := sb))" using True by (auto simp: fun_upd_twist)
  from own_take [OF own1, of sb j] sb s'(4) ne
  have own2: "own_ok N (c(14 := c 14 - {k}, sb := unit_range sb k - {j})) (insert (sb, j) live) (own(k := sb))"
    by simp
  have "own k = 14" using own_okD(1) [OF own sizes_14, of k] s'(3) by auto
  then have "own_frame c own (c(14 := c 14 - {k}, sb := unit_range sb k - {j})) (own(k := sb))"
    using sb by (auto simp: own_frame_def)
  with s' core' own2 own_live_fresh [OF own1, of sb j] sb show ?thesis by auto
qed

lemma blk_offset:
  assumes "ut_base_ok s N" "0 \<le> j" "j < N * 2 ^ (14 - sb)" "sb \<le> 14"
  shows "uint (drop_bit sb (blk_addr s sb j - pool_base s)) = j"
    and "uint (blk_addr s sb j) = uint (pool_base s) + j * 2 ^ sb"
    and "j * 2 ^ sb < N * 2 ^ 14"
proof -
  have p: "(2::int) ^ 14 = 2 ^ (14 - sb) * 2 ^ sb" using assms(4) by (simp flip: power_add)
  have "j * 2 ^ sb < N * 2 ^ (14 - sb) * 2 ^ sb" using assms(3) by simp
  then show lt: "j * 2 ^ sb < N * 2 ^ 14" unfolding p by (simp add: mult.assoc)
  have j: "0 \<le> j * 2 ^ sb" using assms(2) by simp
  have b: "0 < uint (pool_base s)" "uint (pool_base s) + N * 2 ^ 14 \<le> 2 ^ 32"
    using assms(1) by (simp_all add: ut_base_ok_def)
  then have "j * 2 ^ sb < 2 ^ 32" using lt by linarith
  then have u: "uint (word_of_int (j * 2 ^ sb) :: u32) = j * 2 ^ sb" by (rule uint_of_int_small [OF j])
  have w: "blk_addr s sb j = word_of_int (j * 2 ^ sb) + pool_base s"
    by (simp add: blk_addr_def push_bit_eq_mult)
  have "uint (drop_bit sb (blk_addr s sb j - pool_base s)) = drop_bit sb (j * 2 ^ sb)"
    unfolding w add_diff_cancel_right' unsigned_drop_bit_eq u
    using j \<open>j * 2 ^ sb < 2 ^ 32\<close> by (simp add: take_bit_int_eq_self)
  then show "uint (drop_bit sb (blk_addr s sb j - pool_base s)) = j" by (simp add: drop_bit_eq_div)
  have "uint (blk_addr s sb j) = (j * 2 ^ sb + uint (pool_base s)) mod 2 ^ 32"
    unfolding w by (simp only: uint_word_ariths u) simp
  then show "uint (blk_addr s sb j) = uint (pool_base s) + j * 2 ^ sb" using lt b j by simp
qed

lemma merge_up_own:
  assumes core: "ut_core s N c" and own: "own_ok N c live own" and sb: "sb \<in> bf_sizes"
    and j: "0 \<le> j" "j < N * 2 ^ (14 - sb)"
  shows "\<exists>s' c' own'. bitfield_merge_up sb j s = Some s' \<and> ut_rest s' = ut_rest s
    \<and> ut_core s' N c' \<and> own_ok N c' live own' \<and> own_frame c own c' own'"
proof (cases "sb = 14")
  case True
  then show ?thesis using core own by (auto simp: bitfield_merge_up_def own_frame_def)
next
  case ne: False
  let ?u = "2 ^ (14 - sb) :: int" and ?k = "j div 2 ^ (14 - sb)"
  let ?r = "{?k * ?u..<?k * ?u + ?u}"
  have r: "?r = unit_range sb ?k" by (simp add: unit_range_def)
  have k: "0 \<le> ?k" "?k < N" using j unit_bounds [of ?u j N] by auto
  from core sb obtain p where p: "pool_of sb s = Some p" "bf_wf p" "bf_size p = N * ?u" "c sb = bf_clear p"
    by (rule core_pool)
  have base: "j AND NOT (?u - 1) = ?k * ?u"
    using and_not_mask_int [of j "14 - sb"] by (simp add: mask_eq_exp_minus_1 mult.commute)
  have "i \<in> {0..<bf_size p}" if "i \<in> ?r" for i
    using that k unit_bounds [of ?u i N] unfolding r by (auto simp: unit_range_iff p(3))
  then have sub: "?r \<subseteq> {0..<bf_size p}" by (rule subsetI)
  have n: "int (nat ?u) = ?u" by simp
  have any: "any_used p (?k * ?u) (nat ?u) = Some (\<not> ?r \<subseteq> bf_clear p)"
    using any_used_spec [OF p(2), of "?k * ?u" "nat ?u", unfolded n] sub by blast
  show ?thesis
  proof (cases "?r \<subseteq> bf_clear p")
    case False
    then have "any_used p (?k * ?u) (nat ?u) = Some True" using any by (simp only: not_False_eq_True)
    then have "bitfield_merge_up sb j s = Some s"
      using ne p(1) base by (simp add: bitfield_merge_up_def Let_def)
    then show ?thesis using core own by (auto simp: own_frame_def)
  next
    case True
    then have free: "any_used p (?k * ?u) (nat ?u) = Some False" using any by (simp only: not_True_eq_False)
    from bf_set_range_clear [OF p(2) True] obtain p' where p':
      "for_up 0 ?u (\<lambda>i b. bf_set b (?k * ?u + i)) p = Some p'" "bf_wf p'"
      "bf_clear p' = c sb - unit_range sb ?k" "bf_size p' = N * ?u" using p(3,4) r by auto
    let ?c1 = "c(sb := c sb - unit_range sb ?k)"
    have core1: "ut_core (set_pool sb p' s) N ?c1" using core_set_pool [OF core sb p'(2)] p'(3,4) by simp
    have own1: "own_ok N ?c1 (insert (14, ?k) live) (own(?k := 14))"
      using own_merge [OF own k _ ne] True sb r p(4) by simp
    from core1 obtain q where q: "pool_of 14 (set_pool sb p' s) = Some q" "bf_wf q" "bf_size q = N"
      "?c1 14 = bf_clear q" using core_pool [OF core1, of 14] by auto
    have "?k \<in> {0..<bf_size q} - bf_clear q"
      using own_okD(1) [OF own1 sizes_14, of ?k] k q(3,4) by auto
    from bf_clr_clear [OF q(2) this] obtain q' where q': "bf_clr q ?k = Some q'" "bf_wf q'"
      "bf_clear q' = insert ?k (?c1 14)" "bf_size q' = N" using q(3,4) by auto
    have "ut_core (set_pool 14 q' (set_pool sb p' s)) N (?c1(14 := insert ?k (?c1 14)))"
      using core_set_pool [OF core1 _ q'(2), of 14] q'(3,4) by simp
    moreover have ok: "own ?k = sb" using own_of_range [OF own] True sb p(4) unfolding r by simp
    then have fresh: "(14, ?k) \<notin> live" using own_okD(2) [OF own, of 14 ?k] ne by auto
    then have "own_ok N (?c1(14 := insert ?k (?c1 14))) live (own(?k := 14))"
      using own_give [OF own1, of 14 ?k] by simp
    moreover have "own_frame c own (?c1(14 := insert ?k (?c1 14))) (own(?k := 14))"
      using sb ok by (auto simp: own_frame_def)
    moreover have "bitfield_merge_up sb j s = Some (set_pool 14 q' (set_pool sb p' s))"
      using ne p(1) free base p'(1) q(1) q'(1)
      by (simp add: bitfield_merge_up_def Let_def set_pool_14 drop_bit_eq_div)
    ultimately show ?thesis by auto
  qed
qed

lemma own_frame_trans: "own_frame c o1 c' o2 \<Longrightarrow> own_frame c' o2 c'' o3 \<Longrightarrow> own_frame c o1 c'' o3"
  unfolding own_frame_def by metis

lemma bf_sizes_le: "sb \<in> bf_sizes \<Longrightarrow> sb \<le> 14"
  by (auto simp: bf_sizes_def)

lemma free_bitfield_own:
  assumes core: "ut_core s N c" and own: "own_ok N c live own" and sb: "sb \<in> bf_sizes"
    and base: "ut_base_ok s N" and live: "(sb, j) \<in> live"
  shows "\<exists>s' c' own'. do_ut_free_from_bitfield (blk_addr s sb j) sb s = Some s' \<and> ut_rest s' = ut_rest s
    \<and> ut_core s' N c' \<and> own_ok N c' (live - {(sb, j)}) own' \<and> own_frame c own c' own'"
proof -
  have j: "0 \<le> j" "j < N * 2 ^ (14 - sb)"
    using own_okD(2) [OF own live] unit_bounds [of "2 ^ (14 - sb)" j N] by auto
  from core sb obtain p where p: "pool_of sb s = Some p" "bf_wf p" "bf_size p = N * 2 ^ (14 - sb)"
    "c sb = bf_clear p" by (rule core_pool)
  have "j \<in> {0..<bf_size p} - bf_clear p"
    using j p(3,4) live own_okD(1) [OF own, of sb j] sb by auto
  from bf_clr_clear [OF p(2) this] obtain p' where p': "bf_clr p j = Some p'" "bf_wf p'"
    "bf_clear p' = insert j (c sb)" "bf_size p' = N * 2 ^ (14 - sb)" using p(3,4) by auto
  have core1: "ut_core (set_pool sb p' s) N (c(sb := insert j (c sb)))"
    using core_set_pool [OF core sb p'(2)] p'(3,4) by simp
  from merge_up_own [OF core1 own_give [OF own live] sb j] obtain s' c' own' where
    m: "bitfield_merge_up sb j (set_pool sb p' s) = Some s'" "ut_rest s' = ut_rest s" "ut_core s' N c'"
      "own_ok N c' (live - {(sb, j)}) own'" "own_frame (c(sb := insert j (c sb))) own c' own'" by auto
  have "own_frame c own c' own'"
    using m(5) sb unfolding own_frame_def by auto
  moreover have "do_ut_free_from_bitfield (blk_addr s sb j) sb s = Some s'"
    using p(1) p'(1) m(1) blk_offset(1) [OF base j bf_sizes_le [OF sb]]
    by (simp add: do_ut_free_from_bitfield_def)
  ultimately show ?thesis using m by blast
qed

end
