(* ===== verification/UT_Lists.thy ===== *)
theory UT_Lists
  imports UT_Ownership
begin

text \<open>The doubly linked lists of sub-allocators: searching, attaching and detaching a node.\<close>

subsection \<open>Doubly linked lists in the store\<close>

fun dll :: "(nat \<rightharpoonup> suballocator) \<Rightarrow> sub_ref \<Rightarrow> nat option \<Rightarrow> nat list \<Rightarrow> bool" where
  "dll st r h [] \<longleftrightarrow> h = None"
| "dll st r h (x # xs) \<longleftrightarrow> h = Some x \<and>
     (case st x of None \<Rightarrow> False
      | Some n \<Rightarrow> sub_prev n = Some r \<and> dll st (NextOf x) (sub_next n) xs)"

lemma dll_cons: "dll st r h (x # xs) \<longleftrightarrow>
   h = Some x \<and> (\<exists>n. st x = Some n \<and> sub_prev n = Some r \<and> dll st (NextOf x) (sub_next n) xs)"
  by (auto split: option.splits)

declare dll.simps(2) [simp del]

lemma dll_frame:
  "dll st r h xs \<Longrightarrow>
   (\<And>x. x \<in> set xs \<Longrightarrow> map_option (\<lambda>n. (sub_prev n, sub_next n)) (st' x) =
                        map_option (\<lambda>n. (sub_prev n, sub_next n)) (st x)) \<Longrightarrow> dll st' r h xs"
proof (induction xs arbitrary: r h)
  case (Cons x xs)
  from Cons.prems(1) obtain n where n: "h = Some x" "st x = Some n" "sub_prev n = Some r"
    "dll st (NextOf x) (sub_next n) xs" by (auto simp: dll_cons)
  from Cons.prems(2) [of x] n obtain n' where "st' x = Some n'" "sub_prev n' = Some r" "sub_next n' = sub_next n"
    by (cases "st' x") auto
  with n Cons show ?case by (auto simp: dll_cons)
qed simp

lemma dll_frame_other: "dll st r h xs \<Longrightarrow> p \<notin> set xs \<Longrightarrow> dll (st(p := v)) r h xs"
  by (erule dll_frame) auto

lemma dll_dom: "dll st r h xs \<Longrightarrow> x \<in> set xs \<Longrightarrow> \<exists>n. st x = Some n"
  by (induction xs arbitrary: r h) (auto simp: dll_cons split: option.splits)

lemma find_base_dll:
  "dll st r h xs \<Longrightarrow> \<exists>q. pool_list_find_base st h b = Some q \<and>
     (case q of Some p \<Rightarrow> p \<in> set xs \<and> (\<exists>n. st p = Some n \<and> sub_base n = b)
      | None \<Rightarrow> \<forall>p\<in>set xs. \<forall>n. st p = Some n \<longrightarrow> sub_base n \<noteq> b)"
proof (induction xs arbitrary: r h)
  case Nil
  then show ?case by (simp add: pool_list_find_base.simps)
next
  case (Cons x xs)
  then obtain n where n: "h = Some x" "st x = Some n" "dll st (NextOf x) (sub_next n) xs"
    by (auto simp: dll_cons)
  from Cons.IH [OF n(3)] obtain q where "pool_list_find_base st (sub_next n) b = Some q"
    "case q of Some p \<Rightarrow> p \<in> set xs \<and> (\<exists>n. st p = Some n \<and> sub_base n = b)
      | None \<Rightarrow> \<forall>p\<in>set xs. \<forall>n. st p = Some n \<longrightarrow> sub_base n \<noteq> b" by blast
  with n show ?case by (subst pool_list_find_base.simps) (auto split: option.splits)
qed

lemma find_free_dll:
  "dll st r h xs \<Longrightarrow> \<exists>q. pool_list_find_free st h = Some q \<and>
     (case q of Some p \<Rightarrow> p \<in> set xs \<and> (\<exists>n. st p = Some n \<and> bf_available (sub_bitfield n) \<noteq> 0)
      | None \<Rightarrow> \<forall>p\<in>set xs. \<forall>n. st p = Some n \<longrightarrow> bf_available (sub_bitfield n) = 0)"
proof (induction xs arbitrary: r h)
  case Nil
  then show ?case by (simp add: pool_list_find_free.simps)
next
  case (Cons x xs)
  then obtain n where n: "h = Some x" "st x = Some n" "dll st (NextOf x) (sub_next n) xs"
    by (auto simp: dll_cons)
  from Cons.IH [OF n(3)] obtain q where "pool_list_find_free st (sub_next n) = Some q"
    "case q of Some p \<Rightarrow> p \<in> set xs \<and> (\<exists>n. st p = Some n \<and> bf_available (sub_bitfield n) \<noteq> 0)
      | None \<Rightarrow> \<forall>p\<in>set xs. \<forall>n. st p = Some n \<longrightarrow> bf_available (sub_bitfield n) = 0" by blast
  with n show ?case by (subst pool_list_find_free.simps) (auto split: option.splits)
qed

text \<open>A list that ends in the pointer \<open>h'\<close>, to which the reference \<open>r'\<close> leads.\<close>

fun dseg :: "(nat \<rightharpoonup> suballocator) \<Rightarrow> sub_ref \<Rightarrow> nat option \<Rightarrow> nat list \<Rightarrow> sub_ref \<Rightarrow> nat option \<Rightarrow> bool" where
  "dseg st r h [] r' h' \<longleftrightarrow> r = r' \<and> h = h'"
| "dseg st r h (x # xs) r' h' \<longleftrightarrow> h = Some x \<and>
     (\<exists>n. st x = Some n \<and> sub_prev n = Some r \<and> dseg st (NextOf x) (sub_next n) xs r' h')"

lemma dll_append: "dll st r h (us @ vs) \<longleftrightarrow> (\<exists>r' h'. dseg st r h us r' h' \<and> dll st r' h' vs)"
  by (induction us arbitrary: r h) (auto simp: dll_cons)

lemma dseg_append: "dseg st r h (us @ vs) r2 h2 \<longleftrightarrow> (\<exists>r' h'. dseg st r h us r' h' \<and> dseg st r' h' vs r2 h2)"
  by (induction us arbitrary: r h) auto

lemma dseg_frame:
  "dseg st r h xs r' h' \<Longrightarrow> (\<And>x. x \<in> set xs \<Longrightarrow> st' x = st x) \<Longrightarrow> dseg st' r h xs r' h'"
  by (induction xs arbitrary: r h) auto

definition sub_data :: "ut_state \<Rightarrow> nat \<Rightarrow> (u32 \<times> bitfield) option" where
  "sub_data s p = map_option (\<lambda>n. (sub_base n, sub_bitfield n)) (sub_store s p)"

definition list_refs :: "sub_ref set" where
  "list_refs = {Pool9, Pool4}"

text \<open>What the list operations on the list of \<open>r\<close> leave unchanged.\<close>

definition list_frame :: "sub_ref \<Rightarrow> ut_state \<Rightarrow> ut_state \<Rightarrow> bool" where
  "list_frame r s s' \<longleftrightarrow> (\<forall>sb. pool_of sb s' = pool_of sb s) \<and> pool_base s' = pool_base s
     \<and> initialised s' = initialised s \<and> (\<forall>r'\<in>list_refs. r' \<noteq> r \<longrightarrow> get_ref r' s' = get_ref r' s)
     \<and> (\<forall>q. sub_data s' q = sub_data s q)"

lemma attach_dll:
  assumes d: "dll (sub_store s) r h xs" and r: "r \<in> list_refs" "get_ref r s = Some h"
    and p: "sub_store s p = Some n" "sub_next n = None" "sub_prev n = None" "p \<notin> set xs" and dist: "distinct xs"
  shows "\<exists>s'. pool_list_attach r p s = Some s' \<and> get_ref r s' = Some (Some p)
    \<and> dll (sub_store s') r (Some p) (p # xs) \<and> list_frame r s s'
    \<and> (\<forall>q. q \<notin> set (p # xs) \<longrightarrow> sub_store s' q = sub_store s q)"
proof (cases xs)
  case Nil
  then have "h = None" using d by simp
  then show ?thesis using r p Nil
    by (auto simp: pool_list_attach_def upd_node_def set_ref_def get_ref_def list_refs_def list_frame_def
          pool_of_def sub_data_def dll_cons)
next
  case (Cons x xs')
  with d obtain nx where nx: "h = Some x" "sub_store s x = Some nx" "sub_prev nx = Some r"
    "dll (sub_store s) (NextOf x) (sub_next nx) xs'" by (auto simp: dll_cons)
  let ?np = "n\<lparr>sub_next := Some x, sub_prev := Some r\<rparr>" and ?nx = "nx\<lparr>sub_prev := Some (NextOf p)\<rparr>"
  let ?st = "(sub_store s)(p \<mapsto> ?np, x \<mapsto> ?nx)"
  have ne: "p \<noteq> x" "x \<notin> set xs'" "p \<notin> set xs'" using Cons p(4) dist by auto
  obtain s' where s': "pool_list_attach r p s = Some s'" "sub_store s' = ?st" "get_ref r s' = Some (Some p)"
    "\<And>sb. pool_of sb s' = pool_of sb s" "pool_base s' = pool_base s" "initialised s' = initialised s"
    "\<And>r'. r' \<in> list_refs \<Longrightarrow> r' \<noteq> r \<Longrightarrow> get_ref r' s' = get_ref r' s"
    using r p nx ne
    by (auto simp: pool_list_attach_def upd_node_def set_ref_def get_ref_def list_refs_def pool_of_def fun_upd_twist)
  have "dll ?st (NextOf x) (sub_next nx) xs'" using nx(4) ne by (intro dll_frame_other) auto
  then have "dll ?st r (Some p) (p # xs)" using ne Cons by (simp add: dll_cons)
  moreover have "list_frame r s s'" using s' p nx ne by (auto simp: list_frame_def sub_data_def)
  ultimately show ?thesis using s' Cons by auto
qed

text \<open>The store after a node \<open>p\<close> with successor \<open>nx\<close> and back reference \<open>pv\<close> is unlinked.\<close>

definition relink :: "sub_ref \<Rightarrow> nat option \<Rightarrow> (nat \<rightharpoonup> suballocator) \<Rightarrow> (nat \<rightharpoonup> suballocator)" where
  "relink pv nx st =
     (let st1 = (case nx of None \<Rightarrow> st | Some q \<Rightarrow> st(q := map_option (sub_prev_update (\<lambda>_. Some pv)) (st q))) in
      case pv of NextOf q \<Rightarrow> st1(q := map_option (sub_next_update (\<lambda>_. nx)) (st1 q)) | _ \<Rightarrow> st1)"

lemma detach_step:
  assumes p: "sub_store s p = Some n" "sub_prev n = Some pv" "get_ref pv s = Some (Some p)"
    and nx: "\<And>q. sub_next n = Some q \<Longrightarrow> sub_store s q \<noteq> None \<and> q \<noteq> p \<and> pv \<noteq> NextOf q" and pv: "pv \<noteq> NextOf p"
  shows "\<exists>s'. pool_list_detach p s = Some s'
    \<and> sub_store s' = (relink pv (sub_next n) (sub_store s))(p \<mapsto> n\<lparr>sub_prev := None, sub_next := None\<rparr>)
    \<and> (pv \<in> list_refs \<longrightarrow> get_ref pv s' = Some (sub_next n))
    \<and> (\<forall>sb. pool_of sb s' = pool_of sb s) \<and> pool_base s' = pool_base s \<and> initialised s' = initialised s
    \<and> (\<forall>r'\<in>list_refs. r' \<noteq> pv \<longrightarrow> get_ref r' s' = get_ref r' s)"
proof (cases "sub_next n")
  case None
  then show ?thesis using p pv
    by (cases pv) (auto simp: pool_list_detach_def relink_def set_ref_def upd_node_def get_ref_def list_refs_def pool_of_def)
next
  case (Some q)
  with nx obtain nq where "sub_store s q = Some nq" "q \<noteq> p" "pv \<noteq> NextOf q" by blast
  then show ?thesis using p Some pv
    by (cases pv) (auto simp: pool_list_detach_def relink_def set_ref_def upd_node_def get_ref_def list_refs_def pool_of_def)
qed

lemma relink_tail:
  assumes "dll st (NextOf p) nx vs" "distinct vs" and pv: "\<And>q. pv = NextOf q \<Longrightarrow> q \<notin> set vs"
  shows "dll (relink pv nx st) pv nx vs"
proof (cases vs)
  case (Cons v vs')
  with assms obtain n where n: "nx = Some v" "st v = Some n" "dll st (NextOf v) (sub_next n) vs'"
    by (auto simp: dll_cons)
  have "dll (relink pv nx st) (NextOf v) (sub_next n) vs'"
    using n(3) by (rule dll_frame) (use n assms Cons in \<open>auto simp: relink_def Let_def split: sub_ref.splits\<close>)
  then show ?thesis using n assms Cons by (auto simp: dll_cons relink_def Let_def split: sub_ref.splits)
qed (use assms in \<open>simp\<close>)

lemma relink_data: "map_option (\<lambda>n. (sub_base n, sub_bitfield n)) (relink pv nx st q) =
   map_option (\<lambda>n. (sub_base n, sub_bitfield n)) (st q)"
  by (auto simp: relink_def option.map_comp comp_def split: sub_ref.splits option.splits)

lemma detach_dll:
  assumes d: "dll (sub_store s) r h xs" and r: "r \<in> list_refs" "get_ref r s = Some h"
    and p: "p \<in> set xs" and dist: "distinct xs"
  shows "\<exists>s' h'. pool_list_detach p s = Some s' \<and> get_ref r s' = Some h'
    \<and> dll (sub_store s') r h' (remove1 p xs) \<and> list_frame r s s'
    \<and> (\<forall>q. q \<notin> set xs \<longrightarrow> sub_store s' q = sub_store s q)"
proof -
  from p obtain us vs where xs: "xs = us @ p # vs" by (meson split_list)
  from d obtain pv where seg: "dseg (sub_store s) r h us pv (Some p)" and dp: "dll (sub_store s) pv (Some p) (p # vs)"
    unfolding xs dll_append dll_cons by auto
  then obtain n where n: "sub_store s p = Some n" "sub_prev n = Some pv" "dll (sub_store s) (NextOf p) (sub_next n) vs"
    by (auto simp: dll_cons)
  have nxt: "sub_store s q \<noteq> None \<and> q \<in> set vs" if "sub_next n = Some q" for q
    using n(3) that by (cases vs) (auto simp: dll_cons)
  have notp: "p \<notin> set us" "p \<notin> set vs" "distinct us" "distinct vs" "set us \<inter> set vs = {}"
    using dist xs by auto
  show ?thesis
  proof (cases us rule: rev_cases)
    case Nil
    then have pv: "pv = r" "h = Some p" using seg by auto
    from detach_step [of s p n pv] n r nxt notp pv obtain s' where s': "pool_list_detach p s = Some s'"
      "sub_store s' = (relink pv (sub_next n) (sub_store s))(p \<mapsto> n\<lparr>sub_prev := None, sub_next := None\<rparr>)"
      "get_ref pv s' = Some (sub_next n)" "\<forall>sb. pool_of sb s' = pool_of sb s" "pool_base s' = pool_base s"
      "initialised s' = initialised s" "\<forall>r'\<in>list_refs. r' \<noteq> pv \<longrightarrow> get_ref r' s' = get_ref r' s"
      by (auto simp: list_refs_def)
    have "dll (sub_store s') r (sub_next n) vs"
      unfolding s'(2) using relink_tail [OF n(3), of pv] pv r(1) notp
      by (intro dll_frame_other) (auto simp: list_refs_def)
    moreover have "list_frame r s s'" using s' pv n by (auto simp: list_frame_def sub_data_def relink_data)
    moreover have "\<forall>q. q \<notin> set xs \<longrightarrow> sub_store s' q = sub_store s q"
      using s'(2) pv r(1) nxt xs by (auto simp: relink_def Let_def list_refs_def split: option.splits)
    ultimately show ?thesis using s' pv xs Nil by auto
  next
    case (snoc us' q0)
    with seg obtain r1 n0 where seg': "dseg (sub_store s) r h us' r1 (Some q0)" and
      n0: "sub_store s q0 = Some n0" "sub_prev n0 = Some r1" "pv = NextOf q0" "sub_next n0 = Some p"
      by (auto simp: dseg_append)
    have q0: "q0 \<noteq> p" "q0 \<notin> set vs" "q0 \<notin> set us'" using notp snoc by auto
    from detach_step [of s p n pv] n r nxt notp n0 q0 obtain s' where s': "pool_list_detach p s = Some s'"
      "sub_store s' = (relink pv (sub_next n) (sub_store s))(p \<mapsto> n\<lparr>sub_prev := None, sub_next := None\<rparr>)"
      "\<forall>sb. pool_of sb s' = pool_of sb s" "pool_base s' = pool_base s"
      "initialised s' = initialised s" "\<forall>r'\<in>list_refs. r' \<noteq> pv \<longrightarrow> get_ref r' s' = get_ref r' s"
      by (auto simp: list_refs_def get_ref_def)
    have tail: "dll (sub_store s') (NextOf q0) (sub_next n) vs"
      unfolding s'(2) using relink_tail [OF n(3), of pv] n0 q0 notp
      by (intro dll_frame_other) auto
    have "dseg (sub_store s') r h us' r1 (Some q0)"
      by (rule dseg_frame [OF seg'])
         (use s'(2) n0 q0 notp snoc nxt in \<open>auto simp: relink_def Let_def split: option.splits\<close>)
    moreover have "sub_store s' q0 = Some (n0\<lparr>sub_next := sub_next n\<rparr>)"
      using s'(2) n0 q0 nxt by (auto simp: relink_def Let_def split: option.splits)
    ultimately have "dll (sub_store s') r h (us @ vs)"
      using tail n0(2) snoc by (auto simp: dll_append dll_cons)
    moreover have "list_frame r s s'" using s' n n0 r by (auto simp: list_frame_def sub_data_def relink_data list_refs_def)
    moreover have "\<forall>q. q \<notin> set xs \<longrightarrow> sub_store s' q = sub_store s q"
      using s'(2) n0 nxt xs snoc by (auto simp: relink_def Let_def split: option.splits)
    moreover have "get_ref r s' = Some h" using s'(6) r n0 by (auto simp: list_refs_def)
    ultimately show ?thesis using s' xs notp by (auto simp: remove1_append)
  qed
qed

end
