(* ===== verification/UT_Correct.thy ===== *)
theory UT_Correct
  imports UT_Lists
begin

text \<open>
  The invariant of the untyped allocator and its preservation by the operations on the bitfields
  and on the lists of sub-allocators.
\<close>

subsection \<open>The allocator invariant\<close>

definition list_sizes :: "nat set" where
  "list_sizes = {9, 4}"

definition the_ref :: "nat \<Rightarrow> sub_ref" where
  "the_ref sb = (if sb = 9 then Pool9 else Pool4)"

definition node_ok :: "ut_state \<Rightarrow> (nat \<Rightarrow> int set) \<Rightarrow> nat \<Rightarrow> nat \<Rightarrow> int \<Rightarrow> bool" where
  "node_ok s c sb p k \<longleftrightarrow> (\<exists>bf. sub_data s p = Some (blk_addr s 14 k, bf) \<and> bf_wf bf
     \<and> bf_size bf = 2 ^ (14 - sb)
     \<and> bf_clear bf = {i. 0 \<le> i \<and> i < 2 ^ (14 - sb) \<and> k * 2 ^ (14 - sb) + i \<in> c sb})"

definition ut_list :: "ut_state \<Rightarrow> int \<Rightarrow> (nat \<Rightarrow> int set) \<Rightarrow> (int \<Rightarrow> nat) \<Rightarrow> nat \<Rightarrow> (nat \<times> int) list \<Rightarrow> bool" where
  "ut_list s N c own sb ps \<longleftrightarrow>
     (\<exists>h. get_ref (the_ref sb) s = Some h \<and> dll (sub_store s) (the_ref sb) h (map fst ps))
   \<and> distinct (map fst ps) \<and> distinct (map snd ps)
   \<and> (\<forall>(p, k)\<in>set ps. node_ok s c sb p k)
   \<and> (\<forall>k. k \<in> snd ` set ps \<longleftrightarrow> 0 \<le> k \<and> k < N \<and> own k = sb)"

definition ut_inv_at :: "ut_state \<Rightarrow> (nat \<times> int) set \<Rightarrow> int \<Rightarrow> (nat \<Rightarrow> int set) \<Rightarrow> (int \<Rightarrow> nat)
    \<Rightarrow> (nat \<Rightarrow> (nat \<times> int) list) \<Rightarrow> bool" where
  "ut_inv_at s live N c own ps \<longleftrightarrow> initialised s \<and> ut_core s N c \<and> ut_base_ok s N \<and> own_ok N c live own
     \<and> (\<forall>sb\<in>list_sizes. ut_list s N c own sb (ps sb))
     \<and> (\<forall>sb\<in>list_sizes. \<forall>sb'\<in>list_sizes. sb \<noteq> sb' \<longrightarrow> fst ` set (ps sb) \<inter> fst ` set (ps sb') = {})"

definition ut_inv :: "ut_state \<Rightarrow> (nat \<times> int) set \<Rightarrow> bool" where
  "ut_inv s live \<longleftrightarrow> (\<exists>N c own ps. ut_inv_at s live N c own ps)"

lemma list_sizes_simps [simp]:
  "9 \<in> list_sizes" "4 \<in> list_sizes" "sb \<in> list_sizes \<Longrightarrow> sb \<in> ut_sizes" "sb \<in> list_sizes \<Longrightarrow> sb \<notin> bf_sizes"
  "sb \<in> list_sizes \<Longrightarrow> sb \<noteq> 14" "sb \<in> list_sizes \<Longrightarrow> sb \<le> 14" "the_ref sb \<in> list_refs"
  "sb \<in> list_sizes \<Longrightarrow> list_pool sb = Some (the_ref sb)"
  by (auto simp: list_sizes_def ut_sizes_def bf_sizes_def the_ref_def list_refs_def list_pool_def)

lemma the_ref_inj: "sb \<in> list_sizes \<Longrightarrow> sb' \<in> list_sizes \<Longrightarrow> the_ref sb = the_ref sb' \<longleftrightarrow> sb = sb'"
  by (auto simp: list_sizes_def the_ref_def)

lemma rest_eqs:
  assumes "ut_rest s' = ut_rest s"
  shows "sub_store s' = sub_store s" "pool_base s' = pool_base s" "initialised s' = initialised s"
    "r \<in> list_refs \<Longrightarrow> get_ref r s' = get_ref r s" "sub_data s' = sub_data s" "blk_addr s' = blk_addr s"
    "ut_base_ok s' = ut_base_ok s"
  using assms by (auto simp: ut_rest_def get_ref_def list_refs_def sub_data_def blk_addr_def ut_base_ok_def fun_eq_iff)

lemma ut_list_rest:
  assumes "ut_list s N c own sb ps" "ut_rest s' = ut_rest s" "own_frame c own c' own'" "sb \<in> list_sizes"
  shows "ut_list s' N c' own' sb ps"
proof -
  have "c' sb = c sb" "\<And>k. own' k = sb \<longleftrightarrow> own k = sb"
    using assms(3) list_sizes_simps(4) [OF assms(4)] unfolding own_frame_def by metis+
  then show ?thesis using assms(1,4) rest_eqs [OF assms(2)]
    by (simp add: ut_list_def node_ok_def)
qed

lemma ut_inv_at_bitfield:
  assumes "ut_inv_at s live N c own ps" "ut_rest s' = ut_rest s" "ut_core s' N c'" "own_ok N c' live' own'"
    "own_frame c own c' own'"
  shows "ut_inv_at s' live' N c' own' ps"
  using assms(1,3,4) ut_list_rest [OF _ assms(2,5)] rest_eqs [OF assms(2)]
  by (simp add: ut_inv_at_def)

lemma ut_alloc_bitfield_inv:
  assumes inv: "ut_inv_at s live N c own ps" and sb: "sb \<in> bf_sizes" and some: "c sb \<noteq> {} \<or> c 14 \<noteq> {}"
  shows "\<exists>s' j c' own'. do_ut_alloc_from_bitfield sb s = Some (blk_addr s sb j, s') \<and> ut_rest s' = ut_rest s
    \<and> (sb, j) \<notin> live \<and> ut_inv_at s' (insert (sb, j) live) N c' own' ps"
proof -
  from inv have "ut_core s N c" "own_ok N c live own" by (simp_all add: ut_inv_at_def)
  from alloc_bitfield_own [OF this sb some] obtain s' j c' own' where
    r: "do_ut_alloc_from_bitfield sb s = Some (blk_addr s sb j, s')" "ut_rest s' = ut_rest s"
       "ut_core s' N c'" "own_ok N c' (insert (sb, j) live) own'" "(sb, j) \<notin> live" "own_frame c own c' own'"
    by blast
  then show ?thesis using ut_inv_at_bitfield [OF inv r(2,3,4,6)] by blast
qed

lemma ut_free_bitfield_inv:
  assumes inv: "ut_inv_at s live N c own ps" and sb: "sb \<in> bf_sizes" and live: "(sb, j) \<in> live"
  shows "\<exists>s' c' own'. do_ut_free_from_bitfield (blk_addr s sb j) sb s = Some s' \<and> ut_rest s' = ut_rest s
    \<and> ut_inv_at s' (live - {(sb, j)}) N c' own' ps"
proof -
  from inv have "ut_core s N c" "own_ok N c live own" "ut_base_ok s N" by (simp_all add: ut_inv_at_def)
  from free_bitfield_own [OF this(1,2) sb this(3) live] obtain s' c' own' where
    r: "do_ut_free_from_bitfield (blk_addr s sb j) sb s = Some s'" "ut_rest s' = ut_rest s" "ut_core s' N c'"
       "own_ok N c' (live - {(sb, j)}) own'" "own_frame c own c' own'" by blast
  then show ?thesis using ut_inv_at_bitfield [OF inv r(2,3,4,5)] by blast
qed

subsection \<open>Changes to one list\<close>

lemma ut_list_other:
  assumes "ut_list s N c own sb ps" "list_frame (the_ref sb') s s'" "sb \<in> list_sizes" "sb' \<in> list_sizes" "sb \<noteq> sb'"
    and "\<And>p. p \<in> fst ` set ps \<Longrightarrow> sub_store s' p = sub_store s p"
    and "c' sb = c sb" "\<And>k. own' k = sb \<longleftrightarrow> own k = sb"
  shows "ut_list s' N c' own' sb ps"
proof -
  have ref: "get_ref (the_ref sb) s' = get_ref (the_ref sb) s" and base: "pool_base s' = pool_base s"
    and data: "sub_data s' = sub_data s"
    using assms(2-5) the_ref_inj by (auto simp: list_frame_def)
  from assms(1) obtain h where "get_ref (the_ref sb) s = Some h" "dll (sub_store s) (the_ref sb) h (map fst ps)"
    by (auto simp: ut_list_def)
  moreover from this(2) have "dll (sub_store s') (the_ref sb) h (map fst ps)"
    by (rule dll_frame) (use assms(6) in auto)
  moreover have "blk_addr s' = blk_addr s" using base by (simp add: blk_addr_def fun_eq_iff)
  ultimately show ?thesis using assms(1,7,8) ref data by (simp add: ut_list_def node_ok_def)
qed

lemma frame_core:
  "list_frame r s s' \<Longrightarrow> ut_core s' N c = ut_core s N c" "list_frame r s s' \<Longrightarrow> ut_base_ok s' = ut_base_ok s"
  "list_frame r s s' \<Longrightarrow> blk_addr s' = blk_addr s" "list_frame r s s' \<Longrightarrow> initialised s' = initialised s"
  "list_frame r s s' \<Longrightarrow> sub_data s' = sub_data s"
  by (auto simp: list_frame_def ut_core_def ut_base_ok_def blk_addr_def fun_eq_iff)

abbreviation set_node_bf :: "nat \<Rightarrow> suballocator \<Rightarrow> bitfield \<Rightarrow> ut_state \<Rightarrow> ut_state" where
  "set_node_bf p n bf s \<equiv> s\<lparr>sub_store := (sub_store s)(p \<mapsto> n\<lparr>sub_bitfield := bf\<rparr>)\<rparr>"

lemma unit_range_shift: "k * 2 ^ (14 - sb) + i \<in> unit_range sb k' \<longleftrightarrow> k' = k"
  if "0 \<le> i" "i < 2 ^ (14 - sb)"
  using that by (auto simp: unit_range_iff)

lemma node_update_other:
  assumes "node_ok s c sb q k" "q \<noteq> p" "\<And>i. 0 \<le> i \<Longrightarrow> i < 2 ^ (14 - sb) \<Longrightarrow>
     k * 2 ^ (14 - sb) + i \<in> c' sb \<longleftrightarrow> k * 2 ^ (14 - sb) + i \<in> c sb"
  shows "node_ok (set_node_bf p n bf s) c' sb q k"
proof -
  have "{i. 0 \<le> i \<and> i < 2 ^ (14 - sb) \<and> k * 2 ^ (14 - sb) + i \<in> c' sb} =
        {i. 0 \<le> i \<and> i < 2 ^ (14 - sb) \<and> k * 2 ^ (14 - sb) + i \<in> c sb}" using assms(3) by blast
  moreover have "sub_data (set_node_bf p n bf s) q = sub_data s q" using assms(2) by (simp add: sub_data_def)
  ultimately show ?thesis using assms(1) by (simp add: node_ok_def blk_addr_def)
qed

lemma inv_node_update:
  assumes inv: "ut_inv_at s live N c own ps" and sb: "sb \<in> list_sizes" and p: "(p, k) \<in> set (ps sb)"
    and n: "sub_store s p = Some n" and bf: "bf_wf bf" "bf_size bf = 2 ^ (14 - sb)"
      "bf_clear bf = {i. 0 \<le> i \<and> i < 2 ^ (14 - sb) \<and> k * 2 ^ (14 - sb) + i \<in> X}"
    and X: "\<And>j. j \<notin> unit_range sb k \<Longrightarrow> j \<in> X \<longleftrightarrow> j \<in> c sb"
    and own: "own_ok N (c(sb := X)) live' own"
  shows "ut_inv_at (set_node_bf p n bf s) live' N (c(sb := X)) own ps"
proof -
  let ?s = "set_node_bf p n bf s"
  have L: "ut_list s N c own sb' (ps sb')" if "sb' \<in> list_sizes" for sb' using inv that by (simp add: ut_inv_at_def)
  have "ut_list ?s N (c(sb := X)) own sb' (ps sb')" if sb': "sb' \<in> list_sizes" for sb'
  proof -
    from L [OF sb'] obtain h where h: "get_ref (the_ref sb') s = Some h"
      "dll (sub_store s) (the_ref sb') h (map fst (ps sb'))" by (auto simp: ut_list_def)
    have "dll (sub_store ?s) (the_ref sb') h (map fst (ps sb'))" using h(2) by (rule dll_frame) (simp add: n)
    moreover have "get_ref (the_ref sb') ?s = Some h" using h(1) by (simp add: get_ref_def the_ref_def split: if_splits)
    moreover have "node_ok ?s (c(sb := X)) sb' q l" if q: "(q, l) \<in> set (ps sb')" for q l
    proof (cases "sb' = sb \<and> q = p")
      case True
      with q p L [OF sb] have "l = k" by (auto simp: ut_list_def dest: eq_key_imp_eq_value)
      moreover have "sub_base n = blk_addr s 14 k"
        using L [OF sb] p n by (auto simp: ut_list_def node_ok_def sub_data_def)
      ultimately show ?thesis using True bf by (simp add: node_ok_def sub_data_def blk_addr_def)
    next
      case False
      have ok: "node_ok s c sb' q l" using L [OF sb'] q by (auto simp: ut_list_def)
      have "q \<noteq> p"
        using False inv sb sb' q p unfolding ut_inv_at_def by (cases "sb' = sb") (force+)
      moreover have "l \<noteq> k" if "sb' = sb"
        using that L [OF sb] p q \<open>q \<noteq> p\<close> unfolding ut_list_def
        by (metis distinct_map inj_onD prod.inject snd_conv)
      ultimately show ?thesis using X unit_range_shift [of _ sb l k]
        by (intro node_update_other [OF ok]) auto
    qed
    ultimately show ?thesis using L [OF sb'] by (auto simp: ut_list_def)
  qed
  moreover have "ut_core ?s N (c(sb := X))"
    using inv sb by (auto simp: ut_inv_at_def ut_core_def pool_of_def bf_sizes_def list_sizes_def)
  ultimately show ?thesis using inv own by (simp add: ut_inv_at_def ut_base_ok_def)
qed

lemma blk_addr_split:
  "word_of_int (push_bit sb i) + blk_addr s 14 k = blk_addr s sb (k * 2 ^ (14 - sb) + i)" if "sb \<le> 14"
proof -
  have "(2::int) ^ (14 - sb) * 2 ^ sb = 2 ^ 14" using that by (simp flip: power_add)
  then have "(k * 2 ^ (14 - sb) + i) * 2 ^ sb = i * 2 ^ sb + k * 2 ^ 14" by (simp add: algebra_simps)
  then show ?thesis unfolding blk_addr_def push_bit_eq_mult by (simp only: of_int_add add.assoc)
qed

lemma take_from_node:
  assumes inv: "ut_inv_at s live N c own ps" and sb: "sb \<in> list_sizes" and p: "(p, k) \<in> set (ps sb)"
    and n: "sub_store s p = Some n" and av: "bf_available (sub_bitfield n) \<noteq> 0"
  shows "\<exists>i bf' c'. bf_set_next_free (sub_bitfield n) = Some (i, bf') \<and> i \<noteq> - 1
    \<and> word_of_int (push_bit sb i) + sub_base n = blk_addr s sb (k * 2 ^ (14 - sb) + i)
    \<and> (sb, k * 2 ^ (14 - sb) + i) \<notin> live
    \<and> ut_inv_at (set_node_bf p n bf' s) (insert (sb, k * 2 ^ (14 - sb) + i) live) N c' own ps"
proof -
  let ?u = "2 ^ (14 - sb) :: int"
  from inv sb p have ok: "node_ok s c sb p k" and own: "own_ok N c live own"
    by (auto simp: ut_inv_at_def ut_list_def)
  then have bf: "bf_wf (sub_bitfield n)" "bf_size (sub_bitfield n) = ?u" "sub_base n = blk_addr s 14 k"
    "bf_clear (sub_bitfield n) = {i. 0 \<le> i \<and> i < ?u \<and> k * ?u + i \<in> c sb}"
    using n by (auto simp: node_ok_def sub_data_def)
  have "bf_clear (sub_bitfield n) \<noteq> {}" using av bf(1) by (auto simp: bf_wf_def)
  from bf_set_next_free_some [OF bf(1) this] obtain i bf' where i: "bf_set_next_free (sub_bitfield n) = Some (i, bf')"
    "i \<in> bf_clear (sub_bitfield n)" "bf_wf bf'" "bf_used bf' = insert i (bf_used (sub_bitfield n))"
    "bf_size bf' = ?u" using bf(2) by auto
  let ?j = "k * ?u + i"
  have ij: "0 \<le> i" "i < ?u" "?j \<in> c sb" using i(2) bf(4) by auto
  have "bf_clear bf' = bf_clear (sub_bitfield n) - {i}" using bf_clear_of_used i(4,5) bf(2) by simp
  then have cl: "bf_clear bf' = {l. 0 \<le> l \<and> l < ?u \<and> k * ?u + l \<in> c sb - {?j}}" using bf(4) by auto
  have "ut_inv_at (set_node_bf p n bf' s) (insert (sb, ?j) live) N (c(sb := c sb - {?j})) own ps"
  proof (rule inv_node_update [OF inv sb p n i(3,5) cl])
    show "j \<in> c sb - {?j} \<longleftrightarrow> j \<in> c sb" if "j \<notin> unit_range sb k" for j
      using that ij by (auto simp: unit_range_shift)
    show "own_ok N (c(sb := c sb - {?j})) (insert (sb, ?j) live) own" using own_take [OF own _ ij(3)] sb by simp
  qed
  moreover have "(sb, ?j) \<notin> live" using own_live_fresh [OF own _ ij(3)] sb by simp
  ultimately show ?thesis using i(1) ij bf(3) blk_addr_split [of sb i s k] sb
    by (intro exI [of _ i] exI [of _ bf'] exI [of _ "c(sb := c sb - {?j})"]) auto
qed

lemma new_bitfield_aligned:
  assumes "0 \<le> sz" "sz mod 8 = 0"
  shows "new_bitfield ok sz BITFIELD_INIT_EMPTY = Some None \<or>
    (\<exists>bf. new_bitfield ok sz BITFIELD_INIT_EMPTY = Some (Some bf) \<and> bf_wf bf \<and> bf_size bf = sz \<and> bf_clear bf = {0..<sz})"
proof (cases "ok 0 \<and> ok 1")
  case True
  with new_bitfield_empty [of sz ok] assms(1) obtain bf where
    bf: "new_bitfield ok sz BITFIELD_INIT_EMPTY = Some (Some bf)" "bf_size bf = sz" "bf_used bf = {}"
      "bf_available bf = sz - (CEILING8 sz - sz)" "bf_wf (bf\<lparr>bf_available := sz\<rparr>)" by blast
  have "CEILING8 sz = sz" using assms(2) unfolding CEILING8_eq by presburger
  then have "bf\<lparr>bf_available := sz\<rparr> = bf" using bf(4) by simp
  then show ?thesis using bf by (auto simp: bf_clear_used)
next
  case False
  then show ?thesis by (auto simp: new_bitfield_def)
qed

lemma list_units: "sb \<in> list_sizes \<Longrightarrow> (2 ^ (14 - sb) :: int) mod 8 = 0"
  by (auto simp: list_sizes_def)

lemma unlisted:
  assumes "ut_inv_at s live N c own ps" "sub_store s p = None" "sb \<in> list_sizes"
  shows "p \<notin> fst ` set (ps sb)"
proof
  assume p: "p \<in> fst ` set (ps sb)"
  from assms(1,3) obtain h where "dll (sub_store s) (the_ref sb) h (map fst (ps sb))"
    by (auto simp: ut_inv_at_def ut_list_def)
  from dll_dom [OF this, of p] p assms(2) show False by auto
qed

lemma new_node_list:
  assumes L: "ut_list s N c own sb ps" and sb: "sb \<in> list_sizes" and p: "p \<notin> fst ` set ps" "sub_data s' p = Some (blk_addr s 14 k, bf)"
    and bf: "bf_wf bf" "bf_size bf = 2 ^ (14 - sb)" "bf_clear bf = {0..<2 ^ (14 - sb)}"
    and k: "0 \<le> k" "k < N" "own k \<noteq> sb"
    and s': "get_ref (the_ref sb) s' = Some (Some p)" "dll (sub_store s') (the_ref sb) (Some p) (p # map fst ps)"
      "\<And>q. q \<noteq> p \<Longrightarrow> sub_data s' q = sub_data s q" "blk_addr s' = blk_addr s"
  shows "ut_list s' N (c(sb := c sb \<union> unit_range sb k)) (own(k := sb)) sb ((p, k) # ps)"
proof -
  have units: "\<And>l. l \<in> snd ` set ps \<longleftrightarrow> 0 \<le> l \<and> l < N \<and> own l = sb" using L by (simp add: ut_list_def)
  then have nk: "k \<notin> snd ` set ps" using k by blast
  have new: "node_ok s' (c(sb := c sb \<union> unit_range sb k)) sb p k"
  proof -
    have "0 \<le> i \<and> i < 2 ^ (14 - sb) \<longleftrightarrow> 0 \<le> i \<and> i < 2 ^ (14 - sb) \<and>
        k * 2 ^ (14 - sb) + i \<in> c sb \<union> unit_range sb k" for i
      using unit_range_shift [of i sb k k] by blast
    then have "bf_clear bf = {i. 0 \<le> i \<and> i < 2 ^ (14 - sb) \<and> k * 2 ^ (14 - sb) + i \<in> c sb \<union> unit_range sb k}"
      unfolding bf(3) atLeastLessThan_def by blast
    then show ?thesis using p(2) bf(1,2) s'(4) by (simp add: node_ok_def)
  qed
  have old: "node_ok s' (c(sb := c sb \<union> unit_range sb k)) sb q l" if q: "(q, l) \<in> set ps" for q l
  proof -
    have "l \<noteq> k" "q \<noteq> p" using nk p(1) q by force+
    moreover have "node_ok s c sb q l" using L q by (auto simp: ut_list_def)
    moreover from \<open>l \<noteq> k\<close> have "{i. 0 \<le> i \<and> i < 2 ^ (14 - sb) \<and> l * 2 ^ (14 - sb) + i \<in> c sb \<union> unit_range sb k} =
      {i. 0 \<le> i \<and> i < 2 ^ (14 - sb) \<and> l * 2 ^ (14 - sb) + i \<in> c sb}"
      using unit_range_shift [of _ sb l k] by blast
    ultimately show ?thesis using s'(3,4) by (simp add: node_ok_def)
  qed
  have "distinct (map fst ((p, k) # ps))" "distinct (map snd ((p, k) # ps))"
    using L p(1) nk by (auto simp: ut_list_def)
  moreover have "l \<in> snd ` set ((p, k) # ps) \<longleftrightarrow> 0 \<le> l \<and> l < N \<and> (own(k := sb)) l = sb" for l
    using units [of l] k by auto
  ultimately show ?thesis using new old s'(1,2) unfolding ut_list_def by auto
qed

lemma ut_list_store:
  assumes L: "ut_list s N c own sb ps" and p: "p \<notin> fst ` set ps"
  shows "ut_list (s\<lparr>sub_store := (sub_store s)(p := v)\<rparr>) N c own sb ps" (is "ut_list ?s _ _ _ _ _")
proof -
  from L obtain h where h: "get_ref (the_ref sb) s = Some h" "dll (sub_store s) (the_ref sb) h (map fst ps)"
    by (auto simp: ut_list_def)
  have "get_ref (the_ref sb) ?s = Some h" using h(1) by (simp add: get_ref_def the_ref_def split: if_splits)
  moreover have "dll (sub_store ?s) (the_ref sb) h (map fst ps)" using dll_frame_other [OF h(2)] p by simp
  moreover have "node_ok ?s c sb q l" if q: "(q, l) \<in> set ps" for q l
  proof -
    have "q \<noteq> p" using p q by force
    moreover have "node_ok s c sb q l" using L q by (auto simp: ut_list_def)
    ultimately show ?thesis by (simp add: node_ok_def sub_data_def blk_addr_def)
  qed
  ultimately show ?thesis using L unfolding ut_list_def by blast
qed

lemma new_node_inv:
  assumes inv: "ut_inv_at s (insert (14, k) live) N c own ps" and fresh: "(14, k) \<notin> live" and sb: "sb \<in> list_sizes"
    and p: "sub_store s p = None"
    and bf: "bf_wf bf" "bf_size bf = 2 ^ (14 - sb)" "bf_clear bf = {0..<2 ^ (14 - sb)}"
  defines "n \<equiv> \<lparr>sub_prev = None, sub_next = None, sub_base = blk_addr s 14 k, sub_bitfield = bf\<rparr>"
  shows "\<exists>s' c' own' n'. pool_list_attach (the_ref sb) p (s\<lparr>sub_store := (sub_store s)(p \<mapsto> n)\<rparr>) = Some s'
    \<and> ut_inv_at s' live N c' own' (ps(sb := (p, k) # ps sb))
    \<and> sub_store s' p = Some n' \<and> sub_bitfield n' = bf \<and> pool_base s' = pool_base s"
proof -
  let ?s1 = "s\<lparr>sub_store := (sub_store s)(p \<mapsto> n)\<rparr>" and ?c = "c(sb := c sb \<union> unit_range sb k)"
  have L: "\<And>sb'. sb' \<in> list_sizes \<Longrightarrow> ut_list s N c own sb' (ps sb')" and own: "own_ok N c (insert (14, k) live) own"
    using inv by (simp_all add: ut_inv_at_def)
  have nl: "p \<notin> fst ` set (ps sb')" if "sb' \<in> list_sizes" for sb' using unlisted [OF inv p that] .
  have k: "0 \<le> k" "k < N" "own k = 14" using own_okD(2) [OF own, of 14 k] by auto
  have own': "own_ok N ?c live (own(k := sb))" using own_split [OF own, of k sb] sb fresh by simp
  from L [OF sb] obtain h where h: "get_ref (the_ref sb) s = Some h" "dll (sub_store s) (the_ref sb) h (map fst (ps sb))"
    "distinct (map fst (ps sb))" by (auto simp: ut_list_def)
  have h1: "dll (sub_store ?s1) (the_ref sb) h (map fst (ps sb))" "get_ref (the_ref sb) ?s1 = Some h"
    using dll_frame_other [OF h(2)] nl [OF sb] h(1) by (auto simp: get_ref_def the_ref_def split: if_splits)
  from attach_dll [OF h1(1) _ h1(2), of p n] nl [OF sb] h(3) obtain s' where
    s': "pool_list_attach (the_ref sb) p ?s1 = Some s'" "get_ref (the_ref sb) s' = Some (Some p)"
      "dll (sub_store s') (the_ref sb) (Some p) (p # map fst (ps sb))" and fr: "list_frame (the_ref sb) ?s1 s'"
    and same: "\<And>q. q \<notin> set (p # map fst (ps sb)) \<Longrightarrow> sub_store s' q = sub_store ?s1 q"
    by (auto simp: n_def)
  have ba: "blk_addr s' = blk_addr s" using frame_core(3) [OF fr] by (simp add: blk_addr_def fun_eq_iff)
  have data: "sub_data s' p = Some (blk_addr s 14 k, bf)" "\<And>q. q \<noteq> p \<Longrightarrow> sub_data s' q = sub_data s q"
    using frame_core(5) [OF fr] by (simp_all add: sub_data_def n_def)
  have new: "ut_list s' N ?c (own(k := sb)) sb ((p, k) # ps sb)"
    using new_node_list [OF L [OF sb] sb nl [OF sb] data(1) bf k(1,2) _ s'(2,3) data(2) ba] k(3) sb by auto
  have other: "ut_list s' N ?c (own(k := sb)) sb' (ps sb')" if sb': "sb' \<in> list_sizes" "sb' \<noteq> sb" for sb'
  proof (rule ut_list_other [OF _ fr])
    show "ut_list ?s1 N c own sb' (ps sb')" using ut_list_store [OF L nl] sb'(1) by simp
    show "sub_store s' q = sub_store ?s1 q" if "q \<in> fst ` set (ps sb')" for q
    proof -
      have "fst ` set (ps sb') \<inter> fst ` set (ps sb) = {}" using inv sb sb' by (simp add: ut_inv_at_def)
      then show ?thesis using that same [of q] nl [OF sb'(1)] by auto
    qed
    show "(own(k := sb)) l = sb' \<longleftrightarrow> own l = sb'" for l using sb' k(3) by auto
  qed (use sb sb' in auto)
  have "ut_core ?s1 N ?c"
    using inv sb by (auto simp: ut_inv_at_def ut_core_def pool_of_def bf_sizes_def list_sizes_def)
  moreover have "ut_base_ok s' N" using inv frame_core(2) [OF fr] by (simp add: ut_inv_at_def ut_base_ok_def)
  moreover have "initialised s'" using inv frame_core(4) [OF fr] by (simp add: ut_inv_at_def)
  ultimately have "ut_inv_at s' live N ?c (own(k := sb)) (ps(sb := (p, k) # ps sb))"
    using own' new other nl inv frame_core(1) [OF fr] sb by (auto simp: ut_inv_at_def)
  moreover obtain n' where "sub_store s' p = Some n'" "sub_bitfield n' = bf" using data(1) by (auto simp: sub_data_def)
  moreover have "pool_base s' = pool_base s" using fr by (simp add: list_frame_def)
  ultimately show ?thesis using s'(1) by blast
qed

lemma blk_addr_nonzero:
  assumes "ut_inv_at s live N c own ps" "(sb, j) \<in> live"
  shows "blk_addr s sb j \<noteq> 0" and "0 \<le> j" and "j < N * 2 ^ (14 - sb)" and "sb \<le> 14"
    and "uint (blk_addr s sb j) = uint (pool_base s) + j * 2 ^ sb"
proof -
  have own: "own_ok N c live own" and base: "ut_base_ok s N" using assms(1) by (simp_all add: ut_inv_at_def)
  show j: "0 \<le> j" "j < N * 2 ^ (14 - sb)"
    using own_okD(2) [OF own assms(2)] unit_bounds [of "2 ^ (14 - sb)" j N] by auto
  show sb: "sb \<le> 14" using own_okD(2) [OF own assms(2)] by (auto simp: ut_sizes_def)
  show a: "uint (blk_addr s sb j) = uint (pool_base s) + j * 2 ^ sb" by (rule blk_offset(2) [OF base j sb])
  have "0 < uint (pool_base s)" using base by (simp add: ut_base_ok_def)
  moreover have "0 \<le> j * 2 ^ sb" using j(1) by simp
  ultimately have "uint (blk_addr s sb j) \<noteq> 0" using a by linarith
  then show "blk_addr s sb j \<noteq> 0" by auto
qed

lemma new_suballocator_inv:
  assumes inv: "ut_inv_at s live N c own ps" and sb: "sb \<in> list_sizes"
    and m: "\<And>p. malloc 0 = Some p \<Longrightarrow> sub_store s p = None"
  shows "(\<exists>s'. new_suballocator malloc sb s = Some (None, s') \<and> ut_inv s' live \<and> pool_base s' = pool_base s) \<or>
    (\<exists>p s1 s' c' own' k n'. new_suballocator malloc sb s = Some (Some p, s1) \<and> pool_list_attach (the_ref sb) p s1 = Some s'
      \<and> ut_inv_at s' live N c' own' (ps(sb := (p, k) # ps sb)) \<and> sub_store s' p = Some n'
      \<and> bf_available (sub_bitfield n') \<noteq> 0 \<and> pool_base s' = pool_base s)"
proof (cases "c 14 = {}")
  case True
  from inv have "ut_core s N c" by (simp add: ut_inv_at_def)
  from alloc_from_bitfield_none [OF this bf_sizes_simps(1) True True]
  have "new_suballocator malloc sb s = Some (None, s)" by (auto simp: new_suballocator_def)
  then show ?thesis using inv by (auto simp: ut_inv_def)
next
  case False
  from ut_alloc_bitfield_inv [OF inv bf_sizes_simps(1)] False obtain s1 k c1 own1 where
    s1: "do_ut_alloc_from_bitfield 14 s = Some (blk_addr s 14 k, s1)" "ut_rest s1 = ut_rest s" "(14, k) \<notin> live"
      and inv1: "ut_inv_at s1 (insert (14, k) live) N c1 own1 ps" by blast
  note eqs = rest_eqs [OF s1(2)]
  have nz: "blk_addr s 14 k \<noteq> 0" using blk_addr_nonzero(1) [OF inv1, of 14 k] eqs(6) by simp
  have "insert (14, k) live - {(14, k)} = live" using s1(3) by simp
  with ut_free_bitfield_inv [OF inv1 bf_sizes_simps(1), of k] obtain s2 c2 own2 where
    f: "do_ut_free_from_bitfield (blk_addr s1 14 k) 14 s1 = Some s2" "ut_rest s2 = ut_rest s1"
       "ut_inv_at s2 live N c2 own2 ps" by auto
  have s2: "do_ut_free_from_bitfield (blk_addr s 14 k) 14 s1 = Some s2" "ut_inv s2 live" "pool_base s2 = pool_base s"
    using f(1) eqs(2,6) rest_eqs(2) [OF f(2)] f(3) unfolding ut_inv_def by (simp, blast, simp)
  let ?nb = "new_bitfield (\<lambda>k. malloc (Suc k) \<noteq> None) (2 ^ (14 - sb)) BITFIELD_INIT_EMPTY"
  show ?thesis
  proof (cases "malloc 0")
    case None
    then have "new_suballocator malloc sb s = Some (None, s2)" using s1 s2 nz by (simp add: new_suballocator_def)
    then show ?thesis using s2 by blast
  next
    case (Some p)
    from new_bitfield_aligned [OF _ list_units [OF sb], of "\<lambda>k. malloc (Suc k) \<noteq> None"]
    consider "?nb = Some None" | bf where "?nb = Some (Some bf)" "bf_wf bf" "bf_size bf = 2 ^ (14 - sb)"
      "bf_clear bf = {0..<2 ^ (14 - sb)}" by auto
    then show ?thesis
    proof cases
      case 1
      then have "new_suballocator malloc sb s = Some (None, s2)" using Some s1 s2 nz by (simp add: new_suballocator_def)
      then show ?thesis using s2 by blast
    next
      case 2
      let ?n = "\<lparr>sub_prev = None, sub_next = None, sub_base = blk_addr s1 14 k, sub_bitfield = bf\<rparr>"
      have "sub_store s1 p = None" using m [OF Some] eqs(1) by simp
      from new_node_inv [OF inv1 s1(3) sb this 2(2-4)] obtain s' c' own' n' where
        s': "pool_list_attach (the_ref sb) p (s1\<lparr>sub_store := (sub_store s1)(p \<mapsto> ?n)\<rparr>) = Some s'"
          "ut_inv_at s' live N c' own' (ps(sb := (p, k) # ps sb))" "sub_store s' p = Some n'" "sub_bitfield n' = bf"
          "pool_base s' = pool_base s1" by blast
      have "new_suballocator malloc sb s = Some (Some p, s1\<lparr>sub_store := (sub_store s1)(p \<mapsto> ?n)\<rparr>)"
        using Some 2(1) s1 nz eqs(6) by (simp add: new_suballocator_def)
      moreover have "bf_available bf \<noteq> 0" using 2(2,4) by (simp add: bf_wf_def)
      ultimately show ?thesis using s' eqs(2) by auto
    qed
  qed
qed

lemma alloc_from_list_inv:
  assumes inv: "ut_inv_at s live N c own ps" and sb: "sb \<in> list_sizes"
    and m: "\<And>p. malloc 0 = Some p \<Longrightarrow> sub_store s p = None"
  shows "\<exists>a s'. do_ut_alloc_from_list malloc sb s = Some (a, s') \<and> pool_base s' = pool_base s \<and>
    (a = 0 \<and> ut_inv s' live \<or> (\<exists>j. a = blk_addr s sb j \<and> (sb, j) \<notin> live \<and> ut_inv s' (insert (sb, j) live)))"
proof -
  have take: "\<exists>a s'. do { n \<leftarrow> sub_store s1 p; (offset, bf') \<leftarrow> bf_set_next_free (sub_bitfield n);
         c_assert (offset \<noteq> - 1); s2 \<leftarrow> upd_node p (\<lambda>n. n\<lparr>sub_bitfield := bf'\<rparr>) s1;
         Some (word_of_int (push_bit sb offset) + sub_base n, s2) } = Some (a, s') \<and> pool_base s' = pool_base s
       \<and> (\<exists>j. a = blk_addr s sb j \<and> (sb, j) \<notin> live \<and> ut_inv s' (insert (sb, j) live))"
    if i1: "ut_inv_at s1 live N c1 own1 ps1" "(p, k) \<in> set (ps1 sb)" "sub_store s1 p = Some n"
      "bf_available (sub_bitfield n) \<noteq> 0" "pool_base s1 = pool_base s" for s1 c1 own1 ps1 p k n
  proof -
    from take_from_node [OF i1(1) sb i1(2-4)] obtain i bf' c' where
      t: "bf_set_next_free (sub_bitfield n) = Some (i, bf')" "i \<noteq> - 1"
      "word_of_int (push_bit sb i) + sub_base n = blk_addr s1 sb (k * 2 ^ (14 - sb) + i)"
      "(sb, k * 2 ^ (14 - sb) + i) \<notin> live"
      "ut_inv_at (set_node_bf p n bf' s1) (insert (sb, k * 2 ^ (14 - sb) + i) live) N c' own1 ps1" by blast
    have "ut_inv (set_node_bf p n bf' s1) (insert (sb, k * 2 ^ (14 - sb) + i) live)"
      using t(5) unfolding ut_inv_def by blast
    moreover have "blk_addr s1 = blk_addr s" using i1(5) by (simp add: blk_addr_def fun_eq_iff)
    ultimately show ?thesis using i1(3,5) t(1-4)
      by (intro exI [of _ "blk_addr s sb (k * 2 ^ (14 - sb) + i)"] exI [of _ "set_node_bf p n bf' s1"] conjI
            exI [of _ "k * 2 ^ (14 - sb) + i"]) (simp_all add: upd_node_def)
  qed
  from inv sb have L: "ut_list s N c own sb (ps sb)" by (simp add: ut_inv_at_def)
  then obtain h where h: "get_ref (the_ref sb) s = Some h" "dll (sub_store s) (the_ref sb) h (map fst (ps sb))"
    by (auto simp: ut_list_def)
  from find_free_dll [OF h(2)] obtain q where q: "pool_list_find_free (sub_store s) h = Some q"
    "case q of Some p \<Rightarrow> p \<in> set (map fst (ps sb)) \<and> (\<exists>n. sub_store s p = Some n \<and> bf_available (sub_bitfield n) \<noteq> 0)
     | None \<Rightarrow> \<forall>p\<in>set (map fst (ps sb)). \<forall>n. sub_store s p = Some n \<longrightarrow> bf_available (sub_bitfield n) = 0" by blast
  show ?thesis
  proof (cases q)
    case (Some p)
    with q(2) obtain k n where "(p, k) \<in> set (ps sb)" "sub_store s p = Some n" "bf_available (sub_bitfield n) \<noteq> 0"
      by auto
    from take [OF inv this refl] show ?thesis
      using sb h(1) q(1) Some by (fastforce simp: do_ut_alloc_from_list_def)
  next
    case None
    from new_suballocator_inv [OF inv sb m] consider s' where "new_suballocator malloc sb s = Some (None, s')"
        "ut_inv s' live" "pool_base s' = pool_base s"
      | p s1 s' c' own' k n' where "new_suballocator malloc sb s = Some (Some p, s1)"
        "pool_list_attach (the_ref sb) p s1 = Some s'" "ut_inv_at s' live N c' own' (ps(sb := (p, k) # ps sb))"
        "sub_store s' p = Some n'" "bf_available (sub_bitfield n') \<noteq> 0" "pool_base s' = pool_base s" by blast
    then show ?thesis
    proof cases
      case 1
      then show ?thesis using sb h(1) q(1) None by (simp add: do_ut_alloc_from_list_def)
    next
      case 2
      from take [OF 2(3) _ 2(4,5,6), of k] show ?thesis
        using sb h(1) q(1) None 2(1,2) by (fastforce simp: do_ut_alloc_from_list_def)
    qed
  qed
qed

lemma blk_base_offset:
  assumes inv: "ut_inv_at s live N c own ps" and live: "(sb, j) \<in> live"
  defines "k \<equiv> j div 2 ^ (14 - sb)" and "i \<equiv> j mod 2 ^ (14 - sb)"
  shows "blk_addr s sb j AND NOT (push_bit 14 1 - 1) = blk_addr s 14 k"
    and "uint (drop_bit sb (blk_addr s sb j - blk_addr s 14 k)) = i"
proof -
  let ?u = "2 ^ (14 - sb) :: int"
  note b = blk_addr_nonzero(2-5) [OF inv live]
  have base: "ut_base_ok s N" using inv by (simp add: ut_inv_at_def)
  have ji: "j = k * ?u + i" unfolding k_def i_def by (rule div_mult_mod_eq [symmetric])
  have i: "0 \<le> i" "i < ?u" by (simp_all add: i_def)
  have pw: "?u * 2 ^ sb = (2::int) ^ 14" using b(3) by (simp flip: power_add)
  have "i * 2 ^ sb < ?u * 2 ^ sb" using i(2) by simp
  then have i14: "0 \<le> i * 2 ^ sb" "i * 2 ^ sb < 2 ^ 14" using i(1) pw by simp_all
  have kN: "0 \<le> k" "k < N * 2 ^ (14 - 14)" using unit_bounds [of ?u j N] b(1,2) by (auto simp: k_def)
  have a14: "uint (blk_addr s 14 k) = uint (pool_base s) + k * 2 ^ 14" by (rule blk_offset(2) [OF base kN]) simp
  have "j * 2 ^ sb = k * 2 ^ 14 + i * 2 ^ sb" unfolding ji distrib_right mult.assoc pw ..
  then have a: "uint (blk_addr s sb j) = uint (pool_base s) + k * 2 ^ 14 + i * 2 ^ sb" using b(4) by simp
  have "uint (pool_base s) mod 2 ^ 14 = 0" using base by (simp add: ut_base_ok_def)
  then have "2 ^ 14 * ((uint (pool_base s) + k * 2 ^ 14 + i * 2 ^ sb) div 2 ^ 14) = uint (pool_base s) + k * 2 ^ 14"
    using i14 by (intro align14)
  then show "blk_addr s sb j AND NOT (push_bit 14 1 - 1) = blk_addr s 14 k"
    by (intro word_uint_eqI) (simp only: uint_and_not_mask a a14)
  have u: "uint (word_of_int (i * 2 ^ sb) :: u32) = i * 2 ^ sb" by (rule uint_of_int_small) (use i14 in auto)
  have "blk_addr s sb j - blk_addr s 14 k = word_of_int (i * 2 ^ sb)"
    using blk_addr_split [OF b(3), of i s k] unfolding diff_eq_eq by (simp only: push_bit_eq_mult flip: ji)
  then have "uint (drop_bit sb (blk_addr s sb j - blk_addr s 14 k)) = drop_bit sb (i * 2 ^ sb)"
    unfolding unsigned_drop_bit_eq u using i14 u by (simp add: take_bit_int_eq_self)
  then show "uint (drop_bit sb (blk_addr s sb j - blk_addr s 14 k)) = i" by (simp add: drop_bit_eq_div)
qed

lemma drop_node_list:
  assumes L: "ut_list s N c own sb ps" and p: "(p, k) \<in> set ps" and fr: "list_frame (the_ref sb) s s'"
    and sb: "sb \<in> list_sizes"
    and d: "get_ref (the_ref sb) s' = Some h" "dll (sub_store s') (the_ref sb) h (remove1 p (map fst ps))"
  shows "ut_list s' N (c(sb := c sb - unit_range sb k)) (own(k := 14)) sb (remove1 (p, k) ps)"
proof -
  have dist: "distinct (map fst ps)" "distinct (map snd ps)" "distinct ps" using L by (auto simp: ut_list_def distinct_map)
  have set: "set (remove1 (p, k) ps) = set ps - {(p, k)}" using dist by simp
  have snd: "snd ` set (remove1 (p, k) ps) = snd ` set ps - {k}"
  proof -
    have "inj_on snd (set ps)" using dist(2) by (simp add: distinct_map)
    then have "snd ` (set ps - {(p, k)}) = snd ` set ps - snd ` {(p, k)}"
      using p by (intro inj_on_image_set_diff) auto
    then show ?thesis unfolding set by simp
  qed
  have "node_ok s' (c(sb := c sb - unit_range sb k)) sb q l" if q: "(q, l) \<in> set (remove1 (p, k) ps)" for q l
  proof -
    have "l \<noteq> k" using q snd by force
    then have "{i. 0 \<le> i \<and> i < 2 ^ (14 - sb) \<and> l * 2 ^ (14 - sb) + i \<in> c sb - unit_range sb k} =
      {i. 0 \<le> i \<and> i < 2 ^ (14 - sb) \<and> l * 2 ^ (14 - sb) + i \<in> c sb}"
      using unit_range_shift [of _ sb l k] by blast
    moreover have "node_ok s c sb q l" using L q set by (auto simp: ut_list_def)
    ultimately show ?thesis using frame_core(3,5) [OF fr] by (simp add: node_ok_def)
  qed
  moreover have "map fst (remove1 (p, k) ps) = remove1 p (map fst ps)" using remove1_fst [OF dist(1) p] .
  moreover have "distinct (map snd (remove1 (p, k) ps))"
    using dist(2) by (simp add: distinct_map inj_on_def set)
  moreover have "l \<in> snd ` set (remove1 (p, k) ps) \<longleftrightarrow> 0 \<le> l \<and> l < N \<and> (own(k := 14)) l = sb" for l
    using L sb unfolding snd ut_list_def by auto
  ultimately show ?thesis using d dist(1) unfolding ut_list_def by auto
qed

lemma detach_inv:
  assumes inv: "ut_inv_at s live N c own ps" and sb: "sb \<in> list_sizes" and p: "(p, k) \<in> set (ps sb)"
    and free: "unit_range sb k \<subseteq> c sb"
  shows "\<exists>s' c' own' ps'. pool_list_detach p s = Some s' \<and> pool_base s' = pool_base s
    \<and> ut_inv_at s' (insert (14, k) live) N c' own' ps' \<and> (\<forall>sb\<in>list_sizes. p \<notin> fst ` set (ps' sb))"
proof -
  let ?c = "c(sb := c sb - unit_range sb k)" and ?own = "own(k := 14)" and ?ps = "ps(sb := remove1 (p, k) (ps sb))"
  have L: "\<And>sb'. sb' \<in> list_sizes \<Longrightarrow> ut_list s N c own sb' (ps sb')" and own: "own_ok N c live own"
    and disj: "\<And>sb'. sb' \<in> list_sizes \<Longrightarrow> sb' \<noteq> sb \<Longrightarrow> fst ` set (ps sb') \<inter> fst ` set (ps sb) = {}"
    using inv sb by (simp_all add: ut_inv_at_def)
  have "k \<in> snd ` set (ps sb)" using p by force
  then have k: "0 \<le> k" "k < N" "own k = sb" using L [OF sb] by (auto simp: ut_list_def)
  have own': "own_ok N ?c (insert (14, k) live) ?own" using own_merge [OF own k(1,2) _ _ free] sb by simp
  from L [OF sb] obtain h where h: "get_ref (the_ref sb) s = Some h" "dll (sub_store s) (the_ref sb) h (map fst (ps sb))"
    "distinct (map fst (ps sb))" by (auto simp: ut_list_def)
  have "p \<in> set (map fst (ps sb))" using p by force
  from detach_dll [OF h(2) _ h(1) this h(3)] obtain s' h' where
    s': "pool_list_detach p s = Some s'" "get_ref (the_ref sb) s' = Some h'"
      "dll (sub_store s') (the_ref sb) h' (remove1 p (map fst (ps sb)))" and fr: "list_frame (the_ref sb) s s'"
    and same: "\<And>q. q \<notin> set (map fst (ps sb)) \<Longrightarrow> sub_store s' q = sub_store s q" by auto
  have mine: "ut_list s' N ?c ?own sb (remove1 (p, k) (ps sb))"
    by (rule drop_node_list [OF L [OF sb] p fr sb s'(2,3)])
  have other: "ut_list s' N ?c ?own sb' (ps sb')" if sb': "sb' \<in> list_sizes" "sb' \<noteq> sb" for sb'
  proof (rule ut_list_other [OF L [OF sb'(1)] fr sb'(1) sb sb'(2)])
    show "sub_store s' q = sub_store s q" if "q \<in> fst ` set (ps sb')" for q
      using that same [of q] disj [OF sb'] by auto
    show "(?own l = sb') = (own l = sb')" for l using sb' k(3) by auto
  qed (use sb' in auto)
  have sub: "fst ` set (remove1 (p, k) (ps sb)) \<subseteq> fst ` set (ps sb)" using set_remove1_subset by fast
  have "ut_core s' N ?c" using inv frame_core(1) [OF fr] sb
    by (auto simp: ut_inv_at_def ut_core_def bf_sizes_def list_sizes_def)
  moreover have "ut_list s' N ?c ?own x (?ps x)" if "x \<in> list_sizes" for x
    using mine other that by (cases "x = sb") auto
  moreover have "fst ` set (?ps x) \<inter> fst ` set (?ps y) = {}" if "x \<in> list_sizes" "y \<in> list_sizes" "x \<noteq> y" for x y
  proof -
    have "fst ` set (?ps z) \<subseteq> fst ` set (ps z)" for z using sub by (cases "z = sb") simp_all
    moreover have "fst ` set (ps x) \<inter> fst ` set (ps y) = {}" using inv that by (simp add: ut_inv_at_def)
    ultimately show ?thesis by blast
  qed
  ultimately have "ut_inv_at s' (insert (14, k) live) N ?c ?own ?ps"
    using inv own' frame_core(2,4) [OF fr] unfolding ut_inv_at_def by simp
  moreover have "p \<notin> fst ` set (?ps sb')" if "sb' \<in> list_sizes" for sb'
  proof (cases "sb' = sb")
    case True
    have "p \<notin> set (remove1 p (map fst (ps sb)))" using h(3) by simp
    then have "p \<notin> set (map fst (remove1 (p, k) (ps sb)))" unfolding remove1_fst [OF h(3) p] .
    then show ?thesis using True by simp
  next
    case False
    then show ?thesis using disj [OF that False] p by force
  qed
  moreover have "pool_base s' = pool_base s" using fr by (simp add: list_frame_def)
  ultimately show ?thesis using s'(1) by blast
qed

lemma inv_at_store_drop:
  assumes "ut_inv_at s live N c own ps" "\<And>sb. sb \<in> list_sizes \<Longrightarrow> p \<notin> fst ` set (ps sb)"
  shows "ut_inv_at (s\<lparr>sub_store := (sub_store s)(p := None)\<rparr>) live N c own ps"
proof -
  have "ut_core (s\<lparr>sub_store := (sub_store s)(p := None)\<rparr>) N c"
  proof -
    have "pool_of sb (s\<lparr>sub_store := (sub_store s)(p := None)\<rparr>) = pool_of sb s" for sb
      by (simp add: pool_of_def)
    then show ?thesis using assms(1) by (simp add: ut_inv_at_def ut_core_def)
  qed
  moreover have "ut_list (s\<lparr>sub_store := (sub_store s)(p := None)\<rparr>) N c own sb (ps sb)" if "sb \<in> list_sizes" for sb
    by (rule ut_list_store) (use assms that in \<open>simp_all add: ut_inv_at_def\<close>)
  moreover have "ut_base_ok (s\<lparr>sub_store := (sub_store s)(p := None)\<rparr>) N"
    using assms(1) by (simp add: ut_inv_at_def ut_base_ok_def)
  ultimately show ?thesis using assms(1) by (simp add: ut_inv_at_def)
qed

lemma blk_addr_14_inj:
  assumes "ut_base_ok s N" "0 \<le> k" "k < N" "0 \<le> l" "l < N" "blk_addr s 14 k = blk_addr s 14 l"
  shows "k = l"
proof -
  have "uint (blk_addr s 14 k) = uint (pool_base s) + k * 2 ^ 14"
    by (rule blk_offset(2) [OF assms(1)]) (use assms(2,3) in simp_all)
  moreover have "uint (blk_addr s 14 l) = uint (pool_base s) + l * 2 ^ 14"
    by (rule blk_offset(2) [OF assms(1)]) (use assms(4,5) in simp_all)
  ultimately have "uint (pool_base s) + k * 2 ^ 14 = uint (pool_base s) + l * 2 ^ 14"
    unfolding assms(6) by (rule subst)
  then show ?thesis by simp
qed

lemma node_of_live:
  assumes inv: "ut_inv_at s live N c own ps" and sb: "sb \<in> list_sizes" and live: "(sb, j) \<in> live"
  defines "k \<equiv> j div 2 ^ (14 - sb)"
  obtains h p n where "get_ref (the_ref sb) s = Some h" "(p, k) \<in> set (ps sb)" "sub_store s p = Some n"
    "sub_base n = blk_addr s 14 k" "pool_list_find_base (sub_store s) h (blk_addr s 14 k) = Some (Some p)"
    "node_ok s c sb p k" "0 \<le> k" "k < N"
proof -
  from inv sb have L: "ut_list s N c own sb (ps sb)" and own: "own_ok N c live own" and base: "ut_base_ok s N"
    by (simp_all add: ut_inv_at_def)
  have k: "0 \<le> k" "k < N" "own k = sb" using own_okD(2) [OF own live] by (simp_all add: k_def)
  with L have "k \<in> snd ` set (ps sb)" unfolding ut_list_def by blast
  then obtain p where p: "(p, k) \<in> set (ps sb)" by force
  from L obtain h where h: "get_ref (the_ref sb) s = Some h" "dll (sub_store s) (the_ref sb) h (map fst (ps sb))"
    by (auto simp: ut_list_def)
  have ok: "node_ok s c sb q l" "0 \<le> l" "l < N" if "(q, l) \<in> set (ps sb)" for q l
  proof -
    have "l \<in> snd ` set (ps sb)" using that by force
    then show "0 \<le> l" "l < N" using L by (auto simp: ut_list_def)
    show "node_ok s c sb q l" using L that by (auto simp: ut_list_def)
  qed
  from ok(1) [OF p] obtain n where n: "sub_store s p = Some n" "sub_base n = blk_addr s 14 k"
    by (auto simp: node_ok_def sub_data_def)
  from find_base_dll [OF h(2), of "blk_addr s 14 k"] obtain q where
    q: "pool_list_find_base (sub_store s) h (blk_addr s 14 k) = Some q"
      "case q of Some p \<Rightarrow> p \<in> set (map fst (ps sb)) \<and> (\<exists>n. sub_store s p = Some n \<and> sub_base n = blk_addr s 14 k)
       | None \<Rightarrow> \<forall>p\<in>set (map fst (ps sb)). \<forall>n. sub_store s p = Some n \<longrightarrow> sub_base n \<noteq> blk_addr s 14 k" by blast
  have "p \<in> set (map fst (ps sb))" using p by force
  with q(2) n obtain p' where p': "q = Some p'" "p' \<in> set (map fst (ps sb))"
    "\<exists>n. sub_store s p' = Some n \<and> sub_base n = blk_addr s 14 k" by (auto split: option.splits)
  then obtain l where l: "(p', l) \<in> set (ps sb)" by auto
  from p'(3) obtain n' where n': "sub_store s p' = Some n'" "sub_base n' = blk_addr s 14 k" by blast
  from ok(1) [OF l] obtain bf where "sub_data s p' = Some (blk_addr s 14 l, bf)" unfolding node_ok_def by blast
  then have "blk_addr s 14 l = sub_base n'" using n'(1) by (simp add: sub_data_def)
  then have "blk_addr s 14 l = blk_addr s 14 k" unfolding n'(2) .
  from blk_addr_14_inj [OF base ok(2,3) [OF l] k(1,2) this] have "l = k" .
  have "inj_on snd (set (ps sb))" using L by (simp add: ut_list_def distinct_map)
  from inj_onD [OF this _ l p] \<open>l = k\<close> have "p' = p" by simp
  then show ?thesis using that [OF h(1) p n(1,2)] q(1) p'(1) ok(1) [OF p] k(1,2) by simp
qed

lemma free_from_list_inv:
  assumes inv: "ut_inv_at s live N c own ps" and sb: "sb \<in> list_sizes" and live: "(sb, j) \<in> live"
  shows "\<exists>s'. do_ut_free_from_list (blk_addr s sb j) sb s = Some s' \<and> ut_inv s' (live - {(sb, j)})
    \<and> pool_base s' = pool_base s"
proof -
  define u where "u = (2 ^ (14 - sb) :: int)"
  define k where "k = j div u"
  define i where "i = j mod u"
  let ?c = "c(sb := insert j (c sb))" and ?live = "live - {(sb, j)}"
  have own: "own_ok N c live own" using inv by (simp add: ut_inv_at_def)
  from node_of_live [OF inv sb live] obtain h p n where h: "get_ref (the_ref sb) s = Some h"
    "(p, k) \<in> set (ps sb)" "sub_store s p = Some n" "sub_base n = blk_addr s 14 k"
    "pool_list_find_base (sub_store s) h (blk_addr s 14 k) = Some (Some p)" "node_ok s c sb p k" "0 \<le> k" "k < N"
    unfolding k_def u_def by blast
  have bf: "bf_wf (sub_bitfield n)" "bf_size (sub_bitfield n) = u"
    "bf_clear (sub_bitfield n) = {i. 0 \<le> i \<and> i < u \<and> k * u + i \<in> c sb}"
    using h(3,6) by (auto simp: node_ok_def sub_data_def u_def)
  have "j = k * u + i" unfolding k_def i_def by (rule div_mult_mod_eq [symmetric])
  then have i: "0 \<le> i" "i < u" "j = k * u + i" by (simp_all add: i_def u_def)
  have "j \<notin> c sb" using own_okD(1) [OF own, of sb j] live sb by simp
  then have "i \<in> {0..<bf_size (sub_bitfield n)} - bf_clear (sub_bitfield n)" using i bf(2,3) by auto
  from bf_clr_clear [OF bf(1) this] obtain bf' where bf': "bf_clr (sub_bitfield n) i = Some bf'" "bf_wf bf'"
    "bf_clear bf' = insert i (bf_clear (sub_bitfield n))" "bf_size bf' = u" using bf(2) by auto
  let ?s1 = "set_node_bf p n bf' s"
  have cl: "bf_clear bf' = {l. 0 \<le> l \<and> l < u \<and> k * u + l \<in> insert j (c sb)}"
    using bf'(3) bf(3) i by auto
  have inv1: "ut_inv_at ?s1 ?live N ?c own ps"
  proof (rule inv_node_update [OF inv sb h(2,3) bf'(2)])
    show "bf_size bf' = 2 ^ (14 - sb)" using bf'(4) by (simp add: u_def)
    show "bf_clear bf' = {l. 0 \<le> l \<and> l < 2 ^ (14 - sb) \<and> k * 2 ^ (14 - sb) + l \<in> insert j (c sb)}"
      using cl by (simp add: u_def)
    show "l \<in> insert j (c sb) \<longleftrightarrow> l \<in> c sb" if "l \<notin> unit_range sb k" for l
      using that unit_range_shift [of i sb k k] i by (auto simp: u_def)
    show "own_ok N ?c ?live own" by (rule own_give [OF own live])
  qed
  note addr = blk_base_offset [OF inv live, folded u_def, folded k_def i_def]
  have step: "do_ut_free_from_list (blk_addr s sb j) sb s =
    (if bf_available bf' = u then do { s2 \<leftarrow> pool_list_detach p ?s1;
       s3 \<leftarrow> do_ut_free_from_bitfield (blk_addr s 14 k) 14 s2;
       Some (s3\<lparr>sub_store := (sub_store s3)(p := None)\<rparr>) } else Some ?s1)"
    using sb h(1,3,4,5) bf'(1) addr by (simp add: do_ut_free_from_list_def upd_node_def u_def)
  show ?thesis
  proof (cases "bf_available bf' = u")
    case False
    then show ?thesis using step inv1 by (auto simp: ut_inv_def)
  next
    case True
    have "bf_clear bf' \<subseteq> {0..<u}" unfolding cl by (rule subsetI) simp
    moreover have "card (bf_clear bf') = card {0..<u}" using True bf'(2) by (simp add: bf_wf_def)
    ultimately have "bf_clear bf' = {0..<u}" by (intro card_subset_eq) auto
    then have all: "k * u + l \<in> ?c sb" if "0 \<le> l" "l < u" for l
    proof -
      have "l \<in> bf_clear bf'" using \<open>bf_clear bf' = {0..<u}\<close> that by simp
      then show ?thesis unfolding cl by simp
    qed
    have "unit_range sb k \<subseteq> ?c sb"
    proof
      fix l assume "l \<in> unit_range sb k"
      then have "0 \<le> l - k * u" "l - k * u < u" by (auto simp: unit_range_def u_def)
      from all [OF this] show "l \<in> ?c sb" by simp
    qed
    from detach_inv [OF inv1 sb h(2) this] obtain s2 c2 own2 ps2 where
      s2: "pool_list_detach p ?s1 = Some s2" "pool_base s2 = pool_base ?s1"
        and inv2: "ut_inv_at s2 (insert (14, k) ?live) N c2 own2 ps2" and np: "\<forall>sb\<in>list_sizes. p \<notin> fst ` set (ps2 sb)"
      by blast
    have nk: "(14, k) \<notin> ?live"
    proof
      assume "(14, k) \<in> ?live"
      then have "own k = 14" using own_okD(2) [OF own, of 14 k] by simp
      moreover have "own k = sb" using own_okD(2) [OF own live] by (simp add: k_def u_def)
      ultimately show False using sb by simp
    qed
    have ba: "blk_addr s2 = blk_addr s" using s2(2) by (simp add: blk_addr_def fun_eq_iff)
    from ut_free_bitfield_inv [OF inv2 bf_sizes_simps(1), of k] nk obtain s3 c3 own3 where
      s3: "do_ut_free_from_bitfield (blk_addr s 14 k) 14 s2 = Some s3" "ut_rest s3 = ut_rest s2"
        and inv3: "ut_inv_at s3 ?live N c3 own3 ps2" using ba by auto
    have "ut_inv_at (s3\<lparr>sub_store := (sub_store s3)(p := None)\<rparr>) ?live N c3 own3 ps2"
      using inv_at_store_drop [OF inv3] np by blast
    moreover have "pool_base s3 = pool_base s" using rest_eqs(2) [OF s3(2)] s2(2) by simp
    ultimately show ?thesis using step True s2(1) s3(1) by (auto simp: ut_inv_def)
  qed
qed

end
