(* ===== verification/UT_Contract.thy ===== *)
theory UT_Contract
  imports UT_Correct
begin

text \<open>
  The contract the untyped allocator offers to its clients, as a locale over runs of allocations
  and frees, its interpretation on \<^const>\<open>ut_alloc\<close> and \<^const>\<open>ut_free\<close>, and the properties.
\<close>

subsection \<open>The contract of the allocator\<close>

definition block :: "u32 \<Rightarrow> nat \<Rightarrow> int set" where
  "block a sb = {uint a..<uint a + 2 ^ sb}"

definition disjoint_blocks :: "(u32 \<times> nat) set \<Rightarrow> bool" where
  "disjoint_blocks L \<longleftrightarrow> (\<forall>a sb a' sb'. (a, sb) \<in> L \<longrightarrow> (a', sb') \<in> L \<longrightarrow> (a, sb) \<noteq> (a', sb') \<longrightarrow>
     block a sb \<inter> block a' sb' = {})"

text \<open>
  Runs of a client: successful allocations and frees of live blocks, in any order. The second
  state component is the set of blocks the client holds.
\<close>

inductive alloc_run :: "('m \<Rightarrow> nat \<Rightarrow> 's \<Rightarrow> (u32 \<times> 's) option) \<Rightarrow> (u32 \<Rightarrow> nat \<Rightarrow> 's \<Rightarrow> 's option) \<Rightarrow>
    ('s \<Rightarrow> 'm \<Rightarrow> bool) \<Rightarrow> nat set \<Rightarrow> 's \<Rightarrow> (u32 \<times> nat) set \<Rightarrow> 's \<Rightarrow> (u32 \<times> nat) set \<Rightarrow> bool"
  for alloc free fresh sizes s0 L0 where
  run_start: "alloc_run alloc free fresh sizes s0 L0 s0 L0"
| run_alloc: "alloc_run alloc free fresh sizes s0 L0 s L \<Longrightarrow> sb \<in> sizes \<Longrightarrow> fresh s m \<Longrightarrow>
    alloc m sb s = Some (a, s') \<Longrightarrow> a \<noteq> 0 \<Longrightarrow> alloc_run alloc free fresh sizes s0 L0 s' (insert (a, sb) L)"
| run_free: "alloc_run alloc free fresh sizes s0 L0 s L \<Longrightarrow> (a, sb) \<in> L \<Longrightarrow>
    free a sb s = Some s' \<Longrightarrow> alloc_run alloc free fresh sizes s0 L0 s' (L - {(a, sb)})"

locale block_allocator =
  fixes alloc :: "'m \<Rightarrow> nat \<Rightarrow> 's \<Rightarrow> (u32 \<times> 's) option"
    and free :: "u32 \<Rightarrow> nat \<Rightarrow> 's \<Rightarrow> 's option"
    and fresh :: "'s \<Rightarrow> 'm \<Rightarrow> bool"
    and sizes :: "nat set"
    and inv :: "'s \<Rightarrow> (u32 \<times> nat) set \<Rightarrow> bool"
  assumes inv_disjoint: "inv s L \<Longrightarrow> disjoint_blocks L"
    and inv_sizes: "inv s L \<Longrightarrow> (a, sb) \<in> L \<Longrightarrow> sb \<in> sizes"
    and alloc_ok: "inv s L \<Longrightarrow> sb \<in> sizes \<Longrightarrow> fresh s m \<Longrightarrow>
      \<exists>a s'. alloc m sb s = Some (a, s') \<and> (a \<noteq> 0 \<longrightarrow> (a, sb) \<notin> L \<and> inv s' (insert (a, sb) L))"
    and free_ok: "inv s L \<Longrightarrow> (a, sb) \<in> L \<Longrightarrow> \<exists>s'. free a sb s = Some s' \<and> inv s' (L - {(a, sb)})"
begin

lemma run_inv: "alloc_run alloc free fresh sizes s0 L0 s L \<Longrightarrow> inv s0 L0 \<Longrightarrow> inv s L"
proof (induction rule: alloc_run.induct)
  case (run_alloc s L sb m a s')
  then show ?case using alloc_ok [of s L sb m] by auto
next
  case (run_free s L a sb s')
  then show ?case using free_ok [of s L a sb] by auto
qed

lemma run_disjoint:
  assumes "alloc_run alloc free fresh sizes s0 L0 s L" "inv s0 L0"
  shows "disjoint_blocks L"
  using run_inv [OF assms] by (rule inv_disjoint)

lemma run_progress:
  assumes "alloc_run alloc free fresh sizes s0 L0 s L" "inv s0 L0"
  shows "(a, sb) \<in> L \<Longrightarrow> free a sb s \<noteq> None" and "sb \<in> sizes \<Longrightarrow> fresh s m \<Longrightarrow> alloc m sb s \<noteq> None"
  using free_ok [OF run_inv [OF assms]] alloc_ok [OF run_inv [OF assms]] by fastforce+

end

subsection \<open>The allocator keeps the contract\<close>

lemma blk_range_nested:
  fixes j u :: int
  assumes "j * 2 ^ sb \<le> x" "x < j * 2 ^ sb + 2 ^ sb" "sb \<le> 14"
  shows "x div 2 ^ 14 = j div 2 ^ (14 - sb)"
proof -
  have "x div 2 ^ sb = j" using assms(1,2) by (subst div_eq_range_iff) auto
  then have "x div 2 ^ sb div 2 ^ (14 - sb) = j div 2 ^ (14 - sb)" by simp
  moreover have "x div 2 ^ sb div 2 ^ (14 - sb) = x div (2 ^ sb * 2 ^ (14 - sb))"
    by (simp add: zdiv_zmult2_eq)
  moreover have "(2::int) ^ sb * 2 ^ (14 - sb) = 2 ^ 14" using assms(3) by (simp flip: power_add)
  ultimately show ?thesis by simp
qed

lemma live_blocks_disjoint:
  assumes inv: "ut_inv_at s live N c own ps" and l: "(sb, j) \<in> live" "(sb', j') \<in> live" and ne: "(sb, j) \<noteq> (sb', j')"
  shows "block (blk_addr s sb j) sb \<inter> block (blk_addr s sb' j') sb' = {}"
proof -
  have own: "own_ok N c live own" using inv by (simp add: ut_inv_at_def)
  note a = blk_addr_nonzero(4,5) [OF inv l(1)] and a' = blk_addr_nonzero(4,5) [OF inv l(2)]
  have False if x: "x \<in> block (blk_addr s sb j) sb" "x \<in> block (blk_addr s sb' j') sb'" for x
  proof -
    define y where "y = x - uint (pool_base s)"
    have y: "j * 2 ^ sb \<le> y" "y < j * 2 ^ sb + 2 ^ sb" and y': "j' * 2 ^ sb' \<le> y" "y < j' * 2 ^ sb' + 2 ^ sb'"
      using x a(2) a'(2) by (auto simp: block_def y_def)
    have "j div 2 ^ (14 - sb) = j' div 2 ^ (14 - sb')"
      using blk_range_nested [OF y a(1)] blk_range_nested [OF y' a'(1)] by simp
    moreover have "own (j div 2 ^ (14 - sb)) = sb" "own (j' div 2 ^ (14 - sb')) = sb'"
      using own_okD(2) [OF own l(1)] own_okD(2) [OF own l(2)] by simp_all
    ultimately have "sb = sb'" by simp
    moreover from this have "j = j'"
      using y y' div_eq_range_iff [of "2 ^ sb" y j] div_eq_range_iff [of "2 ^ sb" y j'] by simp
    ultimately show False using ne by simp
  qed
  then show ?thesis by blast
qed

definition ut_ok :: "ut_state \<Rightarrow> (u32 \<times> nat) set \<Rightarrow> bool" where
  "ut_ok s L \<longleftrightarrow> (\<exists>live. ut_inv s live \<and> L = (\<lambda>(sb, j). (blk_addr s sb j, sb)) ` live)"

definition ut_fresh :: "ut_state \<Rightarrow> (nat \<Rightarrow> nat option) \<Rightarrow> bool" where
  "ut_fresh s malloc \<longleftrightarrow> (case malloc 0 of None \<Rightarrow> True | Some p \<Rightarrow> sub_store s p = None)"

lemma ut_inv_initialised:
  assumes "ut_inv s live"
  shows "initialised s" "pool14 s \<noteq> None"
  using assms by (auto simp: ut_inv_def ut_inv_at_def ut_core_def pool_of_def bf_sizes_def)

lemma ut_alloc_inv:
  assumes inv: "ut_inv s live" and sb: "sb \<in> ut_sizes" and m: "ut_fresh s malloc"
  shows "\<exists>a s'. ut_alloc malloc sb s = Some (a, s') \<and> pool_base s' = pool_base s \<and>
    (a = 0 \<and> (sb \<in> {10, 12} \<or> ut_inv s' live) \<or>
     (\<exists>j. a = blk_addr s sb j \<and> (sb, j) \<notin> live \<and> ut_inv s' (insert (sb, j) live)))"
proof -
  from inv obtain N c own ps where at: "ut_inv_at s live N c own ps" by (auto simp: ut_inv_def)
  have fr: "\<And>p. malloc 0 = Some p \<Longrightarrow> sub_store s p = None" using m by (simp add: ut_fresh_def)
  consider "sb \<in> list_sizes" | "sb \<in> bf_sizes" using sb by (auto simp: ut_sizes_def list_sizes_def bf_sizes_def)
  then show ?thesis
  proof cases
    case 1
    then have "ut_alloc malloc sb s = do_ut_alloc_from_list malloc sb s"
      using ut_inv_initialised [OF inv] by (auto simp: ut_alloc_def list_sizes_def)
    moreover obtain a s' where "do_ut_alloc_from_list malloc sb s = Some (a, s')" "pool_base s' = pool_base s"
      "a = 0 \<and> ut_inv s' live \<or> (\<exists>j. a = blk_addr s sb j \<and> (sb, j) \<notin> live \<and> ut_inv s' (insert (sb, j) live))"
      using alloc_from_list_inv [OF at 1, of malloc] fr by blast
    ultimately show ?thesis by auto
  next
    case 2
    then have al: "ut_alloc malloc sb s = do_ut_alloc_from_bitfield sb s"
      using ut_inv_initialised [OF inv] by (auto simp: ut_alloc_def bf_sizes_def)
    show ?thesis
    proof (cases "c sb \<noteq> {} \<or> c 14 \<noteq> {}")
      case True
      from ut_alloc_bitfield_inv [OF at 2 True] obtain s' j c' own' where
        r: "do_ut_alloc_from_bitfield sb s = Some (blk_addr s sb j, s')" "ut_rest s' = ut_rest s"
           "(sb, j) \<notin> live" "ut_inv_at s' (insert (sb, j) live) N c' own' ps" by blast
      then have "ut_inv s' (insert (sb, j) live)" unfolding ut_inv_def by blast
      then show ?thesis using al r rest_eqs(2) [OF r(2)] by auto
    next
      case False
      from at have "ut_core s N c" by (simp add: ut_inv_at_def)
      from alloc_from_bitfield_none [OF this 2] False obtain s' where
        "do_ut_alloc_from_bitfield sb s = Some (0, s')" "ut_rest s' = ut_rest s" "sb = 14 \<longrightarrow> s' = s" by auto
      moreover from this(2) have "pool_base s' = pool_base s" by (rule rest_eqs(2))
      moreover have "sb \<in> {10, 12} \<or> sb = 14" using 2 by (auto simp: bf_sizes_def)
      ultimately show ?thesis using al inv by auto
    qed
  qed
qed

lemma blk_aligned:
  assumes "ut_inv_at s live N c own ps" "(sb, j) \<in> live"
  shows "blk_addr s sb j AND (push_bit sb 1 - 1) = 0"
proof -
  have m: "push_bit sb 1 - 1 = (mask sb :: u32)" by (simp add: mask_eq_exp_minus_1 push_bit_eq_mult)
  note b = blk_addr_nonzero(4,5) [OF assms]
  have base: "uint (pool_base s) mod 2 ^ 14 = 0" using assms(1) by (simp add: ut_inv_at_def ut_base_ok_def)
  have "(2::int) ^ sb dvd 2 ^ 14" using b(1) by (rule le_imp_power_dvd)
  with base have "(2::int) ^ sb dvd uint (pool_base s)" by (meson dvd_trans mod_0_imp_dvd)
  then have d: "uint (blk_addr s sb j) mod 2 ^ sb = 0" using b(2) by simp
  have "blk_addr s sb j AND mask sb = take_bit sb (blk_addr s sb j)" by (simp add: take_bit_eq_mask)
  also have "uint \<dots> = uint (blk_addr s sb j) mod 2 ^ sb"
    unfolding unsigned_take_bit_eq by (rule take_bit_eq_mod)
  finally show ?thesis using d unfolding m by (simp flip: uint_0_iff)
qed

lemma ut_free_inv:
  assumes inv: "ut_inv s live" and live: "(sb, j) \<in> live"
  shows "\<exists>s'. ut_free (blk_addr s sb j) sb s = Some s' \<and> ut_inv s' (live - {(sb, j)}) \<and> pool_base s' = pool_base s"
proof -
  from inv obtain N c own ps where at: "ut_inv_at s live N c own ps" by (auto simp: ut_inv_def)
  then have "sb \<in> ut_sizes" using own_okD(2) live by (auto simp: ut_inv_at_def)
  then consider "sb \<in> list_sizes" | "sb \<in> bf_sizes" by (auto simp: ut_sizes_def list_sizes_def bf_sizes_def)
  then show ?thesis
  proof cases
    case 1
    then have "ut_free (blk_addr s sb j) sb s = do_ut_free_from_list (blk_addr s sb j) sb s"
      using blk_aligned [OF at live] blk_addr_nonzero(1) [OF at live] by (auto simp: ut_free_def list_sizes_def)
    then show ?thesis using free_from_list_inv [OF at 1 live] by simp
  next
    case 2
    then have "ut_free (blk_addr s sb j) sb s = do_ut_free_from_bitfield (blk_addr s sb j) sb s"
      using blk_aligned [OF at live] blk_addr_nonzero(1) [OF at live] by (auto simp: ut_free_def bf_sizes_def)
    moreover from ut_free_bitfield_inv [OF at 2 live] obtain s' c' own' where
      "do_ut_free_from_bitfield (blk_addr s sb j) sb s = Some s'" "ut_rest s' = ut_rest s"
      "ut_inv_at s' (live - {(sb, j)}) N c' own' ps" by blast
    moreover from this(2) have "pool_base s' = pool_base s" by (rule rest_eqs(2))
    ultimately show ?thesis unfolding ut_inv_def by auto
  qed
qed

lemma ut_ok_image:
  "pool_base s' = pool_base s \<Longrightarrow> (\<lambda>(sb, j). (blk_addr s' sb j, sb)) ` live = (\<lambda>(sb, j). (blk_addr s sb j, sb)) ` live"
  by (simp add: blk_addr_def)

lemma blk_addr_inj:
  assumes "ut_inv_at s live N c own ps" "(sb, j) \<in> live" "(sb, j') \<in> live" "blk_addr s sb j = blk_addr s sb j'"
  shows "j = j'"
proof -
  have "uint (pool_base s) + j * 2 ^ sb = uint (pool_base s) + j' * 2 ^ sb"
    unfolding blk_addr_nonzero(5) [OF assms(1,2), symmetric] blk_addr_nonzero(5) [OF assms(1,3), symmetric] assms(4) ..
  then show ?thesis by simp
qed

lemma ut_ok_insert:
  assumes "ut_inv s' (insert (sb, j) live)" "pool_base s' = pool_base s" "(sb, j) \<notin> live"
  shows "ut_ok s' (insert (blk_addr s sb j, sb) ((\<lambda>(sb, j). (blk_addr s sb j, sb)) ` live))"
    and "(blk_addr s sb j, sb) \<notin> (\<lambda>(sb, j). (blk_addr s sb j, sb)) ` live"
proof -
  have ba: "blk_addr s' = blk_addr s" using assms(2) by (simp add: blk_addr_def fun_eq_iff)
  show "ut_ok s' (insert (blk_addr s sb j, sb) ((\<lambda>(sb, j). (blk_addr s sb j, sb)) ` live))"
    unfolding ut_ok_def ba using assms(1) by (intro exI [of _ "insert (sb, j) live"]) simp
  from assms(1) obtain N c own ps where at: "ut_inv_at s' (insert (sb, j) live) N c own ps" by (auto simp: ut_inv_def)
  show "(blk_addr s sb j, sb) \<notin> (\<lambda>(sb, j). (blk_addr s sb j, sb)) ` live"
  proof
    assume "(blk_addr s sb j, sb) \<in> (\<lambda>(sb, j). (blk_addr s sb j, sb)) ` live"
    then obtain j' where "(sb, j') \<in> live" "blk_addr s sb j = blk_addr s sb j'" by auto
    moreover from this have "j = j'" using blk_addr_inj [OF at, of sb j j'] ba by simp
    ultimately show False using assms(3) by simp
  qed
qed

lemma ut_ok_remove:
  assumes inv: "ut_inv s live" and l: "(sb, j) \<in> live"
  shows "(\<lambda>(sb, j). (blk_addr s sb j, sb)) ` (live - {(sb, j)}) =
    (\<lambda>(sb, j). (blk_addr s sb j, sb)) ` live - {(blk_addr s sb j, sb)}"
proof -
  from inv obtain N c own ps where at: "ut_inv_at s live N c own ps" by (auto simp: ut_inv_def)
  have "inj_on (\<lambda>(sb, j). (blk_addr s sb j, sb)) live"
    by (rule inj_onI) (use blk_addr_inj [OF at] in auto)
  from inj_on_image_set_diff [OF this, of live "{(sb, j)}"] l show ?thesis by simp
qed

interpretation ut_manager: block_allocator ut_alloc ut_free ut_fresh ut_sizes ut_ok
proof
  fix s L assume ok: "ut_ok s L"
  then obtain live where inv: "ut_inv s live" and L: "L = (\<lambda>(sb, j). (blk_addr s sb j, sb)) ` live"
    by (auto simp: ut_ok_def)
  then obtain N c own ps where at: "ut_inv_at s live N c own ps" by (auto simp: ut_inv_def)
  show "disjoint_blocks L"
    unfolding disjoint_blocks_def
  proof (intro allI impI)
    fix a sb a' sb' assume "(a, sb) \<in> L" "(a', sb') \<in> L" "(a, sb) \<noteq> (a', sb')"
    then obtain j j' where "(sb, j) \<in> live" "(sb', j') \<in> live" "a = blk_addr s sb j" "a' = blk_addr s sb' j'"
      "(sb, j) \<noteq> (sb', j')" unfolding L by auto
    then show "block a sb \<inter> block a' sb' = {}" using live_blocks_disjoint [OF at] by simp
  qed
  show "sb \<in> ut_sizes" if "(a, sb) \<in> L" for a sb
  proof -
    have own: "own_ok N c live own" using at by (simp add: ut_inv_at_def)
    from that L obtain j where "(sb, j) \<in> live" by auto
    from own_okD(2) [OF own this] show ?thesis by simp
  qed
  show "\<exists>a s'. ut_alloc m sb s = Some (a, s') \<and> (a \<noteq> 0 \<longrightarrow> (a, sb) \<notin> L \<and> ut_ok s' (insert (a, sb) L))"
    if sb: "sb \<in> ut_sizes" and m: "ut_fresh s m" for sb m
  proof -
    from ut_alloc_inv [OF inv sb m] obtain a s' where r: "ut_alloc m sb s = Some (a, s')" "pool_base s' = pool_base s"
      "a = 0 \<or> (\<exists>j. a = blk_addr s sb j \<and> (sb, j) \<notin> live \<and> ut_inv s' (insert (sb, j) live))" by blast
    show ?thesis
    proof (cases "a = 0")
      case False
      with r(3) obtain j where j: "a = blk_addr s sb j" "(sb, j) \<notin> live" "ut_inv s' (insert (sb, j) live)" by blast
      show ?thesis using r(1) ut_ok_insert [OF j(3) r(2) j(2)] unfolding L j(1) by auto
    qed (use r in auto)
  qed
  show "\<exists>s'. ut_free a sb s = Some s' \<and> ut_ok s' (L - {(a, sb)})" if "(a, sb) \<in> L" for a sb
  proof -
    from that L obtain j where j: "(sb, j) \<in> live" "a = blk_addr s sb j" by auto
    from ut_free_inv [OF inv j(1)] obtain s' where s': "ut_free a sb s = Some s'" "ut_inv s' (live - {(sb, j)})"
      "pool_base s' = pool_base s" using j(2) by blast
    have "L - {(a, sb)} = (\<lambda>(sb, j). (blk_addr s' sb j, sb)) ` (live - {(sb, j)})"
      unfolding L j(2) ut_ok_image [OF s'(3)] ut_ok_remove [OF inv j(1)] ..
    then show ?thesis using s' unfolding ut_ok_def by blast
  qed
qed

subsection \<open>Initialisation\<close>

lemma uint_drop_bit: "uint (drop_bit n (w :: u32)) = uint w div 2 ^ n"
proof -
  have "take_bit 32 (uint w) = uint w" using uint_bounded [of w] by (simp add: take_bit_int_eq_self)
  then have "uint (drop_bit n w) = drop_bit n (uint w)" unfolding unsigned_drop_bit_eq by simp
  then show ?thesis by (simp only: drop_bit_eq_div)
qed

lemma CEILING14_eq:
  assumes "uint x + 2 ^ 14 \<le> 2 ^ 32"
  shows "uint (CEILING14 x) = 2 ^ 14 * ((uint x + 2 ^ 14 - 1) div 2 ^ 14)"
proof -
  have "uint (x + push_bit 14 1 - 1) = uint (x + 0x3FFF)" by (simp add: add.commute)
  also have "\<dots> = uint x + 0x3FFF" using assms by (simp add: uint_word_ariths)
  finally show ?thesis unfolding CEILING14_def FLOOR14_def uint_and_not_mask by (simp add: algebra_simps)
qed

lemma clear_all:
  assumes "bf_wf bf" "bf_size bf = N" "0 \<le> N" "bf_clear bf = {}"
  shows "\<exists>p. for_up 0 N (\<lambda>i p. do { bf \<leftarrow> p; bf' \<leftarrow> bf_clr bf i; Some (Some bf') }) (Some bf) = Some p \<and>
    (\<exists>bf'. p = Some bf' \<and> bf_wf bf' \<and> bf_size bf' = N \<and> bf_clear bf' = {0..<N})"
proof (rule for_up_total [where P = "\<lambda>k p. \<exists>bf'. p = Some bf' \<and> bf_wf bf' \<and> bf_size bf' = N \<and> bf_clear bf' = {0..<k}"])
  fix k t assume k: "0 \<le> k" "k < N" and "\<exists>bf'. t = Some bf' \<and> bf_wf bf' \<and> bf_size bf' = N \<and> bf_clear bf' = {0..<k}"
  then obtain b where b: "t = Some b" "bf_wf b" "bf_size b = N" "bf_clear b = {0..<k}" by blast
  have "k \<in> {0..<bf_size b} - bf_clear b" using k b by simp
  from bf_clr_clear [OF b(2) this] obtain b' where "bf_clr b k = Some b'" "bf_wf b'"
    "bf_clear b' = insert k (bf_clear b)" "bf_size b' = bf_size b" by blast
  moreover have "{0..<k + 1} = insert k {0..<k}" using k by auto
  ultimately show "\<exists>t'. do { bf \<leftarrow> t; bf' \<leftarrow> bf_clr bf k; Some (Some bf') } = Some t' \<and>
      (\<exists>bf'. t' = Some bf' \<and> bf_wf bf' \<and> bf_size bf' = N \<and> bf_clear bf' = {0..<k + 1})" using b by simp
qed (use assms in auto)

lemma own_ok_init: "own_ok N (\<lambda>sb. if sb = 14 then {0..<N} else {}) {} (\<lambda>k. 14)"
  by (rule own_okI) (auto simp: ut_sizes_def)

lemma ut_allocator_init_inv:
  assumes ni: "\<not> initialised s" and ok: "\<And>k. malloc_ok k"
    and lo: "2 ^ 14 \<le> uint low" "uint low \<le> uint high" "uint high + 2 ^ 14 \<le> 2 ^ 32"
  shows "\<exists>s'. ut_allocator_init malloc_ok low high s = Some s' \<and> ut_inv s' {}"
proof -
  define l h where "l = uint low div 2 ^ 14" and "h = (uint high + 2 ^ 14 - 1) div 2 ^ 14"
  define N where "N = h - l"
  have lh: "0 < l" "l \<le> h" using lo unfolding l_def h_def by (simp_all add: pos_imp_zdiv_pos_iff zdiv_mono1)
  then have N: "0 \<le> N" by (simp add: N_def)
  have ul: "uint (FLOOR14 low) = 2 ^ 14 * l" unfolding FLOOR14_def uint_and_not_mask l_def ..
  have uh: "uint (CEILING14 high) = 2 ^ 14 * h" unfolding h_def by (rule CEILING14_eq [OF lo(3)])
  have h32: "2 ^ 14 * h \<le> 2 ^ 32"
    using uint_lt2p [of "CEILING14 high"] unfolding uh by simp
  define mem where "mem = CEILING14 high - FLOOR14 low"
  have le: "uint (FLOOR14 low) \<le> uint (CEILING14 high)" unfolding ul uh using lh(2) by simp
  then have "uint mem = uint (CEILING14 high) - uint (FLOOR14 low)" unfolding mem_def by (simp only: uint_sub_lem)
  then have um: "uint mem = 2 ^ 14 * N" unfolding ul uh N_def by (simp add: algebra_simps)
  have sizes: "uint (drop_bit 14 mem) = N" "uint (drop_bit 12 mem) = N * 4" "uint (drop_bit 10 mem) = N * 16"
    unfolding uint_drop_bit um by simp_all
  obtain p14 where p14: "new_bitfield malloc_ok N BITFIELD_INIT_FILLED = Some (Some p14)" "bf_wf p14" "bf_size p14 = N"
    "bf_used p14 = {0..<N}" using new_bitfield_filled [OF N, of malloc_ok] ok by blast
  obtain p12 where p12: "new_bitfield (\<lambda>k. malloc_ok (k + 2)) (N * 4) BITFIELD_INIT_FILLED = Some (Some p12)" "bf_wf p12"
    "bf_size p12 = N * 4" "bf_used p12 = {0..<N * 4}"
    using new_bitfield_filled [of "N * 4" "\<lambda>k. malloc_ok (k + 2)"] ok N by auto
  obtain p10 where p10: "new_bitfield (\<lambda>k. malloc_ok (k + 4)) (N * 16) BITFIELD_INIT_FILLED = Some (Some p10)" "bf_wf p10"
    "bf_size p10 = N * 16" "bf_used p10 = {0..<N * 16}"
    using new_bitfield_filled [of "N * 16" "\<lambda>k. malloc_ok (k + 4)"] ok N by auto
  have cl: "bf_clear p14 = {}" "bf_clear p12 = {}" "bf_clear p10 = {}"
    using p14 p12 p10 by (simp_all add: bf_clear_used)
  from clear_all [OF p14(2,3) N cl(1)] obtain q where
    q: "for_up 0 N (\<lambda>i p. do { bf \<leftarrow> p; bf' \<leftarrow> bf_clr bf i; Some (Some bf') }) (Some p14) = Some (Some q)"
      "bf_wf q" "bf_size q = N" "bf_clear q = {0..<N}" by auto
  let ?s = "s\<lparr>pool_base := FLOOR14 low, pool14 := Some q, pool12 := Some p12, pool10 := Some p10,
             pool9 := None, pool4 := None, initialised := True\<rparr>"
  let ?c = "\<lambda>sb. if sb = 14 then {0..<N} else ({} :: int set)"
  have init: "ut_allocator_init malloc_ok low high s = Some ?s"
    using ni p14(1) p12(1) p10(1) q(1) by (simp add: ut_allocator_init_def Let_def sizes flip: mem_def)
  have "ut_core ?s N ?c" using N q p12 p10 cl by (auto simp: ut_core_def bf_sizes_def pool_of_def)
  moreover have "ut_base_ok ?s N" using h32 lh(1) by (simp add: ut_base_ok_def ul N_def algebra_simps)
  moreover have "ut_list ?s N ?c (\<lambda>_. 14) sb []" if "sb \<in> list_sizes" for sb
    using that by (auto simp: ut_list_def get_ref_def the_ref_def list_sizes_def)
  ultimately have "ut_inv_at ?s {} N ?c (\<lambda>_. 14) (\<lambda>_. [])"
    using own_ok_init by (simp add: ut_inv_at_def)
  then show ?thesis using init unfolding ut_inv_def by blast
qed

subsection \<open>Properties\<close>

definition ut_boot :: ut_state where
  "ut_boot = \<lparr>pool14 = None, pool12 = None, pool10 = None, pool9 = None, pool4 = None,
     sub_store = Map.empty, initialised = False, pool_base = 0\<rparr>"

primrec alloc_pages :: "nat \<Rightarrow> ut_state \<Rightarrow> (u32 list \<times> ut_state) option" where
  "alloc_pages 0 s = Some ([], s)"
| "alloc_pages (Suc n) s = do {
     (a, s1) \<leftarrow> ut_alloc (\<lambda>_. None) 12 s;
     (as, s2) \<leftarrow> alloc_pages n s1;
     Some (a # as, s2) }"

lemma ut_boot_ok:
  "\<exists>s. ut_allocator_init (\<lambda>_. True) 0x4000 0x10000 ut_boot = Some s \<and> ut_ok s {}"
  using ut_allocator_init_inv [of ut_boot "\<lambda>_. True" "0x4000" "0x10000"]
  by (auto simp: ut_boot_def ut_ok_def)

text \<open>
  C1. Safety of the untyped allocator over whole runs: from a state in which the client holds the
  blocks \<open>L0\<close>, after any sequence of successful allocations (of 16 bytes, 512 bytes, 1K, 4K or
  16K) and frees the blocks the client holds are pairwise disjoint, every one of them can be
  freed, and an allocation request never aborts.
\<close>

theorem ut_blocks_disjoint:
  assumes "ut_ok s0 L0" and "alloc_run ut_alloc ut_free ut_fresh ut_sizes s0 L0 s L"
  shows "disjoint_blocks L \<and> (\<forall>a sb. (a, sb) \<in> L \<longrightarrow> ut_free a sb s \<noteq> None)
    \<and> (\<forall>sb m. sb \<in> ut_sizes \<longrightarrow> ut_fresh s m \<longrightarrow> ut_alloc m sb s \<noteq> None)"
  using ut_manager.run_disjoint [OF assms(2,1)] ut_manager.run_progress [OF assms(2,1)] by simp

lemma ut_boot_alloc:
  obtains s0 s where "ut_ok s0 {}" "ut_alloc (\<lambda>_. None) 12 s0 = Some (0x4000, s)"
proof -
  obtain s0 where s0: "ut_allocator_init (\<lambda>_. True) 0x4000 0x10000 ut_boot = Some s0" "ut_ok s0 {}"
    using ut_boot_ok by blast
  have "map_option fst (do { s \<leftarrow> ut_allocator_init (\<lambda>_. True) 0x4000 0x10000 ut_boot;
          ut_alloc (\<lambda>_. None) 12 s }) = Some 0x4000" by code_simp
  then show ?thesis using that s0 by auto
qed

lemma ut_boot_simps: "12 \<in> ut_sizes" "ut_fresh s (\<lambda>_. None)"
  by (simp_all add: ut_sizes_def ut_fresh_def)

theorem ut_blocks_disjoint_witness:
  "\<exists>s0 s. ut_ok s0 {} \<and> alloc_run ut_alloc ut_free ut_fresh ut_sizes s0 {} s {(0x4000, 12)}
     \<and> disjoint_blocks {(0x4000, 12)} \<and> ut_free 0x4000 12 s \<noteq> None"
proof -
  obtain s0 s where s: "ut_ok s0 {}" "ut_alloc (\<lambda>_. None) 12 s0 = Some (0x4000, s)" by (rule ut_boot_alloc)
  have "alloc_run ut_alloc ut_free ut_fresh ut_sizes s0 {} s {(0x4000, 12)}"
    by (rule run_alloc [where alloc = ut_alloc and fresh = ut_fresh, OF run_start ut_boot_simps s(2)]) simp
  with ut_blocks_disjoint [OF s(1) this] s(1) show ?thesis by blast
qed

text \<open>
  C2. An allocation that succeeds returns a block of the requested size, aligned to it, that the
  client does not hold; the allocator then accounts for it as held. Freeing a held block succeeds
  and returns it to the allocator.
\<close>

theorem ut_alloc_free_correct:
  assumes "ut_ok s L" and "sb \<in> ut_sizes" and "ut_fresh s m" and "(a', sb') \<in> L"
  shows "(\<exists>a s'. ut_alloc m sb s = Some (a, s') \<and> (a \<noteq> 0 \<longrightarrow> (a, sb) \<notin> L \<and> ut_ok s' (insert (a, sb) L)))
    \<and> (\<exists>s'. ut_free a' sb' s = Some s' \<and> ut_ok s' (L - {(a', sb')}))"
  using ut_manager.alloc_ok [OF assms(1-3)] ut_manager.free_ok [OF assms(1,4)] by blast

theorem ut_alloc_free_correct_witness:
  "\<exists>s a s' s''. a \<noteq> 0 \<and> ut_ok s {(a, 12)} \<and> ut_free a 12 s = Some s' \<and> ut_ok s' {}
     \<and> ut_alloc (\<lambda>_. None) 12 s = Some s''"
proof -
  obtain s0 s where s: "ut_ok s0 {}" "ut_alloc (\<lambda>_. None) 12 s0 = Some (0x4000, s)" by (rule ut_boot_alloc)
  have ok: "ut_ok s {(0x4000, 12)}" using ut_manager.alloc_ok [OF s(1) ut_boot_simps] s(2) by simp
  from ut_alloc_free_correct [OF ok ut_boot_simps, of "0x4000" 12] show ?thesis using ok by fastforce
qed




text \<open>
  C5. The searches of the sub-allocator lists terminate on every doubly linked list of the store
  and find what they look for: a node with the given base address, or report that there is none.
\<close>

theorem pool_list_find_base_total:
  assumes "dll st r h xs"
  shows "\<exists>q. pool_list_find_base st h b = Some q \<and>
     (case q of Some p \<Rightarrow> p \<in> set xs \<and> (\<exists>n. st p = Some n \<and> sub_base n = b)
      | None \<Rightarrow> \<forall>p\<in>set xs. \<forall>n. st p = Some n \<longrightarrow> sub_base n \<noteq> b)"
  using assms by (rule find_base_dll)

theorem pool_list_find_base_total_witness:
  "\<exists>q. pool_list_find_base (Map.empty(3 \<mapsto> \<lparr>sub_prev = Some Pool9, sub_next = None, sub_base = 0x8000,
       sub_bitfield = bf_example\<rparr>)) (Some 3) 0x8000 = Some q"
proof -
  have "dll (Map.empty(3 \<mapsto> \<lparr>sub_prev = Some Pool9, sub_next = None, sub_base = 0x8000,
       sub_bitfield = bf_example\<rparr>)) Pool9 (Some 3) [3]" by (simp add: dll_cons)
  from pool_list_find_base_total [OF this] show ?thesis by blast
qed

end
