(* ===== verification/UT_Table.thy ===== *)
theory UT_Table
  imports SOS_Prelude
begin

text \<open>
  \<^verbatim>\<open>ut_manager/ut.c\<close>: the table of untyped memory regions that the kernel hands over at boot. The
  table is filtered by size, sorted by physical address and cut down to the largest contiguous
  run; \<^verbatim>\<open>ut_translate\<close> finds the region of a physical address by binary search. The boot
  information comes from the kernel and \<^verbatim>\<open>qsort\<close> from the C library: both are arguments.
\<close>

record bootinfo =
  untyped_start :: u32
  untyped_end :: u32
  deviceUntyped_start :: u32
  deviceUntyped_end :: u32
  untypedPaddrList :: "u32 list"
  untypedSizeBitsList :: "nat list"

record ut_table =
  tab_bi :: bootinfo
  tab_map :: "int list"
  tab_count :: int
  tab_low :: u32
  tab_high :: u32

definition MIN_UT_SIZE_BITS :: nat where
  "MIN_UT_SIZE_BITS = 14"

definition ut_sizebits :: "ut_table \<Rightarrow> int \<Rightarrow> nat option" where
  "ut_sizebits t i = do { m \<leftarrow> rd (tab_map t) i; rd (untypedSizeBitsList (tab_bi t)) m }"

definition ut_pstart :: "ut_table \<Rightarrow> int \<Rightarrow> u32 option" where
  "ut_pstart t i = do { m \<leftarrow> rd (tab_map t) i; rd (untypedPaddrList (tab_bi t)) m }"

definition ut_pend :: "ut_table \<Rightarrow> int \<Rightarrow> u32 option" where
  "ut_pend t i = do { a \<leftarrow> ut_pstart t i; sb \<leftarrow> ut_sizebits t i; Some (a + push_bit sb 1) }"

definition ut_cap :: "ut_table \<Rightarrow> int \<Rightarrow> u32 option" where
  "ut_cap t i = do { m \<leftarrow> rd (tab_map t) i; Some (untyped_start (tab_bi t) + word_of_int m) }"

definition fill_table :: "bootinfo \<Rightarrow> ut_table \<Rightarrow> ut_table option" where
  "fill_table bi t = do {
     let n = sint (untyped_end bi - untyped_start bi);
     m \<leftarrow> for_up 0 n (\<lambda>i m. wr m i i) (tab_map t);
     Some (t\<lparr>tab_bi := bi, tab_count := n, tab_map := m\<rparr>) }"

text \<open>The two filters compact the map in place: \<open>j\<close> is the write index.\<close>

definition strip_table :: "(nat \<Rightarrow> bool) \<Rightarrow> ut_table \<Rightarrow> ut_table option" where
  "strip_table keep t = do {
     (j, t') \<leftarrow> for_up 0 (tab_count t) (\<lambda>i (j, t). do {
        sb \<leftarrow> ut_sizebits t i;
        if keep sb then do {
          v \<leftarrow> rd (tab_map t) i;
          m \<leftarrow> wr (tab_map t) j v;
          Some (j + 1, t\<lparr>tab_map := m\<rparr>) }
        else Some (j, t) }) (0, t);
     Some (t'\<lparr>tab_count := j\<rparr>) }"

definition strip_min :: "nat \<Rightarrow> ut_table \<Rightarrow> ut_table option" where
  "strip_min min_bits = strip_table (\<lambda>sb. sb \<ge> min_bits)"

definition strip_max :: "nat \<Rightarrow> ut_table \<Rightarrow> ut_table option" where
  "strip_max max_bits = strip_table (\<lambda>sb. sb \<le> max_bits)"

definition reduce_table :: "nat \<Rightarrow> nat \<Rightarrow> ut_table \<Rightarrow> ut_table option" where
  "reduce_table min_bits max_bits t = do {
     t1 \<leftarrow> (if min_bits > 0 then strip_min min_bits t else Some t);
     if max_bits > 0 then strip_max max_bits t1 else Some t1 }"

text \<open>The comparison returns the difference of two addresses as a signed word.\<close>

definition ut_cmp :: "bootinfo \<Rightarrow> int \<Rightarrow> int \<Rightarrow> int option" where
  "ut_cmp bi a b = do {
     x \<leftarrow> rd (untypedPaddrList bi) a;
     y \<leftarrow> rd (untypedPaddrList bi) b;
     Some (sint (x - y)) }"

definition sort_table :: "((int \<Rightarrow> int \<Rightarrow> int option) \<Rightarrow> int list \<Rightarrow> int list option) \<Rightarrow> ut_table \<Rightarrow> ut_table option" where
  "sort_table qsort t = do {
     let n = nat (tab_count t);
     xs \<leftarrow> qsort (ut_cmp (tab_bi t)) (take n (tab_map t));
     Some (t\<lparr>tab_map := xs @ drop n (tab_map t)\<rparr>) }"

record run_state =
  contig_start :: int
  contig_size :: u32
  contig_end :: int
  this_start :: int
  this_size :: u32

definition run_init :: run_state where
  "run_init = \<lparr>contig_start = 0, contig_size = 0, contig_end = 0, this_start = 0, this_size = 0\<rparr>"

definition run_step :: "ut_table \<Rightarrow> int \<Rightarrow> run_state \<Rightarrow> run_state option" where
  "run_step t i r = do {
     sb \<leftarrow> ut_sizebits t i;
     let ts = this_size r + push_bit sb 1;
     gap \<leftarrow> (if i + 1 \<ge> tab_count t then Some True
             else do { e \<leftarrow> ut_pend t i; s \<leftarrow> ut_pstart t (i + 1); Some (e \<noteq> s) });
     if gap then
       Some (if contig_size r < ts
             then \<lparr>contig_start = this_start r, contig_size = ts, contig_end = i + 1,
                    this_start = i + 1, this_size = 0\<rparr>
             else r\<lparr>this_start := i + 1, this_size := 0\<rparr>)
     else Some (r\<lparr>this_size := ts\<rparr>) }"

definition select_largest_contiguous :: "ut_table \<Rightarrow> ut_table option" where
  "select_largest_contiguous t = do {
     c_assert (tab_count t \<noteq> 0);
     r \<leftarrow> for_up 0 (tab_count t) (run_step t) run_init;
     m \<leftarrow> for_up 0 (contig_end r - contig_start r)
            (\<lambda>i m. do { v \<leftarrow> rd m (contig_start r + i); wr m i v }) (tab_map t);
     Some (t\<lparr>tab_map := m, tab_count := max 0 (contig_end r - contig_start r)\<rparr>) }"

text \<open>The search among the device regions; they follow the normal ones in the arrays.\<close>

function ut_translate_device_from :: "bootinfo \<Rightarrow> u32 \<Rightarrow> u32 \<Rightarrow> int \<Rightarrow> (u32 \<times> u32) option option" where
  "ut_translate_device_from bi addr cap i =
     (if cap < deviceUntyped_end bi then do {
        p \<leftarrow> rd (untypedPaddrList bi) i;
        sb \<leftarrow> rd (untypedSizeBitsList bi) i;
        if p \<le> addr \<and> addr < p + push_bit sb 1 then Some (Some (cap, addr - p))
        else ut_translate_device_from bi addr (cap + 1) (i + 1) }
      else Some None)"
  by pat_completeness auto
termination
  by (relation "measure (\<lambda>(bi, addr, cap, i). unat (deviceUntyped_end bi) - unat cap)")
     (auto simp: unat_inc word_less_nat_alt)

definition ut_translate_device :: "bootinfo \<Rightarrow> u32 \<Rightarrow> (u32 \<times> u32) option option" where
  "ut_translate_device bi addr =
     ut_translate_device_from bi addr (deviceUntyped_start bi) (sint (untyped_end bi - untyped_start bi))"

text \<open>The inner \<^term>\<open>None\<close> is the nonzero return code; a pair is the capability and the offset.\<close>

function ut_search :: "ut_table \<Rightarrow> u32 \<Rightarrow> int \<Rightarrow> int \<Rightarrow> (u32 \<times> u32) option option" where
  "ut_search t addr start en =
     (if start < en then do {
        let index = (start + en) div 2;
        s \<leftarrow> ut_pstart t index;
        e \<leftarrow> ut_pend t index;
        if addr < s then ut_search t addr start index
        else if e \<le> addr then ut_search t addr (index + 1) en
        else do { c \<leftarrow> ut_cap t index; Some (Some (c, addr - s)) } }
      else ut_translate_device (tab_bi t) addr)"
  by pat_completeness auto
termination
  by (relation "measure (\<lambda>(t, addr, start, en). nat (en - start))") auto

definition ut_translate :: "ut_table \<Rightarrow> u32 \<Rightarrow> (u32 \<times> u32) option option" where
  "ut_translate t addr = ut_search t addr 0 (tab_count t)"

declare ut_search.simps [simp del] ut_translate_device_from.simps [simp del]

definition ut_table_init :: "((int \<Rightarrow> int \<Rightarrow> int option) \<Rightarrow> int list \<Rightarrow> int list option) \<Rightarrow> bootinfo option \<Rightarrow> ut_table
    \<Rightarrow> (int \<times> ut_table) option" where
  "ut_table_init qsort bi t =
     (case bi of None \<Rightarrow> Some (1, t)
      | Some b \<Rightarrow> do {
          t1 \<leftarrow> fill_table b t;
          t2 \<leftarrow> reduce_table MIN_UT_SIZE_BITS 0 t1;
          t3 \<leftarrow> sort_table qsort t2;
          t4 \<leftarrow> select_largest_contiguous t3;
          lo \<leftarrow> ut_pstart t4 0;
          hi \<leftarrow> ut_pend t4 (tab_count t4 - 1);
          Some (0, t4\<lparr>tab_low := lo, tab_high := hi\<rparr>) })"

definition ut_find_memory :: "ut_table \<Rightarrow> u32 \<times> u32" where
  "ut_find_memory t = (tab_low t, tab_high t)"

definition ut_align_top :: "u32 \<Rightarrow> u32 \<Rightarrow> u32" where
  "ut_align_top x base = (x + (base - 1)) AND NOT (base - 1)"

definition ut_steal_mem :: "nat \<Rightarrow> ut_table \<Rightarrow> u32 \<times> ut_table" where
  "ut_steal_mem sizebits t =
     (let paddr = ut_align_top (tab_low t) (push_bit sizebits 1) in
      if paddr + push_bit sizebits 1 \<le> tab_high t
      then (paddr, t\<lparr>tab_low := paddr + push_bit sizebits 1\<rparr>) else (0, t))"

subsection \<open>Binary search against linear search\<close>

definition ut_contains :: "ut_table \<Rightarrow> u32 \<Rightarrow> int \<Rightarrow> bool" where
  "ut_contains t addr i = (case (ut_pstart t i, ut_pend t i) of (Some s, Some e) \<Rightarrow> s \<le> addr \<and> addr < e | _ \<Rightarrow> False)"

definition ut_translate_linear :: "ut_table \<Rightarrow> u32 \<Rightarrow> (u32 \<times> u32) option option" where
  "ut_translate_linear t addr =
     (case List.find (ut_contains t addr) [0..tab_count t - 1] of
        None \<Rightarrow> ut_translate_device (tab_bi t) addr
      | Some i \<Rightarrow> do { c \<leftarrow> ut_cap t i; s \<leftarrow> ut_pstart t i; Some (Some (c, addr - s)) })"

definition tab_entry_ok :: "ut_table \<Rightarrow> int \<Rightarrow> bool" where
  "tab_entry_ok t i = (case (ut_pstart t i, ut_pend t i) of
     (Some s, Some e) \<Rightarrow> s < e \<and> (i + 1 < tab_count t \<longrightarrow>
        (case ut_pstart t (i + 1) of None \<Rightarrow> False | Some s' \<Rightarrow> e \<le> s'))
   | _ \<Rightarrow> False)"

definition tab_sorted :: "ut_table \<Rightarrow> bool" where
  "tab_sorted t = list_all (tab_entry_ok t) [0..tab_count t - 1]"

lemma tab_entry:
  assumes "tab_sorted t" "0 \<le> i" "i < tab_count t"
  shows "\<exists>s e. ut_pstart t i = Some s \<and> ut_pend t i = Some e \<and> s < e
    \<and> (\<forall>s'. i + 1 < tab_count t \<longrightarrow> ut_pstart t (i + 1) = Some s' \<longrightarrow> e \<le> s')"
proof -
  have "tab_entry_ok t i" using assms by (auto simp: tab_sorted_def list_all_iff)
  then show ?thesis by (auto simp: tab_entry_ok_def split: option.splits)
qed

lemma ut_containsD: "ut_contains t a i \<Longrightarrow> \<exists>s e. ut_pstart t i = Some s \<and> ut_pend t i = Some e \<and> s \<le> a \<and> a < e"
  by (auto simp: ut_contains_def split: option.splits)

lemma tab_before:
  assumes t: "tab_sorted t" and k: "0 \<le> i" "i < k" "k < tab_count t"
    and e: "ut_pend t i = Some e" "ut_pstart t k = Some s"
  shows "e \<le> s"
  using k(2,3) e(2)
proof (induction "nat (k - i)" arbitrary: k s)
  case (Suc n)
  show ?case
  proof (cases "k = i + 1")
    case True
    have "i < tab_count t" using Suc.prems by simp
    from tab_entry [OF t k(1) this] obtain ei where "ut_pend t i = Some ei"
      "\<forall>s'. i + 1 < tab_count t \<longrightarrow> ut_pstart t (i + 1) = Some s' \<longrightarrow> ei \<le> s'" by blast
    then show ?thesis using True Suc.prems e(1) by auto
  next
    case False
    then have l: "i < k - 1" "k - 1 < tab_count t" "0 \<le> k - 1" using Suc.prems k(1) by auto
    from tab_entry [OF t l(3,2)] obtain sl el where el: "ut_pstart t (k - 1) = Some sl" "sl < el"
      "\<forall>s'. k - 1 + 1 < tab_count t \<longrightarrow> ut_pstart t (k - 1 + 1) = Some s' \<longrightarrow> el \<le> s'" by blast
    have "e \<le> sl" using Suc.hyps(1) [of "k - 1" sl] Suc.hyps(2) l el(1) by auto
    moreover have "el \<le> s" using el(3) Suc.prems by simp
    ultimately show ?thesis using el(2) by order
  qed
qed simp

lemma ut_contains_unique:
  assumes "tab_sorted t" "0 \<le> i" "i < tab_count t" "0 \<le> k" "k < tab_count t" "ut_contains t a i" "ut_contains t a k"
  shows "i = k"
proof (rule ccontr)
  assume "i \<noteq> k"
  then consider "i < k" | "k < i" by linarith
  then show False
  proof cases
    case 1
    from ut_containsD [OF assms(6)] ut_containsD [OF assms(7)] obtain e s where
      x: "ut_pend t i = Some e" "ut_pstart t k = Some s" "a < e" "s \<le> a" by blast
    from tab_before [OF assms(1,2) 1 assms(5) x(1,2)] x(3,4) show False by order
  next
    case 2
    from ut_containsD [OF assms(6)] ut_containsD [OF assms(7)] obtain e s where
      x: "ut_pend t k = Some e" "ut_pstart t i = Some s" "a < e" "s \<le> a" by blast
    from tab_before [OF assms(1,4) 2 assms(3) x(1,2)] x(3,4) show False by order
  qed
qed

lemma find_upto:
  assumes "0 \<le> i" "i < n" "P i" "\<And>k. 0 \<le> k \<Longrightarrow> k < n \<Longrightarrow> P k \<Longrightarrow> k = i"
  shows "List.find P [0..n - 1] = Some i"
proof -
  have "List.find P [0..n - 1] \<noteq> None" using assms(1-3) by (auto simp: find_None_iff)
  then obtain k where k: "List.find P [0..n - 1] = Some k" by blast
  then have "P k" "k \<in> set [0..n - 1]" by (auto simp: find_Some_iff dest: nth_mem)
  then show ?thesis using k assms(4) by auto
qed

lemma ut_search_linear:
  assumes t: "tab_sorted t"
  shows "0 \<le> st \<Longrightarrow> en \<le> tab_count t \<Longrightarrow>
    (\<And>i. 0 \<le> i \<Longrightarrow> i < tab_count t \<Longrightarrow> ut_contains t a i \<Longrightarrow> st \<le> i \<and> i < en) \<Longrightarrow>
    ut_search t a st en = ut_translate_linear t a"
proof (induction "nat (en - st)" arbitrary: st en rule: less_induct)
  case less
  show ?case
  proof (cases "st < en")
    case False
    then have "List.find (ut_contains t a) [0..tab_count t - 1] = None"
      using less.prems(3) by (fastforce simp: find_None_iff)
    then show ?thesis using False by (subst ut_search.simps) (simp add: ut_translate_linear_def)
  next
    case True
    define m where "m = (st + en) div 2"
    have m: "st \<le> m" "m < en" "0 \<le> m" "m < tab_count t" using True less.prems(1,2) by (auto simp: m_def)
    from tab_entry [OF t m(3,4)] obtain s e where e: "ut_pstart t m = Some s" "ut_pend t m = Some e" "s < e" by blast
    consider "a < s" | "\<not> a < s" "e \<le> a" | "s \<le> a" "a < e" by fastforce
    then show ?thesis
    proof cases
      case 1
      have "i < m" if i: "0 \<le> i" "i < tab_count t" "ut_contains t a i" for i
      proof (rule ccontr)
        assume "\<not> i < m"
        then consider "i = m" | "m < i" by linarith
        then show False
        proof cases
          case 2
          from i(3) obtain si where si: "ut_pstart t i = Some si" "si \<le> a" by (auto simp: ut_contains_def split: option.splits)
          have "e \<le> si" by (rule tab_before [OF t m(3) 2 i(2) e(2) si(1)])
          then show False using 1 e(3) si(2) by order
        qed (use i e 1 in \<open>auto simp: ut_contains_def\<close>)
      qed
      then have "ut_search t a st m = ut_translate_linear t a"
        using less.hyps [of m st] less.prems m by auto
      then show ?thesis using True e 1 by (subst ut_search.simps) (simp add: Let_def flip: m_def)
    next
      case 2
      have "m < i" if i: "0 \<le> i" "i < tab_count t" "ut_contains t a i" for i
      proof (rule ccontr)
        assume "\<not> m < i"
        then consider "i = m" | "i < m" by linarith
        then show False
        proof cases
          case 2
          from i(3) obtain ei where ei: "ut_pend t i = Some ei" "a < ei" by (auto simp: ut_contains_def split: option.splits)
          have "ei \<le> s" by (rule tab_before [OF t i(1) 2 m(4) ei(1) e(1)])
          then show False using \<open>e \<le> a\<close> e(3) ei(2) by order
        qed (use i e 2 in \<open>auto simp: ut_contains_def\<close>)
      qed
      then have "ut_search t a (m + 1) en = ut_translate_linear t a"
        using less.hyps [of en "m + 1"] less.prems m by fastforce
      then show ?thesis using True e 2 by (subst ut_search.simps) (simp add: Let_def flip: m_def)
    next
      case 3
      then have c: "ut_contains t a m" using e by (simp add: ut_contains_def)
      have "List.find (ut_contains t a) [0..tab_count t - 1] = Some m"
        by (rule find_upto [where P = "ut_contains t a", OF m(3,4) c]) (rule ut_contains_unique [OF t _ _ m(3,4) _ c])
      then have lin: "ut_translate_linear t a = do { c \<leftarrow> ut_cap t m; Some (Some (c, a - s)) }"
        using e by (simp add: ut_translate_linear_def)
      have "\<not> a < s" "\<not> e \<le> a" using 3 by auto
      then have "ut_search t a st en = do { c \<leftarrow> ut_cap t m; Some (Some (c, a - s)) }"
        using True e by (subst ut_search.simps) (simp add: Let_def flip: m_def)
      then show ?thesis unfolding lin .
    qed
  qed
qed

subsection \<open>Stealing memory\<close>

lemma uint_push_bit_1: "n < 32 \<Longrightarrow> uint (push_bit n (1::u32)) = 2 ^ n"
  using uint_of_int_small [of "2 ^ n"] power_strict_increasing [of n 32 "2::int"] by (simp add: push_bit_eq_mult)

lemma ut_align_top_spec:
  assumes "n < 32" "uint x + 2 ^ n \<le> 2 ^ 32"
  shows "uint (ut_align_top x (push_bit n 1)) = 2 ^ n * ((uint x + 2 ^ n - 1) div 2 ^ n)"
    and "uint x \<le> uint (ut_align_top x (push_bit n 1))"
    and "uint (ut_align_top x (push_bit n 1)) < uint x + 2 ^ n"
proof -
  have one: "uint (push_bit n 1 - 1 :: u32) = 2 ^ n - 1"
    using uint_push_bit_1 [OF assms(1)] uint_sub_lem [of 1 "push_bit n (1::u32)"] by simp
  have "uint (x + (push_bit n 1 - 1)) = uint x + (2 ^ n - 1)"
    using uint_plus_simple_iff [of x "push_bit n 1 - 1"] uint_add_lem [of x "push_bit n 1 - 1"] one assms(2) by simp
  then show eq: "uint (ut_align_top x (push_bit n 1)) = 2 ^ n * ((uint x + 2 ^ n - 1) div 2 ^ n)"
    unfolding ut_align_top_def uint_and_not_mask by (simp only: add_diff_eq)
  have "(uint x + 2 ^ n - 1) mod 2 ^ n < 2 ^ n" "0 \<le> (uint x + 2 ^ n - 1) mod 2 ^ n" by simp_all
  then show "uint x \<le> uint (ut_align_top x (push_bit n 1))" "uint (ut_align_top x (push_bit n 1)) < uint x + 2 ^ n"
    unfolding eq using mult_div_mod_eq [of "2 ^ n" "uint x + 2 ^ n - 1"] by linarith+
qed

lemma ut_steal_mem_spec:
  assumes n: "n < 32" "uint (tab_low t) + 2 ^ n + 2 ^ n \<le> 2 ^ 32" and st: "ut_steal_mem n t = (p, t')"
  shows "p = 0 \<and> t' = t \<or> uint p mod 2 ^ n = 0 \<and> uint (tab_low t) \<le> uint p \<and> uint (tab_low t') = uint p + 2 ^ n
     \<and> uint (tab_low t') \<le> uint (tab_high t) \<and> t' = t\<lparr>tab_low := p + push_bit n 1\<rparr>"
proof -
  let ?p = "ut_align_top (tab_low t) (push_bit n 1)"
  have "0 < (2::int) ^ n" by simp
  then have "uint (tab_low t) + 2 ^ n \<le> 2 ^ 32" using n(2) by linarith
  note a = ut_align_top_spec [OF n(1) this]
  have "uint ?p + uint (push_bit n (1::u32)) < 2 ^ 32" using a(3) n uint_push_bit_1 [OF n(1)] by linarith
  then have s: "uint (?p + push_bit n 1) = uint ?p + 2 ^ n"
    using uint_add_lem [of ?p "push_bit n 1"] uint_push_bit_1 [OF n(1)] by simp
  have "uint ?p mod 2 ^ n = 0" unfolding a(1) by simp
  then show ?thesis using st a(2) s by (auto simp: ut_steal_mem_def Let_def word_le_def split: if_splits)
qed

subsection \<open>The largest contiguous run\<close>

definition ut_adj :: "ut_table \<Rightarrow> int \<Rightarrow> bool" where
  "ut_adj t i \<longleftrightarrow> ut_pend t i = ut_pstart t (i + 1)"

definition run_bytes :: "ut_table \<Rightarrow> int \<Rightarrow> int \<Rightarrow> int" where
  "run_bytes t a b = (\<Sum>k\<in>{a..<b}. 2 ^ the (ut_sizebits t k))"

definition contiguous :: "ut_table \<Rightarrow> int \<Rightarrow> int \<Rightarrow> bool" where
  "contiguous t a b \<longleftrightarrow> 0 \<le> a \<and> a < b \<and> b \<le> tab_count t \<and> (\<forall>k. a \<le> k \<and> k + 1 < b \<longrightarrow> ut_adj t k)"

definition tab_valid :: "ut_table \<Rightarrow> bool" where
  "tab_valid t \<longleftrightarrow> 0 < tab_count t \<and> tab_count t \<le> int (length (tab_map t))
     \<and> list_all (\<lambda>i. ut_pstart t i \<noteq> None \<and> (case ut_sizebits t i of None \<Rightarrow> False | Some sb \<Rightarrow> sb < 32)) [0..tab_count t - 1]
     \<and> run_bytes t 0 (tab_count t) < 2 ^ 32"

lemma tab_validD:
  assumes "tab_valid t" "0 \<le> i" "i < tab_count t"
  obtains s sb where "ut_pstart t i = Some s" "ut_sizebits t i = Some sb" "sb < 32" "ut_pend t i = Some (s + push_bit sb 1)"
  using assms that unfolding tab_valid_def list_all_iff by (fastforce simp: ut_pend_def split: option.splits)

lemma run_bytes_mono:
  assumes "a' \<le> a" "b \<le> b'"
  shows "run_bytes t a b \<le> run_bytes t a' b'"
  unfolding run_bytes_def using assms by (intro sum_mono2) auto

lemma run_bytes_step: "a \<le> i \<Longrightarrow> run_bytes t a (i + 1) = run_bytes t a i + 2 ^ the (ut_sizebits t i)"
proof -
  assume "a \<le> i"
  then have "{a..<i + 1} = insert i {a..<i}" by auto
  then show ?thesis by (simp add: run_bytes_def)
qed

definition run_inv :: "ut_table \<Rightarrow> int \<Rightarrow> run_state \<Rightarrow> bool" where
  "run_inv t i r \<longleftrightarrow> 0 \<le> this_start r \<and> this_start r \<le> i
     \<and> uint (this_size r) = run_bytes t (this_start r) i
     \<and> (\<forall>k. this_start r \<le> k \<and> k < i \<longrightarrow> ut_adj t k)
     \<and> (this_start r = 0 \<or> this_start r = tab_count t \<or> \<not> ut_adj t (this_start r - 1))
     \<and> (i = tab_count t \<longrightarrow> this_start r = i)
     \<and> uint (contig_size r) = run_bytes t (contig_start r) (contig_end r)
     \<and> (contig_start r = contig_end r \<or> contiguous t (contig_start r) (contig_end r))
     \<and> (\<forall>a b. contiguous t a b \<and> b \<le> this_start r \<longrightarrow> run_bytes t a b \<le> uint (contig_size r))"

lemma run_step_inv:
  assumes v: "tab_valid t" and i: "0 \<le> i" "i < tab_count t" and inv: "run_inv t i r"
  shows "\<exists>r'. run_step t i r = Some r' \<and> run_inv t (i + 1) r'"
proof -
  from v i obtain s sb where e: "ut_pstart t i = Some s" "ut_sizebits t i = Some sb" "sb < 32"
    "ut_pend t i = Some (s + push_bit sb 1)" by (rule tab_validD)
  let ?ts = "this_size r + push_bit sb 1"
  have I: "0 \<le> this_start r" "this_start r \<le> i" "uint (this_size r) = run_bytes t (this_start r) i"
    "\<And>k. this_start r \<le> k \<Longrightarrow> k < i \<Longrightarrow> ut_adj t k"
    "this_start r = 0 \<or> this_start r = tab_count t \<or> \<not> ut_adj t (this_start r - 1)"
    "uint (contig_size r) = run_bytes t (contig_start r) (contig_end r)"
    "contig_start r = contig_end r \<or> contiguous t (contig_start r) (contig_end r)"
    "\<And>a b. contiguous t a b \<Longrightarrow> b \<le> this_start r \<Longrightarrow> run_bytes t a b \<le> uint (contig_size r)"
    using inv unfolding run_inv_def by blast+
  have new: "run_bytes t (this_start r) (i + 1) = uint (this_size r) + 2 ^ sb"
    using run_bytes_step [OF I(2), of t] I(3) e(2) by simp
  have "run_bytes t (this_start r) (i + 1) \<le> run_bytes t 0 (tab_count t)" using I(1) i(2) by (intro run_bytes_mono) auto
  then have "uint (this_size r) + uint (push_bit sb (1::u32)) < 2 ^ 32"
    using v new uint_push_bit_1 [OF e(3)] by (simp add: tab_valid_def)
  then have ts: "uint ?ts = run_bytes t (this_start r) (i + 1)"
    using new uint_push_bit_1 [OF e(3)] uint_add_lem [of "this_size r" "push_bit sb 1"] by simp
  define gap where "gap \<longleftrightarrow> i + 1 \<ge> tab_count t \<or> \<not> ut_adj t i"
  have st: "run_step t i r = Some (if gap then
       (if contig_size r < ?ts then \<lparr>contig_start = this_start r, contig_size = ?ts, contig_end = i + 1,
                    this_start = i + 1, this_size = 0\<rparr>
        else r\<lparr>this_start := i + 1, this_size := 0\<rparr>) else r\<lparr>this_size := ?ts\<rparr>)"
  proof (cases "i + 1 \<ge> tab_count t")
    case True
    then show ?thesis using e by (simp add: run_step_def gap_def Let_def)
  next
    case False
    then obtain s' where "ut_pstart t (i + 1) = Some s'" using v i tab_validD [of t "i + 1"] by fastforce
    then show ?thesis using e False by (simp add: run_step_def gap_def Let_def ut_adj_def)
  qed
  have cur: "contiguous t (this_start r) (i + 1)" using I(1,2,4) i(2) by (auto simp: contiguous_def)
  have le: "run_bytes t a b \<le> max (uint (contig_size r)) (uint ?ts)" if c: "contiguous t a b" "b \<le> i + 1" for a b
  proof (cases "b \<le> this_start r")
    case False
    have "this_start r \<le> a"
    proof (rule ccontr)
      assume "\<not> this_start r \<le> a"
      then have "ut_adj t (this_start r - 1)" using c False unfolding contiguous_def by auto
      moreover have "this_start r \<noteq> 0" "this_start r \<noteq> tab_count t"
        using \<open>\<not> this_start r \<le> a\<close> c I(2) i(2) by (auto simp: contiguous_def)
      ultimately show False using I(5) by blast
    qed
    then show ?thesis using run_bytes_mono [of "this_start r" a b "i + 1" t] c ts by simp
  qed (use I(8) [OF c(1)] in simp)
  show ?thesis
  proof (cases gap)
    case False
    have adj: "ut_adj t k" if "this_start r \<le> k" "k \<le> i" for k
      using I(4) [OF that(1)] that(2) False by (cases "k = i") (auto simp: gap_def)
    have "run_inv t (i + 1) (r\<lparr>this_size := ?ts\<rparr>)"
      using I(1,2,5-8) ts adj False unfolding run_inv_def by (auto simp: gap_def)
    then show ?thesis using st False by simp
  next
    case True
    have z: "run_bytes t (i + 1) (i + 1) = 0" by (simp add: run_bytes_def)
    have g: "i + 1 = tab_count t \<or> \<not> ut_adj t i" using True i by (auto simp: gap_def)
    show ?thesis
    proof (cases "contig_size r < ?ts")
      case big: True
      then have "run_inv t (i + 1) \<lparr>contig_start = this_start r, contig_size = ?ts, contig_end = i + 1,
                    this_start = i + 1, this_size = 0\<rparr>"
        using i z g ts cur le unfolding run_inv_def by (auto simp: word_less_def max_def)
      then show ?thesis using st True big by simp
    next
      case small: False
      then have "run_inv t (i + 1) (r\<lparr>this_start := i + 1, this_size := 0\<rparr>)"
        using i z g I(6,7) le unfolding run_inv_def by (auto simp: word_less_def max_def)
      then show ?thesis using st True small by simp
    qed
  qed
qed

lemma run_loop:
  assumes "tab_valid t"
  shows "\<exists>r. for_up 0 (tab_count t) (run_step t) run_init = Some r \<and> run_inv t (tab_count t) r"
proof (rule for_up_total)
  show "0 \<le> tab_count t" using assms by (simp add: tab_valid_def)
  show "run_inv t 0 run_init"
    using assms by (auto simp: run_inv_def run_init_def run_bytes_def contiguous_def tab_valid_def)
qed (use run_step_inv [OF assms] in blast)

lemma copy_down:
  assumes "0 \<le> a" "0 \<le> n" "a + n \<le> int (length m)"
  shows "\<exists>m'. for_up 0 n (\<lambda>i m. do { v \<leftarrow> rd m (a + i); wr m i v }) m = Some m' \<and>
    (length m' = length m \<and> (\<forall>k. 0 \<le> k \<and> k < int (length m) \<longrightarrow> m' ! nat k = (if k < n then m ! nat (a + k) else m ! nat k)))"
proof -
  from shift_loop [of 0 a 0 n m] assms obtain m' where
    "for_up 0 n (\<lambda>j m. do { v \<leftarrow> rd m (j + a); wr m (j + 0) v }) m = Some m'" "length m' = length m"
    "\<forall>k. 0 \<le> k \<and> k < int (length m) \<longrightarrow>
       m' ! nat k = (if 0 + 0 \<le> k \<and> k < n + 0 then m ! nat (k - 0 + a) else m ! nat k)" by auto
  then show ?thesis by (intro exI [of _ m']) (simp add: add.commute)
qed

lemma select_largest_spec:
  assumes v: "tab_valid t"
  shows "\<exists>t' a b. select_largest_contiguous t = Some t' \<and> contiguous t a b
    \<and> (\<forall>a' b'. contiguous t a' b' \<longrightarrow> run_bytes t a' b' \<le> run_bytes t a b)
    \<and> tab_count t' = b - a \<and> tab_bi t' = tab_bi t
    \<and> (\<forall>i. 0 \<le> i \<and> i < b - a \<longrightarrow> rd (tab_map t') i = rd (tab_map t) (a + i))"
proof -
  from run_loop [OF v] obtain r where r: "for_up 0 (tab_count t) (run_step t) run_init = Some r"
    "run_inv t (tab_count t) r" by blast
  let ?a = "contig_start r" and ?b = "contig_end r"
  have max: "run_bytes t a b \<le> run_bytes t ?a ?b" if "contiguous t a b" for a b
  proof -
    have "b \<le> tab_count t" using that by (simp add: contiguous_def)
    then show ?thesis using r(2) that unfolding run_inv_def by auto
  qed
  have n: "0 < tab_count t" "tab_count t \<le> int (length (tab_map t))" using v by (simp_all add: tab_valid_def)
  have "contiguous t 0 1" using n by (auto simp: contiguous_def)
  moreover have "run_bytes t 0 1 = 2 ^ the (ut_sizebits t 0)"
    using run_bytes_step [of 0 0 t] by (simp add: run_bytes_def)
  ultimately have "0 < run_bytes t ?a ?b" using max [of 0 1] zero_less_power [of "2::int"] by (metis less_le_trans zero_less_numeral)
  then have "?a \<noteq> ?b" by (auto simp: run_bytes_def)
  then have c: "contiguous t ?a ?b" using r(2) unfolding run_inv_def by blast
  then have ab: "0 \<le> ?a" "0 \<le> ?b - ?a" "?a + (?b - ?a) \<le> int (length (tab_map t))" using n by (auto simp: contiguous_def)
  from copy_down [OF ab] obtain m where m: "for_up 0 (?b - ?a) (\<lambda>i m. do { v \<leftarrow> rd m (?a + i); wr m i v }) (tab_map t) = Some m"
    "length m = length (tab_map t)" "\<forall>k. 0 \<le> k \<and> k < int (length (tab_map t)) \<longrightarrow>
        m ! nat k = (if k < ?b - ?a then tab_map t ! nat (?a + k) else tab_map t ! nat k)" by auto
  have "select_largest_contiguous t = Some (t\<lparr>tab_map := m, tab_count := ?b - ?a\<rparr>)"
    using r(1) m(1) n ab(2) by (simp add: select_largest_contiguous_def)
  moreover have "rd m i = rd (tab_map t) (?a + i)" if "0 \<le> i" "i < ?b - ?a" for i
    using that m(2,3) ab by (simp add: rd_def)
  ultimately show ?thesis using c max by (intro exI [of _ "t\<lparr>tab_map := m, tab_count := ?b - ?a\<rparr>"] exI [of _ ?a] exI [of _ ?b]) auto
qed

subsection \<open>Properties\<close>

abbreviation tab_example :: ut_table where
  "tab_example \<equiv> \<lparr>tab_bi = \<lparr>untyped_start = 10, untyped_end = 14, deviceUntyped_start = 20, deviceUntyped_end = 21,
      untypedPaddrList = [0x10008000, 0x10000000, 0x10004000, 0x10010000, 0x2000000],
      untypedSizeBitsList = [14, 14, 14, 15, 12]\<rparr>,
     tab_map = [1, 2, 0, 3], tab_count = 4, tab_low = 0x10000000, tab_high = 0x1000C000\<rparr>"

text \<open>
  C6. On a table whose regions are sorted and do not overlap the binary search of
  \<^verbatim>\<open>ut_translate\<close> terminates and returns the same capability and offset as a linear search
  through the table, and turns to the device regions for exactly the addresses that no region
  of the table contains.
\<close>

theorem ut_translate_linear_equiv:
  assumes "tab_sorted t"
  shows "ut_translate t addr = ut_translate_linear t addr"
  unfolding ut_translate_def by (rule ut_search_linear [OF assms]) auto

theorem ut_translate_linear_equiv_witness:
  "tab_sorted tab_example \<and> ut_translate tab_example 0x10005000 = ut_translate_linear tab_example 0x10005000
   \<and> ut_translate_linear tab_example 0x10005000 = Some (Some (12, 0x1000))"
proof -
  have s: "tab_sorted tab_example" by code_simp
  have l: "ut_translate_linear tab_example 0x10005000 = Some (Some (12, 0x1000))" by code_simp
  show ?thesis using ut_translate_linear_equiv [OF s] s l by simp
qed

text \<open>
  C7. \<^verbatim>\<open>_select_largest_contiguous\<close> succeeds on every non-empty table with valid entries whose
  total size fits in a word, and keeps exactly a contiguous run of regions that has the largest
  number of bytes of all contiguous runs.
\<close>

theorem select_largest_contiguous_maximal:
  assumes "tab_valid t"
  shows "\<exists>t' a b. select_largest_contiguous t = Some t' \<and> contiguous t a b
    \<and> (\<forall>a' b'. contiguous t a' b' \<longrightarrow> run_bytes t a' b' \<le> run_bytes t a b)
    \<and> tab_count t' = b - a \<and> tab_bi t' = tab_bi t
    \<and> (\<forall>i. 0 \<le> i \<and> i < b - a \<longrightarrow> rd (tab_map t') i = rd (tab_map t) (a + i))"
  using assms by (rule select_largest_spec)

theorem select_largest_contiguous_maximal_witness:
  "tab_valid tab_example \<and> (\<exists>t' a b. select_largest_contiguous tab_example = Some t' \<and> contiguous tab_example a b
     \<and> tab_count t' = b - a)"
proof -
  have v: "tab_valid tab_example" unfolding tab_valid_def run_bytes_def by code_simp
  show ?thesis using select_largest_contiguous_maximal [OF v] v by blast
qed

text \<open>
  C8. \<^verbatim>\<open>ut_steal_mem\<close> returns 0 and changes nothing, or returns an aligned block between the old
  lower bound and the upper bound of the memory and moves the lower bound to its end, so that a
  later call cannot return overlapping memory. The hypothesis excludes wrap-around at 4G.
\<close>

theorem ut_steal_mem_in_bounds:
  assumes "n < 32" and "uint (tab_low t) + 2 ^ n + 2 ^ n \<le> 2 ^ 32" and "ut_steal_mem n t = (p, t')"
  shows "p = 0 \<and> t' = t \<or> uint p mod 2 ^ n = 0 \<and> uint (tab_low t) \<le> uint p \<and> uint (tab_low t') = uint p + 2 ^ n
     \<and> uint (tab_low t') \<le> uint (tab_high t) \<and> t' = t\<lparr>tab_low := p + push_bit n 1\<rparr>"
  using assms by (rule ut_steal_mem_spec)

theorem ut_steal_mem_in_bounds_witness:
  "\<exists>t'. ut_steal_mem 12 tab_example = (0x10000000, t') \<and> uint (tab_low t') = 0x10001000"
proof -
  have "ut_steal_mem 12 tab_example = (0x10000000, tab_example\<lparr>tab_low := 0x10001000\<rparr>)" by code_simp
  from ut_steal_mem_in_bounds [OF _ _ this] this show ?thesis by simp
qed

end
