(* ===== verification/Clock.thy ===== *)
theory Clock
  imports SOS_Prelude "HOL-Library.Multiset"
begin

text \<open>
  \<^verbatim>\<open>dev/clock.c\<close>: the timer driver on the two EPIT timers of the board. The callback and its
  argument are one value of type \<open>'d\<close>; what a callback does to the driver when it runs is a
  function argument. The answers of the kernel to the interrupt calls are arguments too.
\<close>

subsection \<open>Constants and state\<close>

abbreviation (input) CLOCK_R_OK :: int where "CLOCK_R_OK \<equiv> 0"
abbreviation (input) CLOCK_R_UINT :: int where "CLOCK_R_UINT \<equiv> - 1"
abbreviation (input) CLOCK_R_FAIL :: int where "CLOCK_R_FAIL \<equiv> - 3"
abbreviation (input) CLOCK_N_TIMERS :: int where "CLOCK_N_TIMERS \<equiv> 64"
abbreviation (input) CLOCK_INT_MICROSEC :: u64 where "CLOCK_INT_MICROSEC \<equiv> 100000"
abbreviation (input) CLOCK_SPEED :: u64 where "CLOCK_SPEED \<equiv> 66"
abbreviation (input) CLOCK_LOAD_VALUE :: u32 where "CLOCK_LOAD_VALUE \<equiv> 6600000"

abbreviation (input) EPIT_CR_CLKSRC :: u32 where "EPIT_CR_CLKSRC \<equiv> 0x1000000"
abbreviation (input) EPIT_CR_IOVW :: u32 where "EPIT_CR_IOVW \<equiv> 0x20000"
abbreviation (input) EPIT_CR_SWR :: u32 where "EPIT_CR_SWR \<equiv> 0x10000"
abbreviation (input) EPIT_CR_PRESCALER :: u32 where "EPIT_CR_PRESCALER \<equiv> 0"
abbreviation (input) EPIT_CR_RLD :: u32 where "EPIT_CR_RLD \<equiv> 8"
abbreviation (input) EPIT_CR_OCIEN :: u32 where "EPIT_CR_OCIEN \<equiv> 4"
abbreviation (input) EPIT_CR_ENMOD :: u32 where "EPIT_CR_ENMOD \<equiv> 2"
abbreviation (input) EPIT_CR_EN :: u32 where "EPIT_CR_EN \<equiv> 1"

record 'd timer =
  tm_id :: int
  tm_endtime :: u64
  tm_data :: 'd
  tm_registered :: bool

record clock_register =
  cr :: u32
  sr :: u32
  lr :: u32
  cmpr :: u32
  cnr :: u32

record 'd clock =
  jiffy :: u64
  ntimers :: int
  timers :: "'d timer list"
  clk_initialised :: bool
  irq_handler1 :: u32
  irq_handler2 :: u32
  epit1 :: clock_register
  epit2 :: clock_register

subsection \<open>Operations\<close>

definition tswap :: "'a list \<Rightarrow> int \<Rightarrow> int \<Rightarrow> 'a list option" where
  "tswap ts i j = do {
     tmp \<leftarrow> rd ts i;
     v \<leftarrow> rd ts j;
     ts1 \<leftarrow> wr ts i v;
     wr ts1 j tmp }"

text \<open>The three calls that set up an interrupt handler panic on a failure.\<close>

definition enable_irq :: "u32 \<Rightarrow> int \<Rightarrow> int \<Rightarrow> u32 option" where
  "enable_irq cap set_err ack_err = do {
     c_assert (cap \<noteq> 0);
     c_assert (set_err = 0);
     c_assert (ack_err = 0);
     Some cap }"

text \<open>The busy wait ends when the device clears the reset bit; \<open>resets\<close> says whether it does.\<close>

definition setup_epit :: "bool \<Rightarrow> clock_register \<Rightarrow> clock_register option" where
  "setup_epit resets e = do {
     c_assert resets;
     Some (e\<lparr>cr := EPIT_CR_CLKSRC OR EPIT_CR_PRESCALER OR EPIT_CR_IOVW OR EPIT_CR_RLD OR EPIT_CR_ENMOD OR EPIT_CR_OCIEN\<rparr>) }"

definition time_stamp :: "'d clock \<Rightarrow> u64" where
  "time_stamp c =
     (if \<not> clk_initialised c then - 1
      else let cnr_diff = ucast (CLOCK_LOAD_VALUE - cnr (epit1 c)) :: u64;
               offset = (CLOCK_INT_MICROSEC * cnr_diff) div ucast CLOCK_LOAD_VALUE
           in CLOCK_INT_MICROSEC * (jiffy c + ucast (sr (epit1 c))) + offset)"

definition update_var_timer :: "'d clock \<Rightarrow> 'd clock option" where
  "update_var_timer c = do {
     let cur_time = time_stamp c;
     t \<leftarrow> rd (timers c) 0;
     Some (if tm_registered t \<and> tm_endtime t \<le> cur_time + CLOCK_INT_MICROSEC
           then c\<lparr>epit2 := (epit2 c)\<lparr>cr := cr (epit2 c) OR EPIT_CR_EN,
                                     lr := ucast ((tm_endtime t - cur_time) * CLOCK_SPEED)\<rparr>\<rparr>
           else c\<lparr>epit2 := (epit2 c)\<lparr>cr := cr (epit2 c) AND NOT EPIT_CR_EN\<rparr>\<rparr>) }"

definition stop_timer :: "int \<Rightarrow> int \<Rightarrow> int \<Rightarrow> int \<Rightarrow> 'd clock \<Rightarrow> (int \<times> 'd clock) option" where
  "stop_timer clear1 del1 clear2 del2 c =
     (if \<not> clk_initialised c then Some (CLOCK_R_UINT, c)
      else do {
        let c1 = c\<lparr>epit1 := (epit1 c)\<lparr>cr := cr (epit1 c) AND NOT EPIT_CR_EN\<rparr>\<rparr>;
        c_assert (clear1 = 0);
        c_assert (del1 = 0);
        let c2 = c1\<lparr>epit2 := (epit2 c1)\<lparr>cr := cr (epit2 c1) AND NOT EPIT_CR_EN\<rparr>\<rparr>;
        c_assert (clear2 = 0);
        c_assert (del2 = 0);
        Some (CLOCK_R_OK, c2\<lparr>clk_initialised := False\<rparr>) })"

text \<open>
  \<open>k\<close> gives the answers of the kernel in the order of the calls; \<open>dev1\<close> and \<open>dev2\<close> are the
  registers of the two devices when they are mapped.
\<close>

definition start_timer :: "(nat \<Rightarrow> int) \<Rightarrow> u32 \<Rightarrow> u32 \<Rightarrow> bool \<Rightarrow> clock_register \<Rightarrow> clock_register \<Rightarrow> 'd clock
    \<Rightarrow> (int \<times> 'd clock) option" where
  "start_timer k cap1 cap2 resets dev1 dev2 c0 = do {
     c \<leftarrow> (if clk_initialised c0 then map_option snd (stop_timer (k 0) (k 1) (k 2) (k 3) c0) else Some c0);
     ts \<leftarrow> for_up 0 CLOCK_N_TIMERS (\<lambda>i ts. do {
             t \<leftarrow> rd ts i;
             wr ts i (t\<lparr>tm_id := i + 1, tm_registered := False\<rparr>) }) (timers c);
     h1 \<leftarrow> enable_irq cap1 (k 4) (k 5);
     e1 \<leftarrow> setup_epit resets dev1;
     h2 \<leftarrow> enable_irq cap2 (k 6) (k 7);
     e2 \<leftarrow> setup_epit resets dev2;
     Some (CLOCK_R_OK, c\<lparr>ntimers := 0, jiffy := 0, timers := ts,
        irq_handler1 := h1, epit1 := e1\<lparr>cr := cr e1 OR EPIT_CR_EN, lr := CLOCK_LOAD_VALUE\<rparr>,
        irq_handler2 := h2, epit2 := e2\<lparr>cr := cr e2 AND NOT EPIT_CR_EN\<rparr>,
        clk_initialised := True\<rparr>) }"

text \<open>The new timer sinks from the last slot to its place.\<close>

fun sink :: "nat \<Rightarrow> 'd timer list \<Rightarrow> 'd timer list option" where
  "sink 0 ts = Some ts"
| "sink (Suc i) ts = do {
     a \<leftarrow> rd ts (int (Suc i));
     b \<leftarrow> rd ts (int i);
     if tm_endtime a < tm_endtime b
     then do { ts' \<leftarrow> tswap ts (int (Suc i)) (int i); sink i ts' }
     else Some ts }"

definition register_timer :: "u64 \<Rightarrow> 'd \<Rightarrow> 'd clock \<Rightarrow> (u32 \<times> 'd clock) option" where
  "register_timer delay data c =
     (if \<not> clk_initialised c then Some (word_of_int CLOCK_R_UINT, c)
      else do {
        c_assert (0 \<le> ntimers c \<and> ntimers c \<le> CLOCK_N_TIMERS);
        if ntimers c = CLOCK_N_TIMERS then Some (0, c)
        else do {
          let cur_time = time_stamp c;
          t \<leftarrow> rd (timers c) (ntimers c);
          ts1 \<leftarrow> wr (timers c) (ntimers c)
                   (t\<lparr>tm_endtime := cur_time + delay, tm_data := data, tm_registered := True\<rparr>);
          let n = ntimers c + 1;
          ts2 \<leftarrow> sink (nat (n - 1)) ts1;
          c' \<leftarrow> update_var_timer (c\<lparr>timers := ts2, ntimers := n\<rparr>);
          c_assert (0 \<le> ntimers c' \<and> ntimers c' \<le> CLOCK_N_TIMERS);
          Some (word_of_int (tm_id t), c') } })"

function find_timer :: "'d timer list \<Rightarrow> int \<Rightarrow> u32 \<Rightarrow> int \<Rightarrow> int option" where
  "find_timer ts n i' i =
     (if i < n then do {
        t \<leftarrow> rd ts i;
        if word_of_int (tm_id t) = i' \<and> tm_registered t then Some i else find_timer ts n i' (i + 1) }
      else Some i)"
  by pat_completeness auto
termination
  by (relation "measure (\<lambda>(ts, n, i', i). nat (n - i))") auto

declare find_timer.simps [simp del]

definition remove_timer :: "u32 \<Rightarrow> 'd clock \<Rightarrow> (int \<times> 'd clock) option" where
  "remove_timer tid c =
     (if \<not> clk_initialised c then Some (CLOCK_R_UINT, c)
      else do {
        c_assert (0 \<le> ntimers c \<and> ntimers c \<le> CLOCK_N_TIMERS);
        if tid = 0 \<or> tid > 64 then Some (CLOCK_R_FAIL, c)
        else do {
          i \<leftarrow> find_timer (timers c) (ntimers c) tid 0;
          if i = ntimers c then Some (CLOCK_R_FAIL, c)
          else do {
            tmp \<leftarrow> rd (timers c) i;
            ts1 \<leftarrow> for_up i (ntimers c - 1) (\<lambda>k ts. do { v \<leftarrow> rd ts (k + 1); wr ts k v }) (timers c);
            ts2 \<leftarrow> wr ts1 (ntimers c - 1) (tmp\<lparr>tm_registered := False\<rparr>);
            c' \<leftarrow> update_var_timer (c\<lparr>timers := ts2, ntimers := ntimers c - 1\<rparr>);
            c_assert (0 \<le> ntimers c' \<and> ntimers c' \<le> CLOCK_N_TIMERS);
            Some (CLOCK_R_OK, c') } } })"

text \<open>
  \<open>run tid d c\<close> is what the callback \<open>d\<close> does to the driver when timer \<open>tid\<close> fires (it may
  register timers again). The loop returns the index of the first timer that has not expired
  and the list of the callbacks that ran, in order.
\<close>

partial_function (option) fire_loop ::
    "(int \<Rightarrow> 'd \<Rightarrow> 'd clock \<Rightarrow> 'd clock option) \<Rightarrow> u64 \<Rightarrow> int \<Rightarrow> (int \<times> 'd) list \<Rightarrow> 'd clock
       \<Rightarrow> (int \<times> (int \<times> 'd) list \<times> 'd clock) option" where
  "fire_loop run cur_time i fired c =
     (if i < ntimers c then do {
        t \<leftarrow> rd (timers c) i;
        if tm_registered t \<and> tm_endtime t \<le> cur_time then do {
          c1 \<leftarrow> run (tm_id t) (tm_data t) c;
          t1 \<leftarrow> rd (timers c1) i;
          ts \<leftarrow> wr (timers c1) i (t1\<lparr>tm_registered := False\<rparr>);
          fire_loop run cur_time (i + 1) (fired @ [(tm_id t, tm_data t)]) (c1\<lparr>timers := ts\<rparr>) }
        else Some (i, fired, c) }
      else Some (i, fired, c))"

definition check_timeout :: "(int \<Rightarrow> 'd \<Rightarrow> 'd clock \<Rightarrow> 'd clock option) \<Rightarrow> u64 \<Rightarrow> 'd clock
    \<Rightarrow> ((int \<times> 'd) list \<times> 'd clock) option" where
  "check_timeout run cur_time c0 = do {
     (i, fired, c) \<leftarrow> fire_loop run cur_time 0 [] c0;
     if i > 0 then do {
       ts \<leftarrow> for_up i (ntimers c) (\<lambda>j ts. do { v \<leftarrow> rd ts j; wr ts (j - i) v }) (timers c);
       Some (fired, c\<lparr>timers := ts, ntimers := ntimers c - i\<rparr>) }
     else Some (fired, c) }"

text \<open>Writing 1 to the status register of a device clears it.\<close>

definition timer_interrupt :: "(int \<Rightarrow> 'd \<Rightarrow> 'd clock \<Rightarrow> 'd clock option) \<Rightarrow> int \<Rightarrow> int \<Rightarrow> 'd clock
    \<Rightarrow> (int \<times> (int \<times> 'd) list \<times> 'd clock) option" where
  "timer_interrupt run ack1 ack2 c =
     (if \<not> clk_initialised c then Some (CLOCK_R_UINT, [], c)
      else do {
        let cur_time = time_stamp c;
        (fired, c1) \<leftarrow> check_timeout run cur_time c;
        c2 \<leftarrow> update_var_timer c1;
        c3 \<leftarrow> (if sr (epit1 c2) \<noteq> 0 then do {
                 c_assert (ack1 = 0);
                 Some (c2\<lparr>jiffy := jiffy c2 + 1, epit1 := (epit1 c2)\<lparr>sr := 0\<rparr>\<rparr>) }
               else Some c2);
        c4 \<leftarrow> (if sr (epit2 c3) \<noteq> 0 then do {
                 c_assert (ack2 = 0);
                 Some (c3\<lparr>epit2 := (epit2 c3)\<lparr>sr := 0\<rparr>\<rparr>) }
               else Some c3);
        Some (CLOCK_R_OK, fired, c4) })"

subsection \<open>The queue of active timers\<close>

definition active :: "'d clock \<Rightarrow> 'd timer list" where
  "active c = take (nat (ntimers c)) (timers c)"

definition clk_inv :: "'d clock \<Rightarrow> bool" where
  "clk_inv c \<longleftrightarrow> clk_initialised c \<and> length (timers c) = 64 \<and> 0 \<le> ntimers c \<and> ntimers c \<le> 64
     \<and> sorted (map tm_endtime (active c)) \<and> list_all tm_registered (active c)"

lemma tswap_adjacent:
  assumes "Suc i < length ts"
  shows "tswap ts (int (Suc i)) (int i) = Some (ts[Suc i := ts ! i, i := ts ! Suc i])"
proof -
  have "rd ts (int (Suc i)) = Some (ts ! Suc i)" using assms by (intro rd_of_nat)
  moreover have "rd ts (int i) = Some (ts ! i)" using assms by (intro rd_of_nat) simp
  ultimately show ?thesis using assms by (simp add: tswap_def wr_def nat_add_distrib del: of_nat_Suc)
qed

lemma sorted_append_ge: "sorted (xs @ [x]) \<longleftrightarrow> sorted xs \<and> (\<forall>y\<in>set xs. y \<le> x)"
  by (auto simp: sorted_append)

lemma sink_spec:
  assumes "i < length ts" "sorted (map tm_endtime (take i ts))"
  shows "\<exists>ts'. sink i ts = Some ts' \<and> length ts' = length ts \<and> sorted (map tm_endtime (take (Suc i) ts'))
    \<and> mset (take (Suc i) ts') = mset (take (Suc i) ts) \<and> drop (Suc i) ts' = drop (Suc i) ts"
  using assms
proof (induction i arbitrary: ts)
  case 0
  then show ?case by (cases ts) auto
next
  case (Suc i)
  let ?a = "ts ! Suc i" and ?b = "ts ! i"
  have rd: "rd ts (int (Suc i)) = Some ?a" "rd ts (int i) = Some ?b"
    using Suc.prems(1) by (auto intro: rd_of_nat simp del: of_nat_Suc)
  have tk: "take (Suc (Suc i)) ts = take i ts @ [?b, ?a]" "take (Suc i) ts = take i ts @ [?b]"
    using Suc.prems(1) by (simp_all add: take_Suc_conv_app_nth)
  have srt: "sorted (map tm_endtime (take i ts))" "\<forall>y\<in>set (take i ts). tm_endtime y \<le> tm_endtime ?b"
    using Suc.prems(2) unfolding tk(2) by (auto simp: sorted_append_ge)
  show ?case
  proof (cases "tm_endtime ?a < tm_endtime ?b")
    case False
    then have "sorted (map tm_endtime (take (Suc (Suc i)) ts))"
      using Suc.prems(2) srt unfolding tk by (auto simp: sorted_append)
    moreover have "sink (Suc i) ts = Some ts" using False rd by simp
    ultimately show ?thesis by simp
  next
    case True
    let ?ts = "ts[Suc i := ?b, i := ?a]"
    have tk': "take i ?ts = take i ts" "take (Suc i) ?ts = take i ts @ [?a]" "?ts ! Suc i = ?b"
      using Suc.prems(1) by (simp_all add: take_Suc_conv_app_nth)
    from Suc.IH [of ?ts] Suc.prems(1) srt(1) tk'(1) obtain ts' where ts': "sink i ?ts = Some ts'"
      "length ts' = length ts" "sorted (map tm_endtime (take (Suc i) ts'))"
      "mset (take (Suc i) ts') = mset (take (Suc i) ?ts)" "drop (Suc i) ts' = drop (Suc i) ?ts" by auto
    have nth: "ts' ! Suc i = ?b"
      using ts'(2,5) Suc.prems(1) tk'(3) by (metis Cons_nth_drop_Suc length_list_update list.inject)
    have tl: "take (Suc (Suc i)) ts' = take (Suc i) ts' @ [?b]"
      using ts'(2) Suc.prems(1) nth by (simp add: take_Suc_conv_app_nth)
    have set: "set (take (Suc i) ts') = insert ?a (set (take i ts))"
      using arg_cong [OF ts'(4), of set_mset] tk'(2) by simp
    have "sorted (map tm_endtime (take (Suc (Suc i)) ts'))"
      unfolding tl using ts'(3) srt(2) True set by (auto simp: sorted_append_ge)
    moreover have "mset (take (Suc (Suc i)) ts') = mset (take (Suc (Suc i)) ts)"
      unfolding tl using ts'(4) tk(1) tk'(2) by simp
    moreover have "drop (Suc (Suc i)) ts' = drop (Suc (Suc i)) ts"
      using ts'(2,5) by (metis drop_Suc drop_update_cancel lessI less_SucI tl_drop)
    moreover have "sink (Suc i) ts = Some ts'"
      using rd True tswap_adjacent [OF Suc.prems(1)] ts'(1) by simp
    ultimately show ?thesis using ts'(2) by simp
  qed
qed

lemma update_var_timer_frame:
  assumes "length (timers c) = 64"
  shows "\<exists>c'. update_var_timer c = Some c' \<and> timers c' = timers c \<and> ntimers c' = ntimers c
    \<and> clk_initialised c' = clk_initialised c \<and> jiffy c' = jiffy c \<and> epit1 c' = epit1 c"
  using assms by (auto simp: update_var_timer_def rd_def Let_def)

lemma register_timer_spec:
  assumes inv: "clk_inv c" and n: "ntimers c < 64"
  defines "t \<equiv> timers c ! nat (ntimers c)"
  shows "\<exists>c'. register_timer delay d c = Some (word_of_int (tm_id t), c') \<and> clk_inv c'
    \<and> mset (active c') = add_mset (t\<lparr>tm_endtime := time_stamp c + delay, tm_data := d, tm_registered := True\<rparr>) (mset (active c))
    \<and> ntimers c' = ntimers c + 1"
proof -
  define i where "i = nat (ntimers c)"
  have i: "ntimers c = int i" "i < 64" "length (timers c) = 64" using inv n by (auto simp: clk_inv_def i_def)
  let ?t = "t\<lparr>tm_endtime := time_stamp c + delay, tm_data := d, tm_registered := True\<rparr>"
  let ?ts = "(timers c)[i := ?t]"
  have act: "active c = take i (timers c)" by (simp add: active_def i(1))
  have "i < length ?ts" "sorted (map tm_endtime (take i ?ts))" using i inv act by (simp_all add: clk_inv_def)
  from sink_spec [OF this] obtain ts' where ts': "sink i ?ts = Some ts'" "length ts' = 64"
    "sorted (map tm_endtime (take (Suc i) ts'))" "mset (take (Suc i) ts') = mset (take (Suc i) ?ts)" using i by auto
  from update_var_timer_frame [of "c\<lparr>timers := ts', ntimers := ntimers c + 1\<rparr>"] ts'(2) obtain c' where
    c': "update_var_timer (c\<lparr>timers := ts', ntimers := ntimers c + 1\<rparr>) = Some c'" "timers c' = ts'"
      "ntimers c' = ntimers c + 1" "clk_initialised c' = clk_initialised c" by auto
  have "register_timer delay d c = Some (word_of_int (tm_id t), c')"
    using inv i ts'(1) c' by (simp add: register_timer_def clk_inv_def t_def Let_def)
  moreover have act': "active c' = take (Suc i) ts'" using c' i by (simp add: active_def nat_add_distrib)
  have m: "mset (active c') = add_mset ?t (mset (active c))"
    unfolding act' ts'(4) act using i by (simp add: take_Suc_conv_app_nth)
  moreover have "set (active c') = insert ?t (set (active c))" using arg_cong [OF m, of set_mset] by simp
  then have "clk_inv c'" using inv c' ts' i act' by (auto simp: clk_inv_def list_all_iff)
  ultimately show ?thesis using c'(3) by blast
qed

definition timer_match :: "u32 \<Rightarrow> 'd timer \<Rightarrow> bool" where
  "timer_match tid t \<longleftrightarrow> word_of_int (tm_id t) = tid \<and> tm_registered t"

lemma find_timer_step:
  "i < n \<Longrightarrow> rd ts i = Some t \<Longrightarrow> find_timer ts n tid i =
     (if timer_match tid t then Some i else find_timer ts n tid (i + 1))"
  by (subst find_timer.simps) (simp add: timer_match_def)

lemma find_timer_end: "\<not> i < n \<Longrightarrow> find_timer ts n tid i = Some i"
  by (subst find_timer.simps) simp

lemma find_timer_spec:
  "0 \<le> i \<Longrightarrow> i \<le> n \<Longrightarrow> n \<le> int (length ts) \<Longrightarrow>
   \<exists>k. find_timer ts n tid i = Some k \<and> i \<le> k \<and> k \<le> n
     \<and> (\<forall>l. i \<le> l \<and> l < k \<longrightarrow> \<not> timer_match tid (ts ! nat l))
     \<and> (k < n \<longrightarrow> timer_match tid (ts ! nat k))"
proof (induction "nat (n - i)" arbitrary: i)
  case 0
  then have "i = n" by simp
  then show ?case by (intro exI [of _ i]) (auto simp: find_timer_end)
next
  case (Suc m)
  then have lt: "i < n" by simp
  have r: "rd ts i = Some (ts ! nat i)" using Suc.prems lt by simp
  note step = find_timer_step [OF lt r, of tid]
  show ?case
  proof (cases "timer_match tid (ts ! nat i)")
    case True
    then have "find_timer ts n tid i = Some i" unfolding step by (rule if_P)
    moreover have "\<forall>l. i \<le> l \<and> l < i \<longrightarrow> \<not> timer_match tid (ts ! nat l)"
      by (intro allI impI, elim conjE) linarith
    ultimately show ?thesis using True lt by (intro exI [of _ i] conjI) simp_all
  next
    case False
    have "m = nat (n - (i + 1))" "0 \<le> i + 1" "i + 1 \<le> n" using Suc.hyps(2) Suc.prems lt by simp_all
    from Suc.hyps(1) [OF this Suc.prems(3)] obtain k where k: "find_timer ts n tid (i + 1) = Some k"
      "i + 1 \<le> k" "k \<le> n" "\<forall>l. i + 1 \<le> l \<and> l < k \<longrightarrow> \<not> timer_match tid (ts ! nat l)"
      "k < n \<longrightarrow> timer_match tid (ts ! nat k)" by blast
    have "\<forall>l. i \<le> l \<and> l < k \<longrightarrow> \<not> timer_match tid (ts ! nat l)"
      by (rule iffD2 [OF all_int_step], rule conjI, rule impI, rule False, rule k(4))
    moreover have "find_timer ts n tid i = Some k" using k(1) unfolding step if_not_P [OF False] .
    ultimately show ?thesis using k(2,3,5) by (intro exI [of _ k]) simp
  qed
qed

lemma sorted_remove:
  assumes "sorted (map f xs)"
  shows "sorted (map f (take i xs @ drop (Suc i) xs))"
proof (cases "i < length xs")
  case True
  then have "xs = take i xs @ xs ! i # drop (Suc i) xs" by (rule id_take_nth_drop)
  then have "sorted (map f (take i xs @ xs ! i # drop (Suc i) xs))" using assms by simp
  then show ?thesis by (auto simp: sorted_append)
qed (use assms in simp)

lemma remove_timer_spec:
  assumes inv: "clk_inv c" and tid: "tid \<noteq> 0" "tid \<le> 64"
  shows "(\<forall>t\<in>set (active c). \<not> timer_match tid t) \<and> remove_timer tid c = Some (CLOCK_R_FAIL, c) \<or>
    (\<exists>i c'. i < length (active c) \<and> timer_match tid (active c ! i) \<and> (\<forall>l<i. \<not> timer_match tid (active c ! l))
       \<and> remove_timer tid c = Some (CLOCK_R_OK, c') \<and> clk_inv c'
       \<and> active c' = take i (active c) @ drop (Suc i) (active c) \<and> ntimers c' = ntimers c - 1)"
proof -
  define n where "n = nat (ntimers c)"
  have n: "ntimers c = int n" "n \<le> 64" "length (timers c) = 64" "clk_initialised c" using inv by (auto simp: clk_inv_def n_def)
  have act: "active c = take n (timers c)" by (simp add: active_def n_def)
  from find_timer_spec [of 0 "int n" "timers c" tid] n obtain k where k: "find_timer (timers c) (int n) tid 0 = Some k"
    "0 \<le> k" "k \<le> int n" "\<forall>l. 0 \<le> l \<and> l < k \<longrightarrow> \<not> timer_match tid (timers c ! nat l)"
    "k < int n \<longrightarrow> timer_match tid (timers c ! nat k)" by auto
  have lt: "\<not> timer_match tid (timers c ! l)" if "int l < k" for l using k(4) that by (metis nat_int of_nat_0_le_iff)
  show ?thesis
  proof (cases "k = int n")
    case True
    then have "\<forall>t\<in>set (active c). \<not> timer_match tid t" using lt n by (auto simp: act in_set_conv_nth)
    moreover have "remove_timer tid c = Some (CLOCK_R_FAIL, c)"
      using n tid k(1) True by (simp add: remove_timer_def)
    ultimately show ?thesis by blast
  next
    case False
    define i where "i = nat k"
    have i: "k = int i" "i < n" using k(2,3) False by (auto simp: i_def)
    let ?tmp = "timers c ! i"
    from shift_loop [of 0 1 "int i" "int n - 1" "timers c"] i n obtain m where
      m: "for_up (int i) (int n - 1) (\<lambda>k ts. do { v \<leftarrow> rd ts (k + 1); wr ts k v }) (timers c) = Some m" "length m = 64"
        "\<And>l. 0 \<le> l \<Longrightarrow> l < 64 \<Longrightarrow> m ! nat l = (if int i \<le> l \<and> l < int n - 1 then timers c ! nat (l + 1) else timers c ! nat l)"
      by auto
    let ?ts = "m[n - 1 := ?tmp\<lparr>tm_registered := False\<rparr>]"
    from update_var_timer_frame [of "c\<lparr>timers := ?ts, ntimers := int n - 1\<rparr>"] m(2) obtain c' where
      c': "update_var_timer (c\<lparr>timers := ?ts, ntimers := int n - 1\<rparr>) = Some c'" "timers c' = ?ts"
        "ntimers c' = int n - 1" "clk_initialised c'" using n by auto
    have "wr m (int n - 1) (?tmp\<lparr>tm_registered := False\<rparr>) = Some ?ts"
      using m(2) n i by (simp add: wr_def nat_diff_distrib)
    then have rm: "remove_timer tid c = Some (CLOCK_R_OK, c')"
      using n tid k(1) i m(1) c' by (simp add: remove_timer_def)
    have act': "active c' = take i (active c) @ drop (Suc i) (active c)"
    proof (rule nth_equalityI)
      show "length (active c') = length (take i (active c) @ drop (Suc i) (active c))"
        using c' m(2) n i by (simp add: active_def act nat_diff_distrib)
      fix l assume "l < length (active c')"
      then have l: "l < n - 1" using c' m(2) n by (simp add: active_def nat_diff_distrib)
      then have "active c' ! l = m ! l" using c' by (simp add: active_def nat_diff_distrib)
      also have "\<dots> = (if i \<le> l then timers c ! Suc l else timers c ! l)"
        using m(3) [of "int l"] l n by (auto simp: nat_add_distrib)
      also have "\<dots> = (take i (active c) @ drop (Suc i) (active c)) ! l"
        using l i n by (auto simp: act nth_append min_def)
      finally show "active c' ! l = (take i (active c) @ drop (Suc i) (active c)) ! l" .
    qed
    have "clk_inv c'" unfolding clk_inv_def act'
      using inv c' m(2) n i sorted_remove [of tm_endtime "active c" i]
      by (auto simp: clk_inv_def list_all_iff dest: in_set_takeD in_set_dropD)
    moreover have "timer_match tid (active c ! i)" "\<forall>l<i. \<not> timer_match tid (active c ! l)"
      using k(5) i lt by (auto simp: act)
    moreover have "i < length (active c)" using i n by (simp add: act)
    ultimately show ?thesis using rm act' c'(3) n(1) by (intro disjI2 exI [of _ i] exI [of _ c']) simp
  qed
qed

abbreviation expired :: "u64 \<Rightarrow> 'd timer \<Rightarrow> bool" where
  "expired now t \<equiv> tm_endtime t \<le> now"

abbreviation callback_of :: "'d timer \<Rightarrow> int \<times> 'd" where
  "callback_of t \<equiv> (tm_id t, tm_data t)"

lemma fire_loop_spec:
  fixes now :: u64
  assumes quiet: "\<And>i d c. run i d c = Some c"
    and "length (timers c) = 64" "ntimers c = int n" "i \<le> n" "n \<le> 64"
    and "\<And>l. i \<le> l \<Longrightarrow> l < n \<Longrightarrow> tm_registered (timers c ! l)"
  defines "xs \<equiv> takeWhile (expired now) (drop i (take n (timers c)))"
  shows "\<exists>ts. fire_loop run now (int i) fired c = Some (int (i + length xs), fired @ map callback_of xs, c\<lparr>timers := ts\<rparr>)
     \<and> length ts = 64 \<and> (\<forall>l. i + length xs \<le> l \<longrightarrow> ts ! l = timers c ! l)"
  using assms(2-6) unfolding xs_def
proof (induction "n - i" arbitrary: i c fired)
  case 0
  then have "i = n" by simp
  then show ?case using 0 by (intro exI [of _ "timers c"]) (simp add: fire_loop.simps)
next
  case (Suc m)
  let ?t = "timers c ! i"
  have lt: "i < n" "i < 64" using Suc by simp_all
  have r: "rd (timers c) (int i) = Some ?t" "tm_registered ?t" using lt Suc.prems by simp_all
  have d: "drop i (take n (timers c)) = ?t # drop (Suc i) (take n (timers c))"
    using lt Suc.prems by (subst Cons_nth_drop_Suc [symmetric]) simp_all
  show ?case
  proof (cases "expired now ?t")
    case False
    then show ?thesis using lt r d Suc.prems by (intro exI [of _ "timers c"]) (simp add: fire_loop.simps)
  next
    case True
    let ?ts = "(timers c)[i := ?t\<lparr>tm_registered := False\<rparr>]"
    let ?c = "c\<lparr>timers := ?ts\<rparr>"
    have d': "drop (Suc i) (take n ?ts) = drop (Suc i) (take n (timers c))"
      by (simp add: take_update_swap)
    have "m = n - Suc i" "length (timers ?c) = 64" "ntimers ?c = int n" "Suc i \<le> n"
      using Suc.hyps(2) Suc.prems lt by simp_all
    moreover have "tm_registered (timers ?c ! l)" if "Suc i \<le> l" "l < n" for l
      using Suc.prems(5) [of l] that by simp
    ultimately obtain ts where ts:
      "fire_loop run now (int (Suc i)) (fired @ [callback_of ?t]) ?c =
         Some (int (Suc i + length (takeWhile (expired now) (drop (Suc i) (take n (timers ?c))))),
           (fired @ [callback_of ?t]) @ map callback_of (takeWhile (expired now) (drop (Suc i) (take n (timers ?c)))),
           ?c\<lparr>timers := ts\<rparr>)" "length ts = 64"
      "\<forall>l. Suc i + length (takeWhile (expired now) (drop (Suc i) (take n (timers ?c)))) \<le> l \<longrightarrow> ts ! l = timers ?c ! l"
      using Suc.hyps(1) [of "Suc i" ?c "fired @ [callback_of ?t]"] Suc.prems(4) by blast
    have w: "wr (timers c) (int i) (?t\<lparr>tm_registered := False\<rparr>) = Some ?ts" using lt Suc.prems(1) by simp
    have "fire_loop run now (int i) fired c = fire_loop run now (int (Suc i)) (fired @ [callback_of ?t]) ?c"
      using lt r w True quiet Suc.prems(2) by (subst fire_loop.simps) (simp add: add.commute)
    then show ?thesis using ts True unfolding d by (intro exI [of _ ts]) (simp add: d')
  qed
qed

lemma check_timeout_spec:
  assumes quiet: "\<And>i d c. run i d c = Some c" and inv: "clk_inv c"
  shows "\<exists>c'. check_timeout run now c = Some (map callback_of (takeWhile (expired now) (active c)), c')
    \<and> clk_inv c' \<and> active c' = dropWhile (expired now) (active c)"
proof -
  define n where "n = nat (ntimers c)"
  have n: "ntimers c = int n" "n \<le> 64" "length (timers c) = 64" "clk_initialised c" using inv by (auto simp: clk_inv_def n_def)
  have act: "active c = take n (timers c)" by (simp add: active_def n_def)
  have reg: "tm_registered (timers c ! l)" if "l < n" for l
    using inv that n unfolding clk_inv_def act list_all_length by simp
  define xs where "xs = takeWhile (expired now) (active c)"
  define e where "e = length xs"
  from fire_loop_spec [where run = run and i = 0 and now = now and fired = "[]", OF quiet n(3,1) _ n(2)] reg obtain ts where
    ts: "fire_loop run now 0 [] c = Some (int e, map callback_of xs, c\<lparr>timers := ts\<rparr>)" "length ts = 64"
      "\<forall>l\<ge>e. ts ! l = timers c ! l" by (auto simp: act e_def xs_def)
  have e: "e \<le> n" using length_takeWhile_le [of "expired now" "active c"] n unfolding e_def xs_def act by simp
  have dw: "dropWhile (expired now) (active c) = drop e (active c)"
    by (simp add: dropWhile_eq_drop e_def xs_def)
  show ?thesis
  proof (cases "e = 0")
    case True
    then have "drop 0 ts = drop 0 (timers c)" using ts(2,3) n by (intro nth_equalityI) auto
    then have "c\<lparr>timers := ts\<rparr> = c" by simp
    then show ?thesis using ts(1) True inv dw unfolding check_timeout_def xs_def by simp
  next
    case False
    from shift_loop [of "- int e" 0 "int e" "int n" ts] e ts(2) n obtain m where
      m: "for_up (int e) (int n) (\<lambda>j ts. do { v \<leftarrow> rd ts j; wr ts (j - int e) v }) ts = Some m" "length m = 64"
        "\<And>k. 0 \<le> k \<Longrightarrow> k < 64 \<Longrightarrow> m ! nat k = (if 0 \<le> k \<and> k < int n - int e then ts ! nat (k + int e) else ts ! nat k)"
      by auto
    let ?c = "c\<lparr>timers := m, ntimers := int n - int e\<rparr>"
    have ct: "check_timeout run now c = Some (map callback_of xs, ?c)"
      using ts(1) m(1) False n(1) by (simp add: check_timeout_def)
    have act': "active ?c = drop e (active c)"
    proof (rule nth_equalityI)
      show "length (active ?c) = length (drop e (active c))" using m(2) n e by (simp add: active_def act nat_diff_distrib)
      fix l assume "l < length (active ?c)"
      then have l: "l < n - e" using m(2) n by (simp add: active_def nat_diff_distrib)
      then have "active ?c ! l = ts ! (l + e)" using m(3) [of "int l"] n e by (simp add: active_def nat_diff_distrib nat_add_distrib)
      also have "\<dots> = drop e (active c) ! l" using ts(3) l e n by (simp add: act add.commute)
      finally show "active ?c ! l = drop e (active c) ! l" .
    qed
    have inv': "sorted (map tm_endtime (active c))" "list_all tm_registered (active c)" using inv by (simp_all add: clk_inv_def)
    have "sorted (map tm_endtime (drop e (active c)))" using sorted_wrt_drop [OF inv'(1), of e] by (simp add: drop_map)
    moreover have "list_all tm_registered (drop e (active c))"
      using inv'(2) by (simp add: list_all_iff) (meson in_set_dropD)
    ultimately have "clk_inv ?c" unfolding clk_inv_def act' using m(2) n e by simp
    then show ?thesis using ct act' dw unfolding xs_def by (intro exI [of _ ?c]) simp
  qed
qed

declare fire_loop.simps [code]

subsection \<open>Properties\<close>

lemma start_timer_inv:
  assumes "length (timers c) = 64" "\<not> clk_initialised c" "cap1 \<noteq> 0" "cap2 \<noteq> 0" "\<And>i. k i = 0"
  shows "\<exists>c'. start_timer k cap1 cap2 True d1 d2 c = Some (CLOCK_R_OK, c') \<and> clk_inv c' \<and> active c' = []"
proof -
  have "\<exists>ts. for_up 0 64 (\<lambda>i ts. do { t \<leftarrow> rd ts i; wr ts i (t\<lparr>tm_id := i + 1, tm_registered := False\<rparr>) }) (timers c) = Some ts
    \<and> length ts = 64"
    by (rule for_up_total [where P = "\<lambda>i ts. length ts = 64"]) (use assms in auto)
  then show ?thesis using assms by (auto simp: start_timer_def enable_irq_def setup_epit_def clk_inv_def active_def)
qed

lemma takeWhile_sorted_filter:
  assumes "sorted (map f xs)"
  shows "takeWhile (\<lambda>x. f x \<le> b) xs = filter (\<lambda>x. f x \<le> b) xs"
    and "dropWhile (\<lambda>x. f x \<le> b) xs = filter (\<lambda>x. \<not> f x \<le> b) xs"
  using assms
proof (induction xs)
  case (Cons x xs)
  { case 1 then show ?case using Cons.IH(1) by (auto intro!: filter_False [symmetric] dest: order_trans) }
  { case 2 then show ?case using Cons.IH(2) by (auto intro!: filter_True [symmetric] dest: order_trans) }
qed simp_all


definition clk_boot :: "nat clock" where
  "clk_boot = \<lparr>jiffy = 0, ntimers = 0,
     timers = replicate 64 \<lparr>tm_id = 0, tm_endtime = 0, tm_data = 0, tm_registered = False\<rparr>,
     clk_initialised = False, irq_handler1 = 0, irq_handler2 = 0,
     epit1 = \<lparr>cr = 0, sr = 0, lr = 0, cmpr = 0, cnr = CLOCK_LOAD_VALUE\<rparr>,
     epit2 = \<lparr>cr = 0, sr = 0, lr = 0, cmpr = 0, cnr = CLOCK_LOAD_VALUE\<rparr>\<rparr>"

definition clk_demo :: "nat clock" where
  "clk_demo = the (do {
     (e, c1) \<leftarrow> start_timer (\<lambda>_. 0) 1 2 True (epit1 clk_boot) (epit2 clk_boot) clk_boot;
     (i, c2) \<leftarrow> register_timer 300000 30 c1;
     (j, c3) \<leftarrow> register_timer 0 10 c2;
     (l, c4) \<leftarrow> register_timer 200000 20 c3;
     Some c4 })"

lemma clk_demo_facts:
  "clk_inv clk_demo" "map tm_id (active clk_demo) = [2, 3, 1]" "map tm_data (active clk_demo) = [10, 20, 30]"
  "map tm_endtime (active clk_demo) = [0, 200000, 300000]" "time_stamp clk_demo = 0" "ntimers clk_demo = 3"
  by code_simp+


text \<open>
  C13. Registering a timer on a running driver with a free slot adds exactly one timer with the
  requested end time and callback, returns the identifier of the slot it used, and keeps the
  queue ordered; on a full table it returns 0 and changes nothing.
\<close>

theorem register_timer_correct:
  assumes inv: "clk_inv c"
  defines "t \<equiv> timers c ! nat (ntimers c)"
  shows "if ntimers c = CLOCK_N_TIMERS then register_timer delay d c = Some (0, c)
    else \<exists>c'. register_timer delay d c = Some (word_of_int (tm_id t), c') \<and> clk_inv c'
      \<and> mset (active c') = add_mset (t\<lparr>tm_endtime := time_stamp c + delay, tm_data := d, tm_registered := True\<rparr>) (mset (active c))"
proof (cases "ntimers c = 64")
  case True
  then show ?thesis using inv by (simp add: register_timer_def clk_inv_def)
next
  case False
  then have "ntimers c < 64" using inv by (simp add: clk_inv_def)
  from register_timer_spec [OF inv this, of delay d] show ?thesis using False unfolding t_def by auto
qed

theorem register_timer_correct_witness:
  "\<exists>c'. register_timer 100000 15 clk_demo = Some (4, c') \<and> clk_inv c'
     \<and> image_mset tm_data (mset (active c')) = {#15, 10, 20, 30#}"
proof -
  have "ntimers clk_demo \<noteq> CLOCK_N_TIMERS" "word_of_int (tm_id (timers clk_demo ! nat (ntimers clk_demo))) = (4 :: u32)"
    "mset (map tm_data (active clk_demo)) = {#10, 20, 30#}" by code_simp+
  then show ?thesis using register_timer_correct [OF clk_demo_facts(1), of 100000 15] by auto
qed

text \<open>
  C14. Removing a timer takes the first active timer with the given identifier out of the queue
  and keeps the rest in order; an identifier that no active timer has gives \<open>CLOCK_R_FAIL\<close> and
  changes nothing.
\<close>

theorem remove_timer_correct:
  assumes "clk_inv c" "tid \<noteq> 0" "tid \<le> 64"
  shows "if \<exists>t\<in>set (active c). timer_match tid t
    then \<exists>c'. remove_timer tid c = Some (CLOCK_R_OK, c') \<and> clk_inv c'
       \<and> active c' = takeWhile (\<lambda>t. \<not> timer_match tid t) (active c) @ tl (dropWhile (\<lambda>t. \<not> timer_match tid t) (active c))
    else remove_timer tid c = Some (CLOCK_R_FAIL, c)"
proof -
  from remove_timer_spec [OF assms] show ?thesis
  proof (elim disjE conjE exE)
    fix i c' assume i: "i < length (active c)" "timer_match tid (active c ! i)" "\<forall>l<i. \<not> timer_match tid (active c ! l)"
      and r: "remove_timer tid c = Some (CLOCK_R_OK, c')" "clk_inv c'" "active c' = take i (active c) @ drop (Suc i) (active c)"
    have tk: "takeWhile (\<lambda>t. \<not> timer_match tid t) (active c) = take i (active c)"
      using i by (intro takeWhile_eq_take_P_nth) auto
    moreover have "dropWhile (\<lambda>t. \<not> timer_match tid t) (active c) = drop i (active c)"
      using i(1) by (simp add: dropWhile_eq_drop tk)
    moreover have "\<exists>t\<in>set (active c). timer_match tid t" using i(1,2) by (meson nth_mem)
    ultimately show ?thesis using r by (simp add: drop_Suc tl_drop)
  qed auto
qed

theorem remove_timer_correct_witness:
  "\<exists>c'. remove_timer 3 clk_demo = Some (CLOCK_R_OK, c') \<and> clk_inv c' \<and> map tm_data (active c') = [10, 30]"
proof -
  have "\<exists>t\<in>set (active clk_demo). timer_match 3 t" by code_simp
  moreover have "map tm_data (takeWhile (\<lambda>t. \<not> timer_match 3 t) (active clk_demo)
     @ tl (dropWhile (\<lambda>t. \<not> timer_match 3 t) (active clk_demo))) = [10, 30]" by code_simp
  ultimately show ?thesis using remove_timer_correct [OF clk_demo_facts(1), of 3] by auto
qed


end
