(* ===== verification/Kernel_Env.thy ===== *)
theory Kernel_Env
  imports UT_Allocator UT_Table
begin

text \<open>
  What the C code of SOS runs on: the seL4 kernel, the C heap, the untyped memory manager and
  the table of CSpace structures. The kernel and \<^verbatim>\<open>malloc\<close> are outside the modelled code:
  their answers are read one after the other from the stream \<open>answers\<close>, which the theorems
  leave arbitrary, and the kernel calls are recorded in \<open>klog\<close>. The heap hands out each
  address once, so a structure that has been freed is never found again under its old address.
\<close>

subsection \<open>Kernel objects and calls\<close>

datatype kobject = TCBObject | EndpointObject | AsyncEndpointObject | CapTableObject
  | SmallPageObject | PageTableObject | PageDirectoryObject

datatype capdata = NilData | CapBadge u32 | CapGuard u32 u32

datatype kcall =
    Untyped_RetypeAtOffset u32 kobject u32 u32 u32 u32 u32 u32
  | CNode_Copy u32 u32 u32 u32 u32
  | CNode_Mint u32 u32 u32 u32 u32 capdata
  | CNode_Move u32 u32 u32 u32
  | CNode_Mutate u32 u32 u32 u32 capdata
  | CNode_Delete u32 u32 u32
  | CNode_Recycle u32 u32
  | CNode_Revoke u32 u32
  | CNode_SaveCaller u32 u32
  | IRQControl_Get u32 int u32 u32
  | TCB_SetSpace u32 u32 u32 capdata u32 capdata
  | TCB_Configure u32 u32 u32 u32 u32 u32 u32
  | TCB_WriteRegisters u32 u32 u32
  | Page_Map u32 u32 u32 u32
  | Page_Unmap u32
  | Page_Unify_Instruction u32
  | PageTable_Map u32 u32 u32
  | PageTable_Unmap u32
  | TCB_BindAEP u32 u32
  | PageDirectory_Cache_Op nat u32 u32 u32
  | K_Send u32 "u32 list"

abbreviation (input) CSPACE_NODE_SIZE_IN_MEM_BITS :: nat where "CSPACE_NODE_SIZE_IN_MEM_BITS \<equiv> 14"
abbreviation (input) CSPACE_NODE_SIZE_IN_SLOTS_BITS :: nat where "CSPACE_NODE_SIZE_IN_SLOTS_BITS \<equiv> 10"
abbreviation (input) CSPACE_NODE_SIZE_IN_SLOTS :: nat where "CSPACE_NODE_SIZE_IN_SLOTS \<equiv> 1024"
abbreviation (input) CSPACE_DEPTH :: u32 where "CSPACE_DEPTH \<equiv> 32"
abbreviation (input) CSPACE_NULL :: u32 where "CSPACE_NULL \<equiv> 0"
abbreviation (input) CSPACE_NOSLOT :: u32 where "CSPACE_NOSLOT \<equiv> - 1"
abbreviation (input) CSPACE_NOERROR :: int where "CSPACE_NOERROR \<equiv> 0"
abbreviation (input) seL4_AllRights :: u32 where "seL4_AllRights \<equiv> 7"
abbreviation (input) seL4_CapInitThreadTCB :: u32 where "seL4_CapInitThreadTCB \<equiv> 1"
abbreviation (input) seL4_CapInitThreadCNode :: u32 where "seL4_CapInitThreadCNode \<equiv> 2"
abbreviation (input) seL4_CapInitThreadPD :: u32 where "seL4_CapInitThreadPD \<equiv> 3"
abbreviation (input) seL4_FailedLookup :: int where "seL4_FailedLookup \<equiv> 6"
abbreviation (input) seL4_NotEnoughMemory :: int where "seL4_NotEnoughMemory \<equiv> 10"

text \<open>The size of a page, of the objects that user code is made of, and page arithmetic.\<close>

abbreviation (input) seL4_PageBits :: nat where "seL4_PageBits \<equiv> 12"
abbreviation (input) seL4_TCBBits :: nat where "seL4_TCBBits \<equiv> 9"
abbreviation (input) seL4_PageTableBits :: nat where "seL4_PageTableBits \<equiv> 10"
abbreviation (input) seL4_PageDirBits :: nat where "seL4_PageDirBits \<equiv> 14"

subsection \<open>State\<close>

record cspace =
  cs_levels :: u32
  cs_root_cnode :: u32
  cs_guard :: capdata
  cs_addr :: u32
  next_level1_free_index :: int
  next_level2_free_slot :: int
  num_free_slots :: u32
  level1_alloc_table :: "u32 list"
  level2_alloc_tables :: "u32 list option list"

record env =
  answers :: "nat \<Rightarrow> int"
  asked :: nat
  klog :: "kcall list"
  heap_next :: nat
  ut :: ut_state
  ut_tab :: ut_table
  cspaces :: "nat \<Rightarrow> cspace option"
  cur_cspace :: "nat option"

subsection \<open>Asking the environment\<close>

definition ask :: "'a env_scheme \<Rightarrow> int \<times> 'a env_scheme" where
  "ask e = (answers e (asked e), e\<lparr>asked := asked e + 1\<rparr>)"

text \<open>A kernel call is recorded and answered with an error code.\<close>

definition kernel :: "kcall \<Rightarrow> 'a env_scheme \<Rightarrow> int \<times> 'a env_scheme" where
  "kernel k e = ask (e\<lparr>klog := klog e @ [k]\<rparr>)"

text \<open>\<^verbatim>\<open>malloc\<close> fails when the answer is 0; otherwise it returns a new address.\<close>

definition malloc :: "'a env_scheme \<Rightarrow> nat option \<times> 'a env_scheme" where
  "malloc e = (let (r, e1) = ask e in
     if r = 0 then (None, e1) else (Some (heap_next e1), e1\<lparr>heap_next := heap_next e1 + 1\<rparr>))"

text \<open>
  The untyped manager calls \<^verbatim>\<open>malloc\<close> at most three times for one allocation; its three
  answers and addresses are set aside.
\<close>

definition env_ut_alloc :: "nat \<Rightarrow> 'a env_scheme \<Rightarrow> (u32 \<times> 'a env_scheme) option" where
  "env_ut_alloc sb e = do {
     (a, u) \<leftarrow> ut_alloc (\<lambda>k. if answers e (asked e + k) = 0 then None else Some (heap_next e + k)) sb (ut e);
     Some (a, e\<lparr>ut := u, asked := asked e + 3, heap_next := heap_next e + 3\<rparr>) }"

definition env_ut_free :: "u32 \<Rightarrow> nat \<Rightarrow> 'a env_scheme \<Rightarrow> 'a env_scheme option" where
  "env_ut_free a sb e = do { u \<leftarrow> ut_free a sb (ut e); Some (e\<lparr>ut := u\<rparr>) }"

definition env_ut_translate :: "u32 \<Rightarrow> 'a env_scheme \<Rightarrow> (u32 \<times> u32) option option" where
  "env_ut_translate a e = ut_translate (ut_tab e) a"

definition get_cspace :: "nat option \<Rightarrow> 'a env_scheme \<Rightarrow> cspace option" where
  "get_cspace p e = do { q \<leftarrow> p; cspaces e q }"

definition put_cspace :: "nat option \<Rightarrow> cspace \<Rightarrow> 'a env_scheme \<Rightarrow> 'a env_scheme" where
  "put_cspace p c e = (case p of None \<Rightarrow> e | Some q \<Rightarrow> e\<lparr>cspaces := (cspaces e)(q \<mapsto> c)\<rparr>)"

end
