(* ===== verification/Cspace.thy ===== *)
theory Cspace
  imports Kernel_Env
begin

text \<open>
  \<^verbatim>\<open>libs/libsel4cspace\<close>: the CSpace library. A CSpace has one level (the slots of one CNode) or
  two (a root CNode whose slots hold leaf CNodes); free slots are kept in linked lists threaded
  through the tables. The allocators that the library is given at bootstrap are those of the
  untyped manager and the C heap. A failing kernel call ends in \<^verbatim>\<open>abort\<close> wherever the source
  passes its result to \<^verbatim>\<open>sel4_error\<close>.
\<close>

subsection \<open>Helpers\<close>

definition CSPACE_LEAF_OFFSET :: "u32 \<Rightarrow> u32" where
  "CSPACE_LEAF_OFFSET x = x AND 1023"

text \<open>A kernel call whose failure is fatal.\<close>

definition kernel_ok :: "kcall \<Rightarrow> 'a env_scheme \<Rightarrow> 'a env_scheme option" where
  "kernel_ok k e = (let (err, e1) = kernel k e in if err = 0 then Some e1 else None)"

definition cspace_retype_depth :: "nat option \<Rightarrow> 'a env_scheme \<Rightarrow> u32 option" where
  "cspace_retype_depth p e = do {
     c \<leftarrow> get_cspace p e;
     if cs_levels c = 1 then Some 0
     else if cs_levels c = 2 then Some 22
     else None }"

definition cspace_alloc_level1_index :: "nat option \<Rightarrow> 'a env_scheme \<Rightarrow> (int \<times> 'a env_scheme) option" where
  "cspace_alloc_level1_index p e = do {
     c \<leftarrow> get_cspace p e;
     let s = next_level1_free_index c;
     c_assert (s \<noteq> - 1);
     v \<leftarrow> rd (level1_alloc_table c) s;
     Some (s, put_cspace p (c\<lparr>next_level1_free_index := sint v\<rparr>) e) }"

definition cspace_free_level1_index :: "nat option \<Rightarrow> int \<Rightarrow> 'a env_scheme \<Rightarrow> (int \<times> 'a env_scheme) option" where
  "cspace_free_level1_index p s e = do {
     c \<leftarrow> get_cspace p e;
     c_assert (0 \<le> s \<and> s < 1024);
     t \<leftarrow> wr (level1_alloc_table c) s (word_of_int (next_level1_free_index c));
     Some (CSPACE_NOERROR, put_cspace p (c\<lparr>level1_alloc_table := t, next_level1_free_index := s\<rparr>) e) }"

text \<open>The free list through a new leaf CNode whose first slot is \<open>base\<close>; 0 ends the list.\<close>

definition leaf_table :: "u32 \<Rightarrow> u32 list" where
  "leaf_table base = map (\<lambda>k. base + word_of_nat k + 1) [0..<1023] @ [CSPACE_NULL]"

definition cspace_alloc_level2_slot :: "nat option \<Rightarrow> 'a env_scheme \<Rightarrow> (u32 \<times> 'a env_scheme) option" where
  "cspace_alloc_level2_slot p e = do {
     c0 \<leftarrow> get_cspace p e;
     e' \<leftarrow> (if num_free_slots c0 = 0 then do {
        (i, e1) \<leftarrow> cspace_alloc_level1_index p e;
        let l1 = (word_of_int i :: u32);
        c_assert (l1 \<noteq> CSPACE_NOSLOT);
        (v, e2) \<leftarrow> env_ut_alloc CSPACE_NODE_SIZE_IN_MEM_BITS e1;
        c_assert (v \<noteq> 0);
        r \<leftarrow> env_ut_translate v e2;
        (ut_cptr, offset) \<leftarrow> r;
        c2 \<leftarrow> get_cspace p e2;
        t1 \<leftarrow> wr (level1_alloc_table c2) (uint l1) v;
        e3 \<leftarrow> kernel_ok (Untyped_RetypeAtOffset ut_cptr CapTableObject offset 10 (cs_root_cnode c2) 0 0 l1) e2;
        let base = push_bit 10 l1;
        let (tbl, e4) = malloc e3;
        c_assert (tbl \<noteq> None);
        t2 \<leftarrow> wr (level2_alloc_tables c2) (uint l1) (Some (leaf_table base));
        Some (put_cspace p (c2\<lparr>level1_alloc_table := t1, level2_alloc_tables := t2,
                num_free_slots := 1024, next_level2_free_slot := sint base\<rparr>) e4) }
      else Some e);
     c \<leftarrow> get_cspace p e';
     let s = (word_of_int (next_level2_free_slot c) :: u32);
     leaf \<leftarrow> rd (level2_alloc_tables c) (uint (drop_bit 10 s));
     tbl \<leftarrow> leaf;
     v \<leftarrow> rd tbl (uint (CSPACE_LEAF_OFFSET s));
     Some (s, put_cspace p (c\<lparr>next_level2_free_slot := sint v, num_free_slots := num_free_slots c - 1\<rparr>) e') }"

definition cspace_free_level2_slot :: "nat option \<Rightarrow> u32 \<Rightarrow> 'a env_scheme \<Rightarrow> (int \<times> 'a env_scheme) option" where
  "cspace_free_level2_slot p s e = do {
     c \<leftarrow> get_cspace p e;
     c_assert (s < 1024 * 1024);
     leaf \<leftarrow> rd (level2_alloc_tables c) (uint (drop_bit 10 s));
     tbl \<leftarrow> leaf;
     tbl' \<leftarrow> wr tbl (uint (CSPACE_LEAF_OFFSET s)) (word_of_int (next_level2_free_slot c));
     t2 \<leftarrow> wr (level2_alloc_tables c) (uint (drop_bit 10 s)) (Some tbl');
     Some (CSPACE_NOERROR, put_cspace p (c\<lparr>level2_alloc_tables := t2, next_level2_free_slot := sint s,
             num_free_slots := num_free_slots c + 1\<rparr>) e) }"

subsection \<open>Slots\<close>

definition cspace_alloc_slot :: "nat option \<Rightarrow> 'a env_scheme \<Rightarrow> (u32 \<times> 'a env_scheme) option" where
  "cspace_alloc_slot p e = do {
     c \<leftarrow> get_cspace p e;
     if cs_levels c = 1 then
       (if num_free_slots c > 0 then do {
          (r, e1) \<leftarrow> cspace_alloc_level1_index p (put_cspace p (c\<lparr>num_free_slots := num_free_slots c - 1\<rparr>) e);
          Some (if word_of_int r = CSPACE_NOSLOT then CSPACE_NULL else word_of_int r, e1) }
        else Some (CSPACE_NULL, e))
     else if cs_levels c = 2 then cspace_alloc_level2_slot p e
     else None }"

definition cspace_free_slot :: "nat option \<Rightarrow> u32 \<Rightarrow> 'a env_scheme \<Rightarrow> (int \<times> 'a env_scheme) option" where
  "cspace_free_slot p slot e = do {
     c \<leftarrow> get_cspace p e;
     c_assert (slot \<noteq> CSPACE_NULL);
     if cs_levels c = 1 then
       cspace_free_level1_index p (sint slot) (put_cspace p (c\<lparr>num_free_slots := num_free_slots c + 1\<rparr>) e)
     else if cs_levels c = 2 then cspace_free_level2_slot p slot e
     else None }"

subsection \<open>Capabilities\<close>

text \<open>The new capability is the second component of the result, when one was stored.\<close>

definition cspace_ut_retype_addr :: "u32 \<Rightarrow> kobject \<Rightarrow> nat \<Rightarrow> nat option \<Rightarrow> 'a env_scheme
    \<Rightarrow> (int \<times> u32 option \<times> 'a env_scheme) option" where
  "cspace_ut_retype_addr addr ty size_bits p e = do {
     (new, e1) \<leftarrow> cspace_alloc_slot p e;
     if new = CSPACE_NULL then Some (seL4_NotEnoughMemory, None, e1)
     else do {
       r \<leftarrow> env_ut_translate addr e1;
       case r of
         None \<Rightarrow> Some (1, Some new, e1)
       | Some (ut_cptr, offset) \<Rightarrow> do {
           c \<leftarrow> get_cspace p e1;
           let (err, e2) = kernel (Untyped_RetypeAtOffset ut_cptr ty offset (word_of_nat size_bits)
             (cs_root_cnode c) (drop_bit 10 new) 22 (CSPACE_LEAF_OFFSET new)) e1;
           Some (err, Some new, e2) } } }"

definition cspace_copy_cap :: "nat option \<Rightarrow> nat option \<Rightarrow> u32 \<Rightarrow> u32 \<Rightarrow> 'a env_scheme
    \<Rightarrow> (u32 \<times> 'a env_scheme) option" where
  "cspace_copy_cap dest src src_cap rights e = do {
     c_assert (dest \<noteq> None \<and> src \<noteq> None);
     (slot, e1) \<leftarrow> cspace_alloc_slot dest e;
     c_assert (slot \<noteq> CSPACE_NULL);
     d \<leftarrow> get_cspace dest e1;
     s \<leftarrow> get_cspace src e1;
     e2 \<leftarrow> kernel_ok (CNode_Copy (cs_root_cnode d) slot (cs_root_cnode s) src_cap rights) e1;
     Some (slot, e2) }"

definition cspace_delete_cap :: "nat option \<Rightarrow> u32 \<Rightarrow> 'a env_scheme \<Rightarrow> (int \<times> 'a env_scheme) option" where
  "cspace_delete_cap p cap e = do {
     c \<leftarrow> get_cspace p e;
     e1 \<leftarrow> kernel_ok (CNode_Delete (cs_root_cnode c) cap CSPACE_DEPTH) e;
     cspace_free_slot p cap e1 }"

definition cspace_mint_cap :: "nat option \<Rightarrow> nat option \<Rightarrow> u32 \<Rightarrow> u32 \<Rightarrow> capdata \<Rightarrow> 'a env_scheme
    \<Rightarrow> (u32 \<times> 'a env_scheme) option" where
  "cspace_mint_cap dest src src_cap rights badge e = do {
     c_assert (dest \<noteq> None \<and> src \<noteq> None);
     (slot, e1) \<leftarrow> cspace_alloc_slot dest e;
     c_assert (slot \<noteq> CSPACE_NULL);
     d \<leftarrow> get_cspace dest e1;
     s \<leftarrow> get_cspace src e1;
     e2 \<leftarrow> kernel_ok (CNode_Mint (cs_root_cnode d) slot (cs_root_cnode s) src_cap rights badge) e1;
     Some (slot, e2) }"

definition cspace_move_cap :: "nat option \<Rightarrow> nat option \<Rightarrow> u32 \<Rightarrow> 'a env_scheme
    \<Rightarrow> (u32 \<times> 'a env_scheme) option" where
  "cspace_move_cap dest src src_cap e = do {
     c_assert (dest \<noteq> None \<and> src \<noteq> None);
     (slot, e1) \<leftarrow> cspace_alloc_slot dest e;
     c_assert (slot \<noteq> CSPACE_NULL);
     d \<leftarrow> get_cspace dest e1;
     s \<leftarrow> get_cspace src e1;
     e2 \<leftarrow> kernel_ok (CNode_Move (cs_root_cnode d) slot (cs_root_cnode s) src_cap) e1;
     Some (slot, e2) }"

definition cspace_mutate_cap :: "nat option \<Rightarrow> nat option \<Rightarrow> u32 \<Rightarrow> capdata \<Rightarrow> 'a env_scheme
    \<Rightarrow> (u32 \<times> 'a env_scheme) option" where
  "cspace_mutate_cap dest src src_cap badge e = do {
     c_assert (dest \<noteq> None \<and> src \<noteq> None);
     (slot, e1) \<leftarrow> cspace_alloc_slot dest e;
     c_assert (slot \<noteq> CSPACE_NULL);
     d \<leftarrow> get_cspace dest e1;
     s \<leftarrow> get_cspace src e1;
     e2 \<leftarrow> kernel_ok (CNode_Mutate (cs_root_cnode d) slot (cs_root_cnode s) src_cap badge) e1;
     Some (slot, e2) }"

definition cspace_recycle_cap :: "nat option \<Rightarrow> u32 \<Rightarrow> 'a env_scheme \<Rightarrow> (int \<times> 'a env_scheme) option" where
  "cspace_recycle_cap p cap e = do {
     c \<leftarrow> get_cspace p e;
     e1 \<leftarrow> kernel_ok (CNode_Recycle (cs_root_cnode c) cap) e;
     Some (CSPACE_NOERROR, e1) }"

definition cspace_revoke_cap :: "nat option \<Rightarrow> u32 \<Rightarrow> 'a env_scheme \<Rightarrow> (int \<times> 'a env_scheme) option" where
  "cspace_revoke_cap p cap e = do {
     c \<leftarrow> get_cspace p e;
     e1 \<leftarrow> kernel_ok (CNode_Revoke (cs_root_cnode c) cap) e;
     Some (CSPACE_NOERROR, e1) }"

definition cspace_save_reply_cap :: "nat option \<Rightarrow> 'a env_scheme \<Rightarrow> (u32 \<times> 'a env_scheme) option" where
  "cspace_save_reply_cap p e = do {
     (slot, e1) \<leftarrow> cspace_alloc_slot p e;
     c_assert (slot \<noteq> CSPACE_NULL);
     c \<leftarrow> get_cspace p e1;
     e2 \<leftarrow> kernel_ok (CNode_SaveCaller (cs_root_cnode c) slot) e1;
     Some (slot, e2) }"

definition cspace_irq_control_get_cap :: "nat option \<Rightarrow> u32 \<Rightarrow> int \<Rightarrow> 'a env_scheme \<Rightarrow> (u32 \<times> 'a env_scheme) option" where
  "cspace_irq_control_get_cap dest irq_cap irq e = do {
     (slot, e1) \<leftarrow> cspace_alloc_slot dest e;
     c_assert (slot \<noteq> CSPACE_NULL);
     d \<leftarrow> get_cspace dest e1;
     e2 \<leftarrow> kernel_ok (IRQControl_Get irq_cap irq (cs_root_cnode d) slot) e1;
     Some (slot, e2) }"

subsection \<open>Creation and destruction\<close>

definition level1_free_table :: "u32 list" where
  "level1_free_table = map (\<lambda>i. word_of_nat (i + 1)) [0..<1023] @ [CSPACE_NOSLOT]"

text \<open>An untyped block for a CNode, with the capability and offset it lies at.\<close>

definition cnode_memory :: "'a env_scheme \<Rightarrow> (u32 \<times> u32 \<times> u32 \<times> 'a env_scheme) option" where
  "cnode_memory e = do {
     (addr, e1) \<leftarrow> env_ut_alloc CSPACE_NODE_SIZE_IN_MEM_BITS e;
     c_assert (addr \<noteq> 0);
     r \<leftarrow> env_ut_translate addr e1;
     (ut_cptr, offset) \<leftarrow> r;
     Some (addr, ut_cptr, offset, e1) }"

text \<open>
  The fields that the source leaves uninitialised in a one-level CSpace (the leaf tables and the
  head of their list, which only the two-level operations read) are empty here.
\<close>

definition cspace_create :: "int \<Rightarrow> 'a env_scheme \<Rightarrow> (nat option \<times> 'a env_scheme) option" where
  "cspace_create levels e = do {
     let (c, e1) = malloc e;
     c_assert (c \<noteq> None);
     (addr, ut_cptr, offset, e2) \<leftarrow> cnode_memory e1;
     (slot, e3) \<leftarrow> cspace_alloc_slot (cur_cspace e2) e2;
     c_assert (slot \<noteq> CSPACE_NULL);
     cur \<leftarrow> get_cspace (cur_cspace e3) e3;
     depth \<leftarrow> cspace_retype_depth (cur_cspace e3) e3;
     e4 \<leftarrow> kernel_ok (Untyped_RetypeAtOffset ut_cptr CapTableObject offset 10 (cs_root_cnode cur)
             (drop_bit 10 slot) depth (CSPACE_LEAF_OFFSET slot)) e3;
     c_assert (levels = 1 \<or> levels = 2);
     let c0 = \<lparr>cs_levels = word_of_int levels, cs_root_cnode = slot, cs_guard = NilData, cs_addr = addr,
        next_level1_free_index = (if levels = 1 then 1 else 0), next_level2_free_slot = 0,
        num_free_slots = 1023, level1_alloc_table = level1_free_table,
        level2_alloc_tables = replicate 1024 None\<rparr>;
     e6 \<leftarrow> (if levels = 1 then
              Some (put_cspace c (c0\<lparr>cs_guard := CapGuard 0 22\<rparr>) e4)
            else do {
              (addr2, ut_cptr2, offset2, e5) \<leftarrow> cnode_memory (put_cspace c c0 e4);
              (i, e6) \<leftarrow> cspace_alloc_level1_index c e5;
              let l1index = (word_of_int i :: u32);
              let l1slot = push_bit 10 l1index;
              c1 \<leftarrow> get_cspace c e6;
              t1 \<leftarrow> wr (level1_alloc_table c1) (uint l1index) addr2;
              e7 \<leftarrow> kernel_ok (Untyped_RetypeAtOffset ut_cptr2 CapTableObject offset2 10 (cs_root_cnode c1)
                       0 0 l1index) e6;
              let (tbl, e8) = malloc e7;
              c_assert (tbl \<noteq> None);
              t2 \<leftarrow> wr (replicate 1024 None) (uint l1index) (Some (leaf_table l1slot));
              Some (put_cspace c (c1\<lparr>level1_alloc_table := t1, level2_alloc_tables := t2,
                next_level2_free_slot := sint (l1slot + 1), num_free_slots := 1023,
                cs_guard := CapGuard 0 12\<rparr>) e8) });
     c2 \<leftarrow> get_cspace c e6;
     (root, e7) \<leftarrow> cspace_mint_cap (cur_cspace e6) (cur_cspace e6) slot seL4_AllRights (cs_guard c2) e6;
     c_assert (root \<noteq> CSPACE_NULL);
     c3 \<leftarrow> get_cspace c e7;
     (err, e8) \<leftarrow> cspace_delete_cap (cur_cspace e7) slot (put_cspace c (c3\<lparr>cs_root_cnode := root\<rparr>) e7);
     Some (c, e8) }"

definition free_leaf :: "cspace \<Rightarrow> int \<Rightarrow> 'a env_scheme \<Rightarrow> 'a env_scheme option" where
  "free_leaf c i e = do {
     leaf \<leftarrow> rd (level2_alloc_tables c) i;
     case leaf of None \<Rightarrow> Some e
     | Some tbl \<Rightarrow> do {
         e1 \<leftarrow> kernel_ok (CNode_Delete (cs_root_cnode c) (word_of_int i) 22) e;
         a \<leftarrow> rd (level1_alloc_table c) i;
         env_ut_free a CSPACE_NODE_SIZE_IN_MEM_BITS e1 } }"

definition cspace_destroy :: "nat option \<Rightarrow> 'a env_scheme \<Rightarrow> (int \<times> 'a env_scheme) option" where
  "cspace_destroy p e = do {
     c_assert (cur_cspace e \<noteq> p);
     c_assert (cur_cspace e \<noteq> None);
     c \<leftarrow> get_cspace p e;
     e1 \<leftarrow> (if cs_levels c = 2 then for_up 0 1024 (free_leaf c) e else Some e);
     (err, e2) \<leftarrow> cspace_delete_cap (cur_cspace e1) (cs_root_cnode c) e1;
     e3 \<leftarrow> env_ut_free (cs_addr c) CSPACE_NODE_SIZE_IN_MEM_BITS e2;
     q \<leftarrow> p;
     Some (CSPACE_NOERROR, e3\<lparr>cspaces := (cspaces e3)(q := None)\<rparr>) }"

subsection \<open>Bootstrap\<close>

text \<open>
  The slots of the boot CNode that are not moved: the new CNode itself and those that the
  kernel leaves empty on this board.
\<close>

definition boot_cap_skipped :: "int \<Rightarrow> bool" where
  "boot_cap_skipped i \<longleftrightarrow> i = 2 \<or> i = 10 \<or> i = 5 \<or> i = 6 \<or> i = 8"

definition boot_leaf :: "u32 \<Rightarrow> int \<Rightarrow> u32 list \<times> 'a env_scheme \<Rightarrow> (u32 list \<times> 'a env_scheme) option" where
  "boot_leaf level1_cptr i s = (case s of (table, e) \<Rightarrow> do {
     (addr, ut_cptr, offset, e1) \<leftarrow> cnode_memory e;
     t \<leftarrow> wr table i addr;
     e2 \<leftarrow> kernel_ok (Untyped_RetypeAtOffset ut_cptr CapTableObject offset 10 seL4_CapInitThreadCNode
             level1_cptr CSPACE_DEPTH (word_of_int i)) e1;
     Some (t, e2) })"

definition boot_move :: "int \<Rightarrow> 'a env_scheme \<Rightarrow> 'a env_scheme option" where
  "boot_move i e = (if boot_cap_skipped i then Some e
     else kernel_ok (CNode_Move seL4_CapInitThreadCNode (word_of_int i) 0 (word_of_int i)) e)"

text \<open>The entries of the allocated slots: 0 marks a capability that cannot be freed.\<close>

definition boot_used :: "int \<Rightarrow> u32 list option list \<times> 'a env_scheme \<Rightarrow> (u32 list option list \<times> 'a env_scheme) option" where
  "boot_used j s = (case s of (tables, e) \<Rightarrow> do {
     (t1, e1) \<leftarrow> (if j mod 1024 = 0 then do {
          let (tbl, e1) = malloc e;
          c_assert (tbl \<noteq> None);
          t1 \<leftarrow> wr tables (j div 1024) (Some (replicate 1024 0));
          Some (t1, e1) }
        else Some (tables, e));
     leaf \<leftarrow> rd t1 (j div 1024);
     tbl \<leftarrow> leaf;
     tbl' \<leftarrow> wr tbl (j mod 1024) 0;
     t2 \<leftarrow> wr t1 (j div 1024) (Some tbl');
     Some (t2, e1) })"

text \<open>
  The loop that links the rest of the last leaf table \<open>i\<close> into the free list; it starts at the
  first empty slot of the boot CNode.
\<close>

definition boot_free_list :: "u32 \<Rightarrow> u32 list \<Rightarrow> u32 list option" where
  "boot_free_list start tbl = do {
     let k = uint start mod 1024;
     t \<leftarrow> for_up k 1023 (\<lambda>j t. wr t j (start + word_of_int (j - k) + 1)) tbl;
     wr t 1023 CSPACE_NULL }"

definition cspace_root_task_bootstrap :: "u32 \<Rightarrow> u32 \<Rightarrow> 'a env_scheme \<Rightarrow> (int \<times> 'a env_scheme) option" where
  "cspace_root_task_bootstrap start stop e = do {
     c_assert (stop - start \<ge> 2);
     let level1_cptr = start;
     let (space, e1) = malloc e;
     c_assert (space \<noteq> None);
     (addr, ut_cptr, offset, e2) \<leftarrow> cnode_memory e1;
     e3 \<leftarrow> kernel_ok (Untyped_RetypeAtOffset ut_cptr CapTableObject offset 10 seL4_CapInitThreadCNode
             seL4_CapInitThreadCNode CSPACE_DEPTH level1_cptr) e2;
     let leaves = uint (drop_bit 10 (start - 1)) + 1;
     (t1, e4) \<leftarrow> for_up 0 leaves (boot_leaf level1_cptr) (level1_free_table, e3);
     e5 \<leftarrow> kernel_ok (CNode_Copy level1_cptr 0 seL4_CapInitThreadCNode seL4_CapInitThreadCNode seL4_AllRights) e4;
     e6 \<leftarrow> kernel_ok (CNode_Mint level1_cptr seL4_CapInitThreadCNode seL4_CapInitThreadCNode level1_cptr
             seL4_AllRights (CapGuard 0 12)) e5;
     e7 \<leftarrow> kernel_ok (TCB_SetSpace seL4_CapInitThreadTCB 0 level1_cptr (CapGuard 0 12) seL4_CapInitThreadPD NilData) e6;
     e8 \<leftarrow> for_up 1 (uint start) boot_move e7;
     e9 \<leftarrow> kernel_ok (CNode_Delete seL4_CapInitThreadCNode 0 CSPACE_DEPTH) e8;
     (tables, e10) \<leftarrow> for_up 0 (uint start) boot_used (replicate 1024 None, e9);
     let last = (uint start - 1) div 1024;
     leaf \<leftarrow> rd tables last;
     tbl \<leftarrow> leaf;
     tbl' \<leftarrow> boot_free_list start tbl;
     t2 \<leftarrow> wr tables last (Some tbl');
     Some (CSPACE_NOERROR, (put_cspace space \<lparr>cs_levels = 2, cs_root_cnode = seL4_CapInitThreadCNode,
        cs_guard = CapGuard 0 12, cs_addr = addr, next_level1_free_index = leaves,
        next_level2_free_slot = sint start, num_free_slots = 1024 - CSPACE_LEAF_OFFSET start,
        level1_alloc_table = t1, level2_alloc_tables = t2\<rparr> e10)\<lparr>cur_cspace := space\<rparr>) }"

end
