(* ===== verification/Name_Interface.thy ===== *)
theory Name_Interface
  imports SOS_Prelude
begin

text \<open>
  Allocators of names: capability slots, frames, process slots. Their free names form a linked
  list through a table. The contract says that a name handed out is not held by a client
  already; its consequence for any sequence of allocations and releases is proved once.
\<close>

subsection \<open>Linked free lists\<close>

text \<open>\<open>chain nxt nil h xs\<close>: following \<open>nxt\<close> from \<open>h\<close> visits \<open>xs\<close> and ends at \<open>nil\<close>.\<close>

fun chain :: "('i \<Rightarrow> 'i option) \<Rightarrow> 'i \<Rightarrow> 'i \<Rightarrow> 'i list \<Rightarrow> bool" where
  "chain nxt nil h [] \<longleftrightarrow> h = nil"
| "chain nxt nil h (x # xs) \<longleftrightarrow> h = x \<and> x \<noteq> nil \<and> (case nxt x of None \<Rightarrow> False | Some y \<Rightarrow> chain nxt nil y xs)"

lemma chain_cong: "(\<And>x. x \<in> set xs \<Longrightarrow> nxt' x = nxt x) \<Longrightarrow> chain nxt' nil h xs = chain nxt nil h xs"
  by (induction xs arbitrary: h) (auto split: option.splits)

lemma chain_unique: "chain nxt nil h xs \<Longrightarrow> chain nxt nil h ys \<Longrightarrow> xs = ys"
proof (induction xs arbitrary: h ys)
  case Nil
  then show ?case by (cases ys) auto
next
  case (Cons x xs)
  then show ?case by (cases ys) (auto split: option.splits)
qed

lemma chain_nil_notin: "chain nxt nil h xs \<Longrightarrow> nil \<notin> set xs"
  by (induction xs arbitrary: h) (auto split: option.splits)

lemma chain_head: "chain nxt nil h xs \<Longrightarrow> h \<noteq> nil \<Longrightarrow> \<exists>y ys. xs = h # ys \<and> nxt h = Some y \<and> chain nxt nil y ys"
  by (cases xs) (auto split: option.splits)

lemma chain_empty_iff: "chain nxt nil h xs \<Longrightarrow> h = nil \<longleftrightarrow> xs = []"
  by (cases xs) auto

lemma chain_dom: "chain nxt nil h xs \<Longrightarrow> x \<in> set xs \<Longrightarrow> \<exists>y. nxt x = Some y"
  by (induction xs arbitrary: h) (auto split: option.splits)

text \<open>A run of consecutive cells, each pointing to the next, is a chain.\<close>

lemma chain_map_upt:
  "(\<And>k. i \<le> k \<Longrightarrow> k < n \<Longrightarrow> f k \<noteq> nil \<and> nxt (f k) = Some (f (Suc k))) \<Longrightarrow> i \<le> n \<Longrightarrow> f n = nil \<Longrightarrow>
   chain nxt nil (f i) (map f [i..<n])"
proof (induction "n - i" arbitrary: i)
  case (Suc m)
  then have "i < n" by simp
  moreover have "chain nxt nil (f (Suc i)) (map f [Suc i..<n])" using Suc by (intro Suc.hyps(1)) auto
  ultimately show ?case using Suc.prems(1) [of i] by (simp add: upt_conv_Cons)
qed simp

subsection \<open>The contract\<close>

inductive name_run :: "('s \<Rightarrow> ('n \<times> 's) option) \<Rightarrow> ('n \<Rightarrow> 's \<Rightarrow> 's option) \<Rightarrow> 'n \<Rightarrow> 's \<Rightarrow> 's \<Rightarrow> 'n list \<Rightarrow> bool"
  for alloc free nil s0 where
  run_start: "name_run alloc free nil s0 s0 []"
| run_alloc: "name_run alloc free nil s0 s hs \<Longrightarrow> alloc s = Some (n, s') \<Longrightarrow> n \<noteq> nil
    \<Longrightarrow> name_run alloc free nil s0 s' (n # hs)"
| run_full: "name_run alloc free nil s0 s hs \<Longrightarrow> alloc s = Some (nil, s') \<Longrightarrow> name_run alloc free nil s0 s' hs"
| run_free: "name_run alloc free nil s0 s hs \<Longrightarrow> n \<in> set hs \<Longrightarrow> free n s = Some s'
    \<Longrightarrow> name_run alloc free nil s0 s' (remove1 n hs)"

locale name_allocator =
  fixes alloc :: "'s \<Rightarrow> ('n \<times> 's) option"
    and free :: "'n \<Rightarrow> 's \<Rightarrow> 's option"
    and nil :: 'n
    and ok :: "'s \<Rightarrow> 'n set \<Rightarrow> bool"
  assumes alloc_fresh: "ok s H \<Longrightarrow> alloc s = Some (n, s') \<Longrightarrow> n \<noteq> nil \<Longrightarrow> n \<notin> H \<and> ok s' (insert n H)"
    and alloc_nil: "ok s H \<Longrightarrow> alloc s = Some (nil, s') \<Longrightarrow> ok s' H"
    and free_held: "ok s H \<Longrightarrow> n \<in> H \<Longrightarrow> \<exists>s'. free n s = Some s' \<and> ok s' (H - {n})"
begin

lemma run_distinct:
  assumes "name_run alloc free nil s0 s hs" "ok s0 {}"
  shows "distinct hs \<and> ok s (set hs)"
  using assms
proof (induction rule: name_run.induct)
  case (run_alloc s hs n s')
  then show ?case using alloc_fresh [of s "set hs" n s'] by auto
next
  case (run_full s hs s')
  then show ?case using alloc_nil by blast
next
  case (run_free s hs n s')
  then obtain s'' where "free n s = Some s''" "ok s'' (set hs - {n})" using free_held [of s "set hs" n] by auto
  then show ?case using run_free by simp
qed simp

lemma run_free_succeeds:
  assumes "name_run alloc free nil s0 s hs" "ok s0 {}" "n \<in> set hs"
  shows "\<exists>s'. free n s = Some s'"
  using run_distinct [OF assms(1,2)] free_held [of s "set hs" n] assms(3) by blast

end

end
