(* ===== verification/Cspace_Slots.thy ===== *)
theory Cspace_Slots
  imports Cspace Name_Interface UT_Contract
begin

text \<open>
  The slot lists of the CSpace library: both kinds of CSpace satisfy the contract of an
  allocator of names, and a new CSpace starts with all of its slots free.
\<close>

subsection \<open>Frame lemmas\<close>

lemma get_put_cspace [simp]: "p \<noteq> None \<Longrightarrow> get_cspace p (put_cspace p c e) = Some c"
  by (auto simp: get_cspace_def put_cspace_def)

lemma get_cspace_Some: "get_cspace p e = Some c \<Longrightarrow> p \<noteq> None"
  by (cases p) (simp_all add: get_cspace_def)

lemma get_cspace_frame: "cspaces e' = cspaces e \<Longrightarrow> get_cspace p e' = get_cspace p e"
  by (cases p) (simp_all add: get_cspace_def)

lemma kernel_ok_cspaces: "kernel_ok k e = Some e' \<Longrightarrow> cspaces e' = cspaces e"
  by (auto simp: kernel_ok_def kernel_def ask_def Let_def split: if_splits)

lemma malloc_cspaces: "malloc e = (r, e') \<Longrightarrow> cspaces e' = cspaces e"
  by (auto simp: malloc_def ask_def Let_def split: if_splits)

lemma env_ut_alloc_cspaces: "env_ut_alloc sb e = Some (a, e') \<Longrightarrow> cspaces e' = cspaces e"
  by (auto simp: env_ut_alloc_def split: bind_splits)

lemmas cspaces_frame = kernel_ok_cspaces malloc_cspaces env_ut_alloc_cspaces

subsection \<open>One-level CSpaces\<close>

definition level1_next :: "cspace \<Rightarrow> int \<Rightarrow> int option" where
  "level1_next c i = map_option sint (rd (level1_alloc_table c) i)"

definition cs1_ok :: "nat option \<Rightarrow> 'a env_scheme \<Rightarrow> u32 set \<Rightarrow> bool" where
  "cs1_ok p e H \<longleftrightarrow> (\<exists>c fs. get_cspace p e = Some c \<and> cs_levels c = 1 \<and> length (level1_alloc_table c) = 1024
     \<and> chain (level1_next c) (- 1) (next_level1_free_index c) fs \<and> distinct fs
     \<and> set fs \<subseteq> {1..<1024} \<and> uint (num_free_slots c) = int (length fs)
     \<and> uint ` H \<subseteq> {1..<1024} - set fs)"

lemma uint_slot: "0 \<le> i \<Longrightarrow> i < 1024 \<Longrightarrow> uint (word_of_int i :: u32) = i"
  by (rule uint_of_int_small) auto

lemma sint_slot: "uint (s :: u32) < 1024 \<Longrightarrow> sint s = uint s"
  unfolding sint_uint by (rule signed_take_bit_int_eq_self) (rule order_trans [of _ 0], simp_all)

lemma uint_minus_1: "uint (- 1 :: u32) = 2 ^ 32 - 1"
  by (simp add: unsigned_minus_1_eq_mask mask_eq_exp_minus_1)

text \<open>The one-level allocator always returns; it returns the null slot only when no slot is free.\<close>

lemma cs1_alloc:
  assumes "cs1_ok p e H"
  shows "\<exists>n e'. cspace_alloc_slot p e = Some (n, e') \<and>
    (n = CSPACE_NULL \<longrightarrow> e' = e) \<and> (n \<noteq> CSPACE_NULL \<longrightarrow> n \<notin> H \<and> cs1_ok p e' (insert n H))"
proof -
  from assms obtain c fs where c: "get_cspace p e = Some c" "cs_levels c = 1" "length (level1_alloc_table c) = 1024"
    and ch: "chain (level1_next c) (- 1) (next_level1_free_index c) fs" and d: "distinct fs" "set fs \<subseteq> {1..<1024}"
    and n: "uint (num_free_slots c) = int (length fs)" and H: "uint ` H \<subseteq> {1..<1024} - set fs"
    unfolding cs1_ok_def by blast
  have p: "p \<noteq> None" using get_cspace_Some [OF c(1)] .
  show ?thesis
  proof (cases fs)
    case Nil
    then have "num_free_slots c = 0" using n by (simp add: uint_0_iff)
    then show ?thesis using c by (auto simp: cspace_alloc_slot_def)
  next
    case (Cons i gs)
    have hd: "next_level1_free_index c = i" and i: "1 \<le> i" "i < 1024" using ch d(2) Cons by auto
    obtain v where v: "rd (level1_alloc_table c) i = Some v" "chain (level1_next c) (- 1) (sint v) gs"
      using ch Cons by (auto simp: level1_next_def split: option.splits)
    let ?c1 = "c\<lparr>num_free_slots := num_free_slots c - 1\<rparr>"
    let ?c2 = "?c1\<lparr>next_level1_free_index := sint v\<rparr>"
    let ?e2 = "put_cspace p ?c2 (put_cspace p ?c1 e)"
    let ?n = "word_of_int i :: u32"
    have pos: "num_free_slots c > 0" using n Cons by (simp add: word_less_def)
    have un: "uint ?n = i" using i by (intro uint_slot) auto
    have nn: "?n \<noteq> 0" "?n \<noteq> - 1" using un i uint_minus_1 by fastforce+
    have l1: "cspace_alloc_level1_index p (put_cspace p ?c1 e) = Some (i, ?e2)"
      using p v(1) hd i by (simp add: cspace_alloc_level1_index_def)
    have al: "cspace_alloc_slot p e = Some (?n, ?e2)"
      using c(1,2) pos l1 nn(2) by (simp add: cspace_alloc_slot_def)
    have len: "uint (num_free_slots c - 1) = int (length gs)"
      using iffD1 [OF uint_sub_lem, of 1 "num_free_slots c"] n Cons by simp
    have nx: "level1_next ?c2 = level1_next c" by (rule ext) (simp add: level1_next_def)
    have notin: "?n \<notin> H" using H un Cons by force
    have "uint ` insert ?n H \<subseteq> {1..<1024} - set gs" using H un i d(1) Cons by auto
    then have "cs1_ok p ?e2 (insert ?n H)"
      unfolding cs1_ok_def using p c v(2) len d Cons nx by (intro exI [of _ ?c2] exI [of _ gs]) simp
    then show ?thesis using al nn(1) notin by (intro exI [of _ ?n] exI [of _ ?e2]) simp
  qed
qed

lemma cs1_free:
  assumes "cs1_ok p e H" "s \<in> H"
  shows "\<exists>e'. cspace_free_slot p s e = Some (CSPACE_NOERROR, e') \<and> cs1_ok p e' (H - {s})"
proof -
  from assms(1) obtain c fs where c: "get_cspace p e = Some c" "cs_levels c = 1" "length (level1_alloc_table c) = 1024"
    and ch: "chain (level1_next c) (- 1) (next_level1_free_index c) fs" and d: "distinct fs" "set fs \<subseteq> {1..<1024}"
    and n: "uint (num_free_slots c) = int (length fs)" and H: "uint ` H \<subseteq> {1..<1024} - set fs"
    unfolding cs1_ok_def by blast
  have p: "p \<noteq> None" using get_cspace_Some [OF c(1)] .
  have s: "1 \<le> uint s" "uint s < 1024" "uint s \<notin> set fs" using H assms(2) by auto
  have ss: "sint s = uint s" using sint_slot s(2) .
  have s0: "s \<noteq> 0" using s(1) by auto
  let ?c1 = "c\<lparr>num_free_slots := num_free_slots c + 1\<rparr>"
  let ?t = "(level1_alloc_table c)[nat (uint s) := word_of_int (next_level1_free_index c)]"
  let ?c2 = "?c1\<lparr>level1_alloc_table := ?t, next_level1_free_index := uint s\<rparr>"
  let ?e2 = "put_cspace p ?c2 (put_cspace p ?c1 e)"
  have fr: "cspace_free_slot p s e = Some (CSPACE_NOERROR, ?e2)"
    using p c s s0 ss by (simp add: cspace_free_slot_def cspace_free_level1_index_def)
  have len: "length fs \<le> 1023"
    using card_mono [OF _ d(2)] distinct_card [OF d(1)] by simp
  have num: "uint (num_free_slots c + 1) = int (length fs) + 1"
    using n len by (simp add: uint_word_ariths)
  have nxt: "level1_next ?c2 x = level1_next c x" if "x \<in> set fs" for x
  proof -
    have "nat x \<noteq> nat (uint s)" using that d(2) s(1,3) by (auto simp: nat_eq_iff)
    then show ?thesis by (simp add: level1_next_def rd_def)
  qed
  have h: "next_level1_free_index c \<ge> - 1" "next_level1_free_index c < 1024"
    using ch d(2) by (cases fs; auto)+
  have sh: "sint (word_of_int (next_level1_free_index c) :: u32) = next_level1_free_index c"
    using h by (simp add: sint_sbintrunc' signed_take_bit_int_eq_self)
  have "unat s < 1024" using s(1,2) by (simp only: unat_eq_nat_uint nat_less_iff)
  then have nx: "level1_next ?c2 (uint s) = Some (next_level1_free_index c)"
    using s(1,2) c(3) sh by (simp add: level1_next_def)
  have ch': "chain (level1_next ?c2) (- 1) (next_level1_free_index c) fs"
    using ch chain_cong [of fs "level1_next ?c2" "level1_next c", OF nxt] by blast
  have "chain (level1_next ?c2) (- 1) (uint s) (uint s # fs)"
    unfolding chain.simps nx using ch' s(1) by simp
  moreover have "uint ` (H - {s}) \<subseteq> {1..<1024} - set (uint s # fs)" using H by (auto simp: word_uint_eq_iff)
  ultimately have "cs1_ok p ?e2 (H - {s})"
    unfolding cs1_ok_def using p c d s num by (intro exI [of _ ?c2] exI [of _ "uint s # fs"]) simp
  then show ?thesis using fr by blast
qed

subsection \<open>Two-level CSpaces\<close>

text \<open>The entry of slot \<open>s\<close> in the table of its leaf CNode, if the leaf exists.\<close>

definition level2_next :: "cspace \<Rightarrow> u32 \<Rightarrow> u32 option" where
  "level2_next c s = do {
     leaf \<leftarrow> rd (level2_alloc_tables c) (uint (drop_bit 10 s));
     tbl \<leftarrow> leaf;
     rd tbl (uint (CSPACE_LEAF_OFFSET s)) }"

definition leaves_ok :: "cspace \<Rightarrow> int list \<Rightarrow> bool" where
  "leaves_ok c gs \<longleftrightarrow> length (level1_alloc_table c) = 1024 \<and> length (level2_alloc_tables c) = 1024
     \<and> (\<forall>i<1024. \<forall>tbl. level2_alloc_tables c ! i = Some tbl \<longrightarrow> length tbl = 1024)
     \<and> chain (level1_next c) (- 1) (next_level1_free_index c) gs \<and> distinct gs \<and> set gs \<subseteq> {1..<1024}
     \<and> (\<forall>g\<in>set gs. level2_alloc_tables c ! nat g = None)"

definition cs2_ok :: "nat option \<Rightarrow> 'a env_scheme \<Rightarrow> u32 set \<Rightarrow> bool" where
  "cs2_ok p e H \<longleftrightarrow> (\<exists>c fs gs. get_cspace p e = Some c \<and> cs_levels c = 2 \<and> leaves_ok c gs
     \<and> chain (level2_next c) 0 (word_of_int (next_level2_free_slot c)) fs \<and> distinct fs
     \<and> uint (num_free_slots c) = int (length fs)
     \<and> (\<forall>s\<in>H. s \<noteq> 0 \<and> level2_next c s \<noteq> None \<and> s \<notin> set fs))"

lemma leaf_index: "uint (drop_bit 10 (s :: u32)) = uint s div 1024"
  by (simp add: drop_bit_eq_div uint_div)

lemma leaf_offset: "uint (CSPACE_LEAF_OFFSET s) = uint s mod 1024"
proof -
  have "uint (CSPACE_LEAF_OFFSET s) = uint s AND mask 10" by (simp add: CSPACE_LEAF_OFFSET_def unsigned_and_eq mask_eq_exp_minus_1)
  then show ?thesis by (simp add: and_mask_int)
qed

lemma level2_next_eq:
  "level2_next c s = do { leaf \<leftarrow> rd (level2_alloc_tables c) (uint s div 1024); tbl \<leftarrow> leaf; rd tbl (uint s mod 1024) }"
  by (simp only: level2_next_def leaf_index leaf_offset)

lemma level2_next_Some:
  assumes "length (level2_alloc_tables c) = 1024" "level2_next c s \<noteq> None"
  shows "\<exists>tbl. uint s div 1024 < 1024 \<and> level2_alloc_tables c ! nat (uint s div 1024) = Some tbl \<and> uint s mod 1024 < int (length tbl)
    \<and> level2_next c s = Some (tbl ! nat (uint s mod 1024))"
  using assms by (auto simp: level2_next_eq rd_def split: bind_splits if_splits option.splits)

text \<open>Storing a value in the entry of one slot changes the entry of that slot only.\<close>

lemma level2_next_update:
  assumes "length (level2_alloc_tables c) = 1024" "level2_next c s \<noteq> None"
    "level2_alloc_tables c ! nat (uint s div 1024) = Some tbl"
    "level2_alloc_tables c' = (level2_alloc_tables c)[nat (uint s div 1024) := Some (tbl[nat (uint s mod 1024) := v])]"
  shows "level2_next c' x = (if x = s then Some v else level2_next c x)"
proof -
  from level2_next_Some [OF assms(1,2)] assms(3) have s: "uint s div 1024 < 1024" "uint s mod 1024 < int (length tbl)" by auto
  have [simp]: "0 \<le> uint s div 1024" "0 \<le> uint x div 1024" "0 \<le> uint x mod 1024" "0 \<le> uint s mod 1024" by (simp_all add: div_int_pos_iff)
  have eq: "x = s \<longleftrightarrow> uint x div 1024 = uint s div 1024 \<and> uint x mod 1024 = uint s mod 1024"
    unfolding word_uint_eq_iff by (metis div_mult_mod_eq)
  show ?thesis
  proof (cases "uint x div 1024 = uint s div 1024")
    case True
    have "level2_next c' x = rd (tbl[nat (uint s mod 1024) := v]) (uint x mod 1024)"
      using True s assms(1,4) by (simp add: level2_next_eq rd_def)
    moreover have "level2_next c x = rd tbl (uint x mod 1024)"
      using True s assms(1,3) by (simp add: level2_next_eq rd_def)
    ultimately show ?thesis using True s(2) eq by (auto simp: rd_def nth_list_update nat_eq_iff2)
  next
    case False
    then have "nat (uint x div 1024) \<noteq> nat (uint s div 1024)" by (simp add: nat_eq_iff2)
    then have "rd (level2_alloc_tables c') (uint x div 1024) = rd (level2_alloc_tables c) (uint x div 1024)"
      by (simp add: assms(4) rd_def)
    then show ?thesis using False eq by (simp add: level2_next_eq)
  qed
qed

lemma slot_below:
  assumes "length (level2_alloc_tables c) = 1024" "level2_next c s \<noteq> None"
  shows "uint s < 2 ^ 20"
proof -
  have "uint s div 1024 < 1024" using level2_next_Some [OF assms] by blast
  then show ?thesis by (simp add: div_less_iff_less_mult)
qed

lemma free_slots_bound:
  assumes "length (level2_alloc_tables c) = 1024" "chain (level2_next c) 0 h fs" "distinct fs"
  shows "length fs \<le> 2 ^ 20"
proof -
  have "uint s < 2 ^ 20" if "s \<in> set fs" for s
    using slot_below [OF assms(1)] chain_dom [OF assms(2) that] by simp
  then have "uint ` set fs \<subseteq> {0..<2 ^ 20}" by auto
  then have "card (uint ` set fs) \<le> 2 ^ 20" using card_mono [of "{0..<2 ^ 20 :: int}"] by simp
  moreover have "card (uint ` set fs) = length fs"
    using assms(3) by (subst card_image) (auto simp: inj_on_def word_uint_eq_iff distinct_card)
  ultimately show ?thesis by simp
qed

definition cs2_rep :: "cspace \<Rightarrow> u32 list \<Rightarrow> u32 set \<Rightarrow> bool" where
  "cs2_rep c fs H \<longleftrightarrow> cs_levels c = 2 \<and> (\<exists>gs. leaves_ok c gs)
     \<and> chain (level2_next c) 0 (word_of_int (next_level2_free_slot c)) fs \<and> distinct fs
     \<and> uint (num_free_slots c) = int (length fs)
     \<and> (\<forall>s\<in>H. s \<noteq> 0 \<and> level2_next c s \<noteq> None \<and> s \<notin> set fs)"

lemma cs2_ok_rep: "cs2_ok p e H \<longleftrightarrow> (\<exists>c fs. get_cspace p e = Some c \<and> cs2_rep c fs H)"
  unfolding cs2_ok_def cs2_rep_def by blast

text \<open>Taking the head of a nonempty free list.\<close>

lemma cs2_pop:
  assumes "cs2_rep c fs H" "fs \<noteq> []"
  defines "s \<equiv> word_of_int (next_level2_free_slot c) :: u32"
  shows "\<exists>v. level2_next c s = Some v \<and> s \<noteq> 0 \<and> s \<notin> H
    \<and> cs2_rep (c\<lparr>next_level2_free_slot := sint v, num_free_slots := num_free_slots c - 1\<rparr>) (tl fs) (insert s H)"
proof -
  obtain x xs where fs: "fs = x # xs" using assms(2) by (cases fs) auto
  have r: "cs_levels c = 2" "\<exists>gs. leaves_ok c gs" "chain (level2_next c) 0 s fs" "distinct fs"
    "uint (num_free_slots c) = int (length fs)" "\<forall>s\<in>H. s \<noteq> 0 \<and> level2_next c s \<noteq> None \<and> s \<notin> set fs"
    using assms(1) unfolding cs2_rep_def s_def by auto
  obtain v where v: "s = x" "x \<noteq> 0" "level2_next c x = Some v" "chain (level2_next c) 0 v xs"
    using r(3) unfolding fs by (auto split: option.splits)
  let ?c = "c\<lparr>next_level2_free_slot := sint v, num_free_slots := num_free_slots c - 1\<rparr>"
  have nx: "level2_next ?c = level2_next c" by (rule ext) (simp add: level2_next_eq)
  have l1: "level1_next ?c = level1_next c" by (rule ext) (simp add: level1_next_def)
  have lv: "leaves_ok ?c = leaves_ok c" by (rule ext) (simp add: leaves_ok_def l1)
  have num: "uint (num_free_slots c - 1) = int (length xs)"
    using iffD1 [OF uint_sub_lem, of 1 "num_free_slots c"] r(5) fs by simp
  have "cs2_rep ?c xs (insert x H)"
    unfolding cs2_rep_def nx lv using r v num fs by auto
  then show ?thesis using v fs r(6) by auto
qed

text \<open>A new leaf CNode at index \<open>i\<close> adds its 1024 slots to an empty free list.\<close>

definition new_leaf :: "int \<Rightarrow> u32 \<Rightarrow> int \<Rightarrow> cspace \<Rightarrow> cspace" where
  "new_leaf i v nxt c = c\<lparr>next_level1_free_index := nxt, level1_alloc_table := (level1_alloc_table c)[nat i := v],
     level2_alloc_tables := (level2_alloc_tables c)[nat i := Some (leaf_table (push_bit 10 (word_of_int i)))],
     num_free_slots := 1024, next_level2_free_slot := sint (push_bit 10 (word_of_int i) :: u32)\<rparr>"

lemma uint_leaf_slot:
  assumes "0 \<le> i" "i < 1024" "k < 1024"
  shows "uint (push_bit 10 (word_of_int i) + word_of_nat k :: u32) = 1024 * i + int k"
proof -
  have "push_bit 10 (word_of_int i) + word_of_nat k = (word_of_int (1024 * i + int k) :: u32)"
    by (simp add: push_bit_eq_mult)
  moreover have "uint (word_of_int (1024 * i + int k) :: u32) = 1024 * i + int k"
    using assms by (intro uint_of_int_small) auto
  ultimately show ?thesis by simp
qed

lemma length_leaf_table [simp]: "length (leaf_table b) = 1024"
  by (simp add: leaf_table_def)

lemma leaf_table_nth:
  "k < 1024 \<Longrightarrow> leaf_table b ! k = (if k = 1023 then 0 else b + word_of_nat (Suc k))"
  by (auto simp: leaf_table_def nth_append)

lemma new_leaf_next:
  assumes "length (level2_alloc_tables c) = 1024" "0 \<le> i" "i < 1024"
  shows "level2_next (new_leaf i v nxt c) s =
    (if uint s div 1024 = i then Some (leaf_table (push_bit 10 (word_of_int i)) ! nat (uint s mod 1024)) else level2_next c s)"
proof -
  have [simp]: "0 \<le> uint s div 1024" "0 \<le> uint s mod 1024" by (simp_all add: div_int_pos_iff)
  show ?thesis using assms by (auto simp: level2_next_eq rd_def new_leaf_def nth_list_update nat_eq_iff2)
qed

declare upt_rec_numeral [simp del]

lemma new_leaf_chain:
  assumes "length (level2_alloc_tables c) = 1024" "1 \<le> i" "i < 1024"
  defines "b \<equiv> push_bit 10 (word_of_int i) :: u32"
  shows "chain (level2_next (new_leaf i v nxt c)) 0 b (map (\<lambda>k. b + word_of_nat k) [0..<1024])"
proof -
  define f where "f k = (if k = 1024 then 0 else b + word_of_nat k)" for k :: nat
  have u: "uint (b + word_of_nat k) = 1024 * i + int k" if "k < 1024" for k
    unfolding b_def using assms(2,3) that by (intro uint_leaf_slot) auto
  have st: "f k \<noteq> 0 \<and> level2_next (new_leaf i v nxt c) (f k) = Some (f (Suc k))" if "k < 1024" for k
  proof -
    have fk: "f k = b + word_of_nat k" "uint (f k) = 1024 * i + int k" using u [OF that] that by (simp_all add: f_def)
    then have dm: "uint (f k) div 1024 = i" "uint (f k) mod 1024 = int k" using that by simp_all
    have "f k \<noteq> 0" using fk(2) assms(2) by (metis add_pos_nonneg less_irrefl mult_pos_pos of_nat_0_le_iff unsigned_0 zero_less_numeral zless_add1_eq int_one_le_iff_zero_less)
    moreover have "level2_next (new_leaf i v nxt c) (f k) = Some (leaf_table b ! k)"
      using assms(1-3) dm by (subst new_leaf_next) (simp_all add: b_def)
    moreover have "leaf_table b ! k = f (Suc k)" using that by (simp add: leaf_table_nth f_def)
    ultimately show ?thesis by simp
  qed
  have "chain (level2_next (new_leaf i v nxt c)) 0 (f 0) (map f [0..<1024])"
    using st by (intro chain_map_upt) (auto simp: f_def)
  moreover have "map f [0..<1024] = map (\<lambda>k. b + word_of_nat k) [0..<1024]" by (simp add: f_def)
  ultimately show ?thesis by (simp add: f_def)
qed

lemma new_leaf_distinct:
  assumes "1 \<le> i" "i < 1024"
  defines "b \<equiv> push_bit 10 (word_of_int i) :: u32"
  shows "distinct (map (\<lambda>k. b + word_of_nat k) [0..<1024])"
    and "\<And>s. s \<in> set (map (\<lambda>k. b + word_of_nat k) [0..<1024]) \<Longrightarrow> uint s div 1024 = i"
proof -
  have u: "uint (b + word_of_nat k) = 1024 * i + int k" if "k < 1024" for k
    unfolding b_def using assms that by (intro uint_leaf_slot) auto
  have "inj_on (\<lambda>k. b + word_of_nat k) (set [0..<1024])"
  proof (rule inj_onI)
    fix k l assume kl: "k \<in> set [0..<1024]" "l \<in> set [0..<1024]" "b + word_of_nat k = b + word_of_nat l"
    have "k < 1024" "l < 1024" using kl(1,2) by simp_all
    with arg_cong [OF kl(3), of uint] show "k = l" by (simp only: u)
  qed
  then show "distinct (map (\<lambda>k. b + word_of_nat k) [0..<1024])" by (simp add: distinct_map)
  show "uint s div 1024 = i" if "s \<in> set (map (\<lambda>k. b + word_of_nat k) [0..<1024])" for s
  proof -
    from that obtain k where "k < 1024" "s = b + word_of_nat k" by (auto simp only: set_map set_upt image_iff atLeastLessThan_iff)
    then have "uint s = 1024 * i + int k" by (simp only: u)
    then show ?thesis using \<open>k < 1024\<close> by simp
  qed
qed

lemma cs2_grow:
  assumes "cs2_rep c [] H" "leaves_ok c (i # gs)" "level1_next c i = Some nxt"
  shows "cs2_rep (new_leaf i v nxt c) (map (\<lambda>k. push_bit 10 (word_of_int i) + word_of_nat k) [0..<1024]) H"
proof -
  let ?c = "new_leaf i v nxt c" and ?fs = "map (\<lambda>k. push_bit 10 (word_of_int i) + word_of_nat k :: u32) [0..<1024]"
  have L: "length (level1_alloc_table c) = 1024" "length (level2_alloc_tables c) = 1024"
    "\<forall>i<1024. \<forall>tbl. level2_alloc_tables c ! i = Some tbl \<longrightarrow> length tbl = 1024"
    "chain (level1_next c) (- 1) (next_level1_free_index c) (i # gs)" "distinct (i # gs)" "set (i # gs) \<subseteq> {1..<1024}"
    "\<forall>g\<in>set (i # gs). level2_alloc_tables c ! nat g = None" using assms(2) unfolding leaves_ok_def by blast+
  have i: "1 \<le> i" "i < 1024" using L(6) by auto
  have l1: "level1_next ?c g = level1_next c g" if "g \<in> set gs" for g
  proof -
    have "nat g \<noteq> nat i" using that L(5,6) i by (auto simp: nat_eq_iff2)
    then show ?thesis by (simp add: level1_next_def rd_def new_leaf_def)
  qed
  have "chain (level1_next c) (- 1) nxt gs" using L(4) assms(3) by simp
  then have c1: "chain (level1_next ?c) (- 1) nxt gs" using chain_cong [of gs "level1_next ?c" "level1_next c", OF l1] by blast
  have g2: "level2_alloc_tables ?c ! nat g = None" if "g \<in> set gs" for g
  proof -
    have "nat g \<noteq> nat i" using that L(5,6) i by (auto simp: nat_eq_iff2)
    then show ?thesis using L(7) that by (simp add: new_leaf_def)
  qed
  have lens: "length tbl = 1024" if "j < 1024" "level2_alloc_tables ?c ! j = Some tbl" for j tbl
    using that L(2,3) by (cases "j = nat i") (auto simp: new_leaf_def)
  have lv: "leaves_ok ?c gs"
    unfolding leaves_ok_def using L(1,2,5,6) c1 g2 lens by (auto simp: new_leaf_def)
  have H: "s \<noteq> 0 \<and> level2_next ?c s \<noteq> None \<and> s \<notin> set ?fs" if "s \<in> H" for s
  proof -
    have s: "s \<noteq> 0" "level2_next c s \<noteq> None" using assms(1) that unfolding cs2_rep_def by blast+
    then have "uint s div 1024 \<noteq> i" using level2_next_Some [OF L(2) s(2)] L(7) by auto
    then show ?thesis using s new_leaf_next [OF L(2)] i new_leaf_distinct(2) [OF i] by auto
  qed
  have lvl: "cs_levels ?c = 2" using assms(1) by (simp add: cs2_rep_def new_leaf_def)
  have nx: "word_of_int (next_level2_free_slot ?c) = (push_bit 10 (word_of_int i) :: u32)" "num_free_slots ?c = 1024"
    by (simp_all add: new_leaf_def)
  show ?thesis unfolding cs2_rep_def nx
    using lv lvl H new_leaf_chain [OF L(2) i] new_leaf_distinct(1) [OF i] by auto
qed

definition cs2_take :: "nat option \<Rightarrow> 'a env_scheme \<Rightarrow> (u32 \<times> 'a env_scheme) option" where
  "cs2_take p e = do {
     c \<leftarrow> get_cspace p e;
     v \<leftarrow> level2_next c (word_of_int (next_level2_free_slot c));
     Some (word_of_int (next_level2_free_slot c),
       put_cspace p (c\<lparr>next_level2_free_slot := sint v, num_free_slots := num_free_slots c - 1\<rparr>) e) }"

lemma alloc_level2_free: 
  assumes "get_cspace p e = Some c" "num_free_slots c \<noteq> 0"
  shows "cspace_alloc_level2_slot p e = cs2_take p e"
  using assms by (simp add: cspace_alloc_level2_slot_def cs2_take_def level2_next_def Let_def)

lemma alloc_level2_grow:
  assumes "get_cspace p e = Some c" "num_free_slots c = 0" "leaves_ok c gs"
    "cspace_alloc_level2_slot p e = Some (n, e')"
  shows "\<exists>i gs' nxt v e1. gs = i # gs' \<and> level1_next c i = Some nxt
    \<and> cs2_take p (put_cspace p (new_leaf i v nxt c) e1) = Some (n, e')"
proof -
  have p: "p \<noteq> None" using get_cspace_Some [OF assms(1)] .
  have L: "length (level1_alloc_table c) = 1024" "length (level2_alloc_tables c) = 1024"
    "chain (level1_next c) (- 1) (next_level1_free_index c) gs" "set gs \<subseteq> {1..<1024}"
    using assms(3) unfolding leaves_ok_def by blast+
  let ?i = "next_level1_free_index c"
  from assms(4) have i1: "?i \<noteq> - 1"
    using assms(1,2) by (auto simp: cspace_alloc_level2_slot_def cspace_alloc_level1_index_def Let_def split: bind_splits if_splits)
  from chain_head [OF L(3) this] obtain nxt gs' where g: "gs = ?i # gs'" "level1_next c ?i = Some nxt" by blast
  have i: "1 \<le> ?i" "?i < 1024" using L(4) g(1) by auto
  obtain w where w: "rd (level1_alloc_table c) ?i = Some w" "nxt = sint w"
    using g(2) by (auto simp: level1_next_def)
  let ?c1 = "c\<lparr>next_level1_free_index := nxt\<rparr>"
  have l1: "cspace_alloc_level1_index p e = Some (?i, put_cspace p ?c1 e)"
    using assms(1) i1 w by (simp add: cspace_alloc_level1_index_def)
  have u: "uint (word_of_int ?i :: u32) = ?i" using i by (intro uint_slot) auto
  have l1n: "word_of_int ?i \<noteq> (- 1 :: u32)" using u i uint_minus_1 by fastforce
  note unf = assms(4) [unfolded cspace_alloc_level2_slot_def, simplified assms(1) bind.bind_lunit, simplified assms(2) l1 l1n Let_def, simplified l1n, simplified]
  obtain v e2 where a: "env_ut_alloc 14 (put_cspace p ?c1 e) = Some (v, e2)"
    using unf l1n by (cases "env_ut_alloc 14 (put_cspace p ?c1 e)") auto
  have c2: "get_cspace p e2 = Some ?c1"
    using get_cspace_frame [OF env_ut_alloc_cspaces [OF a]] p by simp
  obtain uc off where r: "env_ut_translate v e2 = Some (Some (uc, off))"
    using unf l1n a by (auto split: bind_splits if_splits)
  let ?k = "Untyped_RetypeAtOffset uc CapTableObject off 10 (cs_root_cnode ?c1) 0 0 (word_of_int ?i)"
  obtain e3 where k: "kernel_ok ?k e2 = Some e3"
    using unf l1n a r c2 u i L by (cases "kernel_ok ?k e2") (auto split: if_splits)
  obtain m e4 where m: "malloc e3 = (m, e4)" by (cases "malloc e3")
  have t: "cs2_take p (put_cspace p (new_leaf ?i v nxt c) e4) = Some (n, e')"
    using unf l1n a r c2 u i L k m p
    by (auto simp: cs2_take_def level2_next_def new_leaf_def wr_def Let_def split: if_splits)
  then show ?thesis using g by blast
qed

lemma cs2_take_ok:
  assumes "get_cspace p e = Some c" "cs2_rep c fs H" "fs \<noteq> []" "cs2_take p e = Some (n, e')"
  shows "n \<noteq> 0 \<and> n \<notin> H \<and> cs2_ok p e' (insert n H)"
proof -
  have p: "p \<noteq> None" using get_cspace_Some [OF assms(1)] .
  let ?s = "word_of_int (next_level2_free_slot c) :: u32"
  from cs2_pop [OF assms(2,3)] obtain v where v: "level2_next c ?s = Some v" "?s \<noteq> 0" "?s \<notin> H"
    "cs2_rep (c\<lparr>next_level2_free_slot := sint v, num_free_slots := num_free_slots c - 1\<rparr>) (tl fs) (insert ?s H)" by blast
  have "n = ?s" "e' = put_cspace p (c\<lparr>next_level2_free_slot := sint v, num_free_slots := num_free_slots c - 1\<rparr>) e"
    using assms(1,4) v(1) by (auto simp: cs2_take_def)
  then show ?thesis using v p unfolding cs2_ok_rep by auto
qed

lemma cs2_alloc:
  assumes "cs2_ok p e H" "cspace_alloc_slot p e = Some (n, e')"
  shows "n \<noteq> 0 \<and> n \<notin> H \<and> cs2_ok p e' (insert n H)"
proof -
  from assms(1) obtain c fs where c: "get_cspace p e = Some c" "cs2_rep c fs H" unfolding cs2_ok_rep by blast
  have p: "p \<noteq> None" using get_cspace_Some [OF c(1)] .
  have l: "cs_levels c = 2" using c(2) by (simp add: cs2_rep_def)
  have al: "cspace_alloc_level2_slot p e = Some (n, e')" using assms(2) c(1) l by (simp add: cspace_alloc_slot_def)
  show ?thesis
  proof (cases fs)
    case Nil
    then have z: "num_free_slots c = 0" using c(2) by (simp add: cs2_rep_def uint_0_iff)
    obtain gs where gs: "leaves_ok c gs" using c(2) unfolding cs2_rep_def by blast
    from alloc_level2_grow [OF c(1) z gs al] obtain i gs' nxt v e1 where
      g: "gs = i # gs'" "level1_next c i = Some nxt" "cs2_take p (put_cspace p (new_leaf i v nxt c) e1) = Some (n, e')" by blast
    from cs2_grow [of c H i gs' nxt v] c(2) Nil gs g(1,2) have
      "cs2_rep (new_leaf i v nxt c) (map (\<lambda>k. push_bit 10 (word_of_int i) + word_of_nat k) [0..<1024]) H" by simp
    from cs2_take_ok [OF _ this _ g(3)] p show ?thesis by simp
  next
    case (Cons x xs)
    then have "num_free_slots c \<noteq> 0" using c(2) by (auto simp: cs2_rep_def)
    then have "cs2_take p e = Some (n, e')" using alloc_level2_free [OF c(1)] al by simp
    from cs2_take_ok [OF c _ this] Cons show ?thesis by simp
  qed
qed

lemma cs2_free:
  assumes "cs2_ok p e H" "s \<in> H"
  shows "\<exists>e'. cspace_free_slot p s e = Some (CSPACE_NOERROR, e') \<and> cs2_ok p e' (H - {s})"
proof -
  from assms(1) obtain c fs where c: "get_cspace p e = Some c" "cs2_rep c fs H" unfolding cs2_ok_rep by blast
  have p: "p \<noteq> None" using get_cspace_Some [OF c(1)] .
  obtain gs where gs: "leaves_ok c gs" using c(2) unfolding cs2_rep_def by blast
  have L: "length (level2_alloc_tables c) = 1024"
    "\<forall>i<1024. \<forall>tbl. level2_alloc_tables c ! i = Some tbl \<longrightarrow> length tbl = 1024"
    "\<forall>g\<in>set gs. level2_alloc_tables c ! nat g = None"
    using gs unfolding leaves_ok_def by blast+
  have r: "cs_levels c = 2" "chain (level2_next c) 0 (word_of_int (next_level2_free_slot c)) fs" "distinct fs"
    "uint (num_free_slots c) = int (length fs)" using c(2) unfolding cs2_rep_def by blast+
  have s: "s \<noteq> 0" "level2_next c s \<noteq> None" "s \<notin> set fs" using c(2) assms(2) unfolding cs2_rep_def by blast+
  define d m where "d = uint s div 1024" and "m = uint s mod 1024"
  from level2_next_Some [OF L(1) s(2)] obtain tbl where
    t: "d < 1024" "level2_alloc_tables c ! nat d = Some tbl" unfolding d_def by blast
  have dm: "0 \<le> d" "0 \<le> m" "m < 1024" by (simp_all add: d_def m_def div_int_pos_iff)
  have lt: "length tbl = 1024" using L(2) t dm(1) by (metis nat_less_iff of_nat_numeral)
  let ?h = "word_of_int (next_level2_free_slot c) :: u32"
  let ?t2 = "(level2_alloc_tables c)[nat d := Some (tbl[nat m := ?h])]"
  let ?c = "c\<lparr>level2_alloc_tables := ?t2, next_level2_free_slot := sint s, num_free_slots := num_free_slots c + 1\<rparr>"
  have rdd: "rd (level2_alloc_tables c) d = Some (Some tbl)" using t dm L(1) by (simp add: rd_def)
  have small: "s < 1024 * 1024" using slot_below [OF L(1) s(2)] by (simp add: word_less_def)
  have fr: "cspace_free_slot p s e = Some (CSPACE_NOERROR, put_cspace p ?c e)"
    using c(1) r(1) s(1) rdd small lt dm t(1) L(1)
    by (simp add: cspace_free_slot_def cspace_free_level2_slot_def leaf_index leaf_offset flip: d_def m_def)
  have nx: "level2_next ?c x = (if x = s then Some ?h else level2_next c x)" for x
    by (rule level2_next_update [OF L(1) s(2) t(2) [unfolded d_def]]) (simp add: d_def m_def)
  have "length fs \<le> 2 ^ 20" using free_slots_bound [OF L(1) r(2,3)] .
  then have num: "uint (num_free_slots c + 1) = int (length (s # fs))" using r(4) by (simp add: uint_word_ariths)
  have l1: "level1_next ?c = level1_next c" by (rule ext) (simp add: level1_next_def)
  have nog: "nat g \<noteq> nat d" if "g \<in> set gs" for g using L(3) that t(2) by auto
  have "leaves_ok ?c gs" unfolding leaves_ok_def l1
    using gs t(1) dm lt unfolding leaves_ok_def by (auto simp: nth_list_update nog [symmetric])
  moreover have "chain (level2_next ?c) 0 ?h fs"
    using r(2) s(3) nx chain_cong [of fs "level2_next ?c" "level2_next c"] by (metis (no_types, lifting))
  then have "chain (level2_next ?c) 0 s (s # fs)" using s(1) by (simp add: nx)
  ultimately have "cs2_rep ?c (s # fs) (H - {s})"
    using c(2) r s(3) num unfolding cs2_rep_def by (auto simp: nx)
  then show ?thesis using fr p unfolding cs2_ok_rep by (intro exI [of _ "put_cspace p ?c e"]) auto
qed

subsection \<open>The contract\<close>

interpretation level1_slots: name_allocator "cspace_alloc_slot p" "\<lambda>s e. map_option snd (cspace_free_slot p s e)"
  "CSPACE_NULL" "cs1_ok p" for p :: "nat option"
proof
  fix e e' :: "'a env_scheme" and H n
  assume ok: "cs1_ok p e H"
  show "n \<notin> H \<and> cs1_ok p e' (insert n H)" if "cspace_alloc_slot p e = Some (n, e')" "n \<noteq> CSPACE_NULL"
    using cs1_alloc [OF ok] that by auto
  show "cs1_ok p e' H" if "cspace_alloc_slot p e = Some (CSPACE_NULL, e')"
    using cs1_alloc [OF ok] that ok by auto
  show "\<exists>s'. map_option snd (cspace_free_slot p n e) = Some s' \<and> cs1_ok p s' (H - {n})" if "n \<in> H"
    using cs1_free [OF ok that] by auto
qed

interpretation level2_slots: name_allocator "cspace_alloc_slot p" "\<lambda>s e. map_option snd (cspace_free_slot p s e)"
  "CSPACE_NULL" "cs2_ok p" for p :: "nat option"
proof
  fix e e' :: "'a env_scheme" and H n
  assume ok: "cs2_ok p e H"
  show "n \<notin> H \<and> cs2_ok p e' (insert n H)" if "cspace_alloc_slot p e = Some (n, e')" "n \<noteq> CSPACE_NULL"
    using cs2_alloc [OF ok] that by auto
  show "cs2_ok p e' H" if "cspace_alloc_slot p e = Some (CSPACE_NULL, e')"
    using cs2_alloc [OF ok] that by auto
  show "\<exists>s'. map_option snd (cspace_free_slot p n e) = Some s' \<and> cs2_ok p s' (H - {n})" if "n \<in> H"
    using cs2_free [OF ok that] by auto
qed

text \<open>The tables that a new CSpace starts with satisfy the invariants.\<close>

lemma level1_free_table_nth: "k < 1024 \<Longrightarrow> level1_free_table ! k = (if k = 1023 then - 1 else word_of_nat (Suc k))"
  by (auto simp: level1_free_table_def nth_append)

lemma level1_free_chain:
  assumes "level1_alloc_table c = level1_free_table" "next_level1_free_index c = int i" "i < 1024"
  shows "chain (level1_next c) (- 1) (next_level1_free_index c) (map int [i..<1024])"
proof -
  define f where "f k = (if k = 1024 then - 1 else int k)" for k :: nat
  have st: "f k \<noteq> - 1 \<and> level1_next c (f k) = Some (f (Suc k))" if "k < 1024" for k
  proof -
    have fk: "f k = int k" using that by (simp add: f_def)
    have "rd (level1_alloc_table c) (int k) = Some (level1_free_table ! k)"
      using that by (simp add: assms(1) level1_free_table_def)
    moreover have "sint (level1_free_table ! k) = f (Suc k)"
    proof (cases "k = 1023")
      case False
      then have "uint (word_of_int (int (Suc k)) :: u32) = int (Suc k)" using that by (intro uint_slot) auto
      then have "sint (word_of_nat (Suc k) :: u32) = int (Suc k)"
        using sint_slot [of "word_of_nat (Suc k)"] that False by (simp del: of_nat_Suc)
      then show ?thesis using that False by (simp add: level1_free_table_nth f_def del: of_nat_Suc)
    qed (simp add: level1_free_table_nth f_def)
    ultimately show ?thesis unfolding fk by (simp add: level1_next_def)
  qed
  have "chain (level1_next c) (- 1) (f i) (map f [i..<1024])"
    using st assms(3) by (intro chain_map_upt) (auto simp: f_def)
  moreover have "map f [i..<1024] = map int [i..<1024]" by (simp add: f_def)
  ultimately show ?thesis using assms(2,3) by (simp add: f_def)
qed

subsection \<open>Creating a CSpace\<close>

lemma put_cspace_other [simp]: "p \<noteq> q \<Longrightarrow> get_cspace q (put_cspace p c e) = get_cspace q e"
  by (cases q) (auto simp: get_cspace_def put_cspace_def split: option.splits)

lemma put_cspace_cur [simp]: "cur_cspace (put_cspace p c e) = cur_cspace e"
  by (simp add: put_cspace_def split: option.splits)

lemma put_cspace_heap [simp]: "heap_next (put_cspace p c e) = heap_next e"
  by (simp add: put_cspace_def split: option.splits)

text \<open>What an operation on the CSpace \<open>p\<close> leaves alone.\<close>

definition cs_frame :: "nat option \<Rightarrow> 'a env_scheme \<Rightarrow> 'a env_scheme \<Rightarrow> bool" where
  "cs_frame p e e' \<longleftrightarrow> cur_cspace e' = cur_cspace e \<and> heap_next e \<le> heap_next e' \<and> (\<forall>q. q \<noteq> p \<longrightarrow> get_cspace q e' = get_cspace q e)"

lemma cs_frame_trans: "cs_frame p e e' \<Longrightarrow> cs_frame p e' e'' \<Longrightarrow> cs_frame p e e''"
  by (auto simp: cs_frame_def)

lemma cs_frame_put: "cs_frame p e (put_cspace p c e)"
  by (simp add: cs_frame_def)

lemma cs_frame_kernel: "kernel_ok k e = Some e' \<Longrightarrow> cs_frame p e e'"
  by (cases p) (auto simp: cs_frame_def kernel_ok_def kernel_def ask_def get_cspace_def Let_def split: if_splits)

lemma cs_frame_malloc: "malloc e = (r, e') \<Longrightarrow> cs_frame p e e'"
  by (auto simp: cs_frame_def malloc_def ask_def get_cspace_def Let_def split: if_splits)

lemma cs_frame_ut: "env_ut_alloc sb e = Some (a, e') \<Longrightarrow> cs_frame p e e'"
  by (auto simp: cs_frame_def env_ut_alloc_def get_cspace_def split: bind_splits)

lemmas cs_frames = cs_frame_trans cs_frame_put cs_frame_kernel cs_frame_malloc cs_frame_ut

lemma cs_frame_level1: "cspace_alloc_level1_index p e = Some (i, e') \<Longrightarrow> cs_frame p e e'"
  by (auto simp: cspace_alloc_level1_index_def Let_def intro: cs_frame_put split: bind_splits if_splits)

lemma cs_frame_level2: "cspace_alloc_level2_slot p e = Some (s, e') \<Longrightarrow> cs_frame p e e'"
  by (auto simp: cspace_alloc_level2_slot_def Let_def split: bind_splits if_splits prod.splits)
    (meson cs_frames cs_frame_level1)+

lemma cs_frame_alloc: "cspace_alloc_slot p e = Some (s, e') \<Longrightarrow> cs_frame p e e'"
  by (auto simp: cspace_alloc_slot_def split: bind_splits if_splits dest!: cs_frame_level1 intro: cs_frame_level2 cs_frame_trans [OF cs_frame_put])
   (simp_all add: cs_frame_def)

lemma cs_frame_free: "cspace_free_slot p s e = Some (r, e') \<Longrightarrow> cs_frame p e e'"
  by (auto simp: cspace_free_slot_def cspace_free_level1_index_def cspace_free_level2_slot_def
     split: bind_splits if_splits intro: cs_frame_put cs_frame_trans [OF cs_frame_put cs_frame_put])

lemma cs_frame_delete: "cspace_delete_cap p s e = Some (r, e') \<Longrightarrow> cs_frame p e e'"
  by (auto simp: cspace_delete_cap_def split: bind_splits intro: cs_frame_trans [OF cs_frame_kernel cs_frame_free])

lemma cs2_ok_cong: "get_cspace p e' = get_cspace p e \<Longrightarrow> cs2_ok p e' H = cs2_ok p e H"
  by (simp add: cs2_ok_rep)

lemma cs1_ok_cong: "get_cspace p e' = get_cspace p e \<Longrightarrow> cs1_ok p e' H = cs1_ok p e H"
  by (simp add: cs1_ok_def)

lemma kernel_ok_get: "kernel_ok k e = Some e' \<Longrightarrow> get_cspace p e' = get_cspace p e"
  using get_cspace_frame kernel_ok_cspaces by blast

lemma cs2_mint:
  assumes "cspace_mint_cap p p src r b e = Some (n, e')" "cs2_ok p e H"
  shows "n \<noteq> 0 \<and> n \<notin> H \<and> cs2_ok p e' (insert n H) \<and> cs_frame p e e'"
proof -
  from assms(1) obtain e1 d k where a: "cspace_alloc_slot p e = Some (n, e1)" "kernel_ok k e1 = Some e'"
    by (auto simp: cspace_mint_cap_def split: bind_splits if_splits)
  from cs2_alloc [OF assms(2) a(1)] have "n \<noteq> 0 \<and> n \<notin> H \<and> cs2_ok p e1 (insert n H)" .
  then show ?thesis using cs2_ok_cong [OF kernel_ok_get [OF a(2)]] cs_frame_trans [OF cs_frame_alloc [OF a(1)] cs_frame_kernel [OF a(2)]]
    by simp
qed

lemma cs2_delete:
  assumes "cspace_delete_cap p s e = Some (r, e')" "cs2_ok p e H" "s \<in> H"
  shows "r = CSPACE_NOERROR \<and> cs2_ok p e' (H - {s})"
proof -
  from assms(1) obtain k e1 where a: "kernel_ok k e = Some e1" "cspace_free_slot p s e1 = Some (r, e')"
    by (auto simp: cspace_delete_cap_def split: bind_splits)
  have "cs2_ok p e1 H" using assms(2) cs2_ok_cong [OF kernel_ok_get [OF a(1)]] by blast
  from cs2_free [OF this assms(3)] a(2) show ?thesis by auto
qed

text \<open>The tables of a new CSpace.\<close>

lemma new_level1_ok:
  assumes "get_cspace p e = Some c" "cs_levels c = 1" "level1_alloc_table c = level1_free_table"
    "next_level1_free_index c = 1" "num_free_slots c = 1023"
  shows "cs1_ok p e {}"
proof -
  have "chain (level1_next c) (- 1) (next_level1_free_index c) (map int [1..<1024])"
    using level1_free_chain [of c 1] assms by simp
  then show ?thesis unfolding cs1_ok_def using assms
    by (intro exI [of _ c] exI [of _ "map int [1..<1024]"]) (auto simp: level1_free_table_def distinct_map)
qed

lemma new_level2_ok:
  assumes "get_cspace p e = Some c" "cs_levels c = 2" "level1_alloc_table c = level1_free_table[0 := v]"
    "next_level1_free_index c = 1" "level2_alloc_tables c = (replicate 1024 None)[0 := Some (leaf_table 0)]"
    "next_level2_free_slot c = 1" "num_free_slots c = 1023"
  shows "cs2_ok p e {}"
proof -
  let ?gs = "map int [1..<1024]" and ?fs = "map word_of_nat [1..<1024] :: u32 list"
  let ?d = "c\<lparr>level1_alloc_table := level1_free_table\<rparr>"
  have "chain (level1_next ?d) (- 1) 1 ?gs" using level1_free_chain [of ?d 1] assms by simp
  moreover have "level1_next c x = level1_next ?d x" if "x \<in> set ?gs" for x
    using that assms(3) by (auto simp: level1_next_def rd_def)
  ultimately have g: "chain (level1_next c) (- 1) (next_level1_free_index c) ?gs"
    using chain_cong [of ?gs "level1_next c" "level1_next ?d"] assms(4) by simp
  have lv: "leaves_ok c ?gs"
    unfolding leaves_ok_def using g assms(3,5) by (auto simp: level1_free_table_def distinct_map nth_Cons' nth_list_update)
  define f where "f k = (if k = 1024 then 0 else word_of_nat k :: u32)" for k :: nat
  have u: "uint (word_of_nat k :: u32) = int k" if "k < 1024" for k
    using uint_slot [of "int k"] that by simp
  have st: "f k \<noteq> 0 \<and> level2_next c (f k) = Some (f (Suc k))" if "1 \<le> k" "k < 1024" for k
  proof -
    have fk: "uint (f k) = int k" using u [OF that(2)] that by (simp add: f_def)
    have "level2_next c (f k) = Some (leaf_table 0 ! k)"
      unfolding level2_next_eq fk using that assms(5) by (simp add: rd_def)
    moreover have "f k \<noteq> 0" using fk that by auto
    ultimately show ?thesis using that by (simp add: leaf_table_nth f_def)
  qed
  have mf: "map f [1..<1024] = ?fs" by (simp add: f_def)
  have "chain (level2_next c) 0 (f 1) ?fs"
    unfolding mf [symmetric] using st by (intro chain_map_upt) (auto simp: f_def)
  then have ch: "chain (level2_next c) 0 1 ?fs" by (simp add: f_def)
  have "inj_on (word_of_nat :: nat \<Rightarrow> u32) {1..<1024}"
    by (rule inj_onI) (metis u atLeastLessThan_iff of_nat_eq_iff)
  then have "distinct ?fs" by (simp add: distinct_map)
  then have "cs2_rep c ?fs {}"
    unfolding cs2_rep_def using lv assms ch by auto
  then show ?thesis using assms(1) unfolding cs2_ok_rep by blast
qed

lemma cnode_memory_frame: "cnode_memory e = Some (a, u, off, e') \<Longrightarrow> cs_frame p e e' \<and> cspaces e' = cspaces e"
  by (auto simp: cnode_memory_def intro: cs_frame_ut env_ut_alloc_cspaces split: bind_splits if_splits)

text \<open>The state between the creation of the tables and the minting of the root capability.\<close>

definition create_ready :: "int \<Rightarrow> nat option \<Rightarrow> u32 \<Rightarrow> u32 set \<Rightarrow> 'a env_scheme \<Rightarrow> 'a env_scheme \<Rightarrow> bool" where
  "create_ready levels c slot H e e6 \<longleftrightarrow> slot \<noteq> 0 \<and> slot \<notin> H \<and> c \<noteq> cur_cspace e \<and> c \<noteq> None
     \<and> cur_cspace e6 = cur_cspace e \<and> cs2_ok (cur_cspace e) e6 (insert slot H)
     \<and> (\<forall>r (e' :: 'a env_scheme). (case get_cspace c e6 of None \<Rightarrow> False | Some d \<Rightarrow> get_cspace c e' = Some (d\<lparr>cs_root_cnode := r\<rparr>))
          \<longrightarrow> (if levels = 1 then cs1_ok c e' {} else cs2_ok c e' {}))"

lemma create_finish:
  fixes e e6 :: "'a env_scheme"
  assumes rdy: "create_ready levels c slot H e e6"
    and m: "cspace_mint_cap (cur_cspace e6) (cur_cspace e6) slot r b e6 = Some (root, e7)"
    and g: "get_cspace c e7 = Some c3"
    and d: "cspace_delete_cap (cur_cspace e7) slot (put_cspace c (c3\<lparr>cs_root_cnode := root\<rparr>) e7) = Some (err, e8)"
  shows "root \<notin> H \<and> root \<noteq> 0 \<and> cs2_ok (cur_cspace e) e8 (insert root H) \<and> cur_cspace e8 = cur_cspace e
    \<and> c \<noteq> cur_cspace e \<and> (if levels = 1 then cs1_ok c e8 {} else cs2_ok c e8 {})"
proof -
  let ?q = "cur_cspace e"
  have R: "slot \<noteq> 0" "slot \<notin> H" "c \<noteq> ?q" "c \<noteq> None" "cur_cspace e6 = ?q" "cs2_ok ?q e6 (insert slot H)"
    using rdy unfolding create_ready_def by blast+
  from cs2_mint [OF m] R have mm: "root \<noteq> 0" "root \<notin> insert slot H" "cs2_ok ?q e7 (insert root (insert slot H))" "cs_frame ?q e6 e7"
    by auto
  let ?e = "put_cspace c (c3\<lparr>cs_root_cnode := root\<rparr>) e7"
  have q7: "cur_cspace e7 = ?q" "get_cspace c e7 = get_cspace c e6" using mm(4) R(3,5) by (auto simp: cs_frame_def)
  have "cs2_ok ?q ?e (insert root (insert slot H))" using mm(3) R(3) by (subst cs2_ok_cong) auto
  from cs2_delete [OF d [unfolded q7(1)] this] mm(2) R(2) have "cs2_ok ?q e8 (insert root H)"
    by (simp add: insert_commute insert_Diff_if)
  moreover have fr: "cs_frame ?q ?e e8" using cs_frame_delete [OF d] q7(1) by simp
  then have "cur_cspace e8 = ?q" "get_cspace c e8 = Some (c3\<lparr>cs_root_cnode := root\<rparr>)"
    using q7(1) R(3,4) by (auto simp: cs_frame_def)
  moreover have "case get_cspace c e6 of None \<Rightarrow> False | Some d \<Rightarrow> get_cspace c e8 = Some (d\<lparr>cs_root_cnode := root\<rparr>)"
    using calculation(3) g q7(2) by simp
  then have "if levels = 1 then cs1_ok c e8 {} else cs2_ok c e8 {}" using rdy unfolding create_ready_def by blast
  ultimately show ?thesis using mm R by auto
qed

lemma create_level1:
  assumes cr: "cspace_create 1 e = Some (c, e8)" and ok: "cs2_ok (cur_cspace e) e H"
    and q: "cur_cspace e = Some q" "q < heap_next e"
  shows "\<exists>root. root \<notin> H \<and> root \<noteq> 0 \<and> cs2_ok (cur_cspace e) e8 (insert root H) \<and> cur_cspace e8 = cur_cspace e
    \<and> c \<noteq> cur_cspace e \<and> cs1_ok c e8 {}"
proof -
  obtain e1 where ma: "malloc e = (c, e1)" "c \<noteq> None" using cr by (auto simp: cspace_create_def Let_def split: bind_splits if_splits prod.splits)
  have c: "c = Some (heap_next e)" using ma by (auto simp: malloc_def ask_def Let_def split: if_splits)
  let ?c0 = "\<lambda>slot addr. \<lparr>cs_levels = 1, cs_root_cnode = slot, cs_guard = CapGuard 0 22, cs_addr = addr,
     next_level1_free_index = 1, next_level2_free_slot = 0, num_free_slots = 1023,
     level1_alloc_table = level1_free_table, level2_alloc_tables = replicate 1024 None\<rparr>"
  from cr ma obtain addr u off e2 slot e3 k e4 root e7 c3 err where
    cm: "cnode_memory e1 = Some (addr, u, off, e2)" and al: "cspace_alloc_slot (cur_cspace e2) e2 = Some (slot, e3)" "slot \<noteq> 0"
    and k: "kernel_ok k e3 = Some e4"
    and fin: "cspace_mint_cap (cur_cspace e4) (cur_cspace e4) slot 7 (CapGuard 0 22) (put_cspace c (?c0 slot addr) e4) = Some (root, e7)"
      "get_cspace c e7 = Some c3"
      "cspace_delete_cap (cur_cspace e7) slot (put_cspace c (c3\<lparr>cs_root_cnode := root\<rparr>) e7) = Some (err, e8)"
    by (auto simp: cspace_create_def Let_def split: bind_splits if_splits)
  let ?e6 = "put_cspace c (?c0 slot addr) e4"
  note f1 = cs_frame_malloc [OF ma(1), of None] and f2 = conjunct1 [OF cnode_memory_frame [OF cm, of None]]
    and f3 = cs_frame_alloc [OF al(1)] and f4 = cs_frame_kernel [OF k, of None]
  have cur: "cur_cspace e1 = Some q" "cur_cspace e2 = Some q" "cur_cspace e4 = Some q" "get_cspace (Some q) e2 = get_cspace (Some q) e"
    using f1 f2 f3 f4 q(1) unfolding cs_frame_def by simp_all
  have "cs2_ok (Some q) e2 H" using ok q(1) cs2_ok_cong [OF cur(4)] by simp
  from cs2_alloc [OF this] al(1) have s: "slot \<notin> H" "cs2_ok (Some q) e3 (insert slot H)" unfolding cur(2) by blast+
  have g6: "get_cspace (Some q) ?e6 = get_cspace (Some q) e3" using c q(2) kernel_ok_get [OF k] by simp
  have "cs2_ok (Some q) ?e6 (insert slot H)" by (rule iffD2 [OF cs2_ok_cong [OF g6] s(2)])
  moreover have "cs1_ok c e' {}" if "get_cspace c e' = Some ((?c0 slot addr)\<lparr>cs_root_cnode := r\<rparr>)" for e' and r
    by (rule new_level1_ok [OF that]) simp_all
  ultimately have "create_ready 1 c slot H e ?e6"
    unfolding create_ready_def using al(2) s(1) c q cur(3) by simp blast
  from create_finish [OF this _ fin(2,3)] fin(1) show ?thesis by auto
qed

subsection \<open>Properties\<close>

text \<open>
  C16. No slot of a CSpace is handed out twice: from a CSpace none of whose slots is held, of one
  level or of two, after any sequence of slot allocations and releases the slots held are
  pairwise different and none is the null slot, and each can be released without an error.
\<close>

theorem cspace_slots_distinct:
  assumes "cs1_ok p e {} \<or> cs2_ok p e {}"
    and "name_run (cspace_alloc_slot p) (\<lambda>s e. map_option snd (cspace_free_slot p s e)) CSPACE_NULL e e' hs"
  shows "distinct hs \<and> CSPACE_NULL \<notin> set hs \<and> (\<forall>s\<in>set hs. \<exists>e''. cspace_free_slot p s e' = Some (CSPACE_NOERROR, e''))"
  using assms(1)
proof
  assume "cs1_ok p e {}"
  then have d: "distinct hs" "cs1_ok p e' (set hs)" using level1_slots.run_distinct [OF assms(2)] by auto
  moreover have "CSPACE_NULL \<notin> set hs" using d(2) by (auto simp: cs1_ok_def)
  ultimately show ?thesis using cs1_free by blast
next
  assume "cs2_ok p e {}"
  then have d: "distinct hs" "cs2_ok p e' (set hs)" using level2_slots.run_distinct [OF assms(2)] by auto
  moreover have "CSPACE_NULL \<notin> set hs" using d(2) by (auto simp: cs2_ok_def)
  ultimately show ?thesis using cs2_free by blast
qed

definition cspace_demo :: cspace where
  "cspace_demo = \<lparr>cs_levels = 2, cs_root_cnode = 2, cs_guard = CapGuard 0 12, cs_addr = 0x4000,
     next_level1_free_index = 1, next_level2_free_slot = 1, num_free_slots = 1023,
     level1_alloc_table = level1_free_table[0 := 0x8000],
     level2_alloc_tables = (replicate 1024 None)[0 := Some (leaf_table 0)]\<rparr>"

definition ut_demo :: ut_state where
  "ut_demo = (case ut_allocator_init (\<lambda>_. True) 0x10000000 0x1000C000 ut_boot of None \<Rightarrow> ut_boot | Some u \<Rightarrow> u)"

definition env_demo :: env where
  "env_demo = \<lparr>answers = (\<lambda>n. if n = 0 then 1 else 0), asked = 0, klog = [], heap_next = 1, ut = ut_demo,
     ut_tab = tab_example, cspaces = [0 \<mapsto> cspace_demo], cur_cspace = Some 0\<rparr>"

lemma env_demo_ok: "cs2_ok (Some 0) env_demo {}"
  by (rule new_level2_ok [of _ _ cspace_demo]) (simp_all add: env_demo_def cspace_demo_def get_cspace_def)

lemma env_demo_alloc: "\<exists>e'. cspace_alloc_slot (Some 0) env_demo = Some (1, e')"
  by (simp add: cspace_alloc_slot_def cspace_alloc_level2_slot_def env_demo_def cspace_demo_def get_cspace_def
      CSPACE_LEAF_OFFSET_def rd_def)

theorem cspace_slots_distinct_witness:
  "\<exists>e'. name_run (cspace_alloc_slot (Some 0)) (\<lambda>s e. map_option snd (cspace_free_slot (Some 0) s e)) CSPACE_NULL env_demo e' [1]
     \<and> (\<exists>e''. cspace_free_slot (Some 0) 1 e' = Some (CSPACE_NOERROR, e''))"
proof -
  obtain e' where "cspace_alloc_slot (Some 0) env_demo = Some (1, e')" using env_demo_alloc by blast
  then have r: "name_run (cspace_alloc_slot (Some 0)) (\<lambda>s e. map_option snd (cspace_free_slot (Some 0) s e)) CSPACE_NULL env_demo e' [1]"
    using name_run.run_alloc [OF name_run.run_start] by fastforce
  from cspace_slots_distinct [OF disjI2 [OF env_demo_ok] r] r show ?thesis by auto
qed


lemma ut_alloc_14: "ut_alloc m 14 u = ut_alloc (\<lambda>_. None) 14 u"
  by (simp add: ut_alloc_def)

lemma ut_demo_alloc: "\<exists>u. ut_alloc m 14 ut_demo = Some (0x10000000, u)"
proof -
  have "map_option fst (ut_alloc (\<lambda>_. None) 14 ut_demo) = Some 0x10000000" by code_simp
  then show ?thesis by (subst ut_alloc_14) auto
qed

lemma env_demo_create: "\<exists>c e'. cspace_create 1 env_demo = Some (c, e')"
proof -
  have t: "ut_translate tab_example 0x10000000 = Some (Some (11, 0))" by code_simp
  define e1 where "e1 = env_demo\<lparr>asked := 1, heap_next := 2\<rparr>"
  have m: "malloc env_demo = (Some 1, e1)" by (simp add: malloc_def ask_def env_demo_def e1_def)
  obtain u where u: "ut_alloc (\<lambda>k. if answers e1 (asked e1 + k) = 0 then None else Some (heap_next e1 + k)) 14 ut_demo = Some (0x10000000, u)"
    using ut_demo_alloc by blast
  define e2 where "e2 = e1\<lparr>ut := u, asked := 4, heap_next := 5\<rparr>"
  have "ut e1 = ut_demo" "ut_tab e2 = tab_example" by (simp_all add: e1_def e2_def env_demo_def)
  then have cm: "cnode_memory e1 = Some (0x10000000, 11, 0, e2)"
    using u t by (simp add: cnode_memory_def env_ut_alloc_def env_ut_translate_def) (simp add: e2_def e1_def env_demo_def)
  have a2: "answers e2 = (\<lambda>n. if n = 0 then 1 else 0)" "asked e2 = 4" "cur_cspace e2 = Some 0" "cspaces e2 = [0 \<mapsto> cspace_demo]" by (simp_all add: e2_def e1_def env_demo_def)
  show ?thesis
    by (simp add: cspace_create_def m cm Let_def a2 cspace_alloc_slot_def cspace_alloc_level2_slot_def get_cspace_def put_cspace_def
       cspace_demo_def rd_def CSPACE_LEAF_OFFSET_def cspace_retype_depth_def kernel_ok_def kernel_def ask_def cspace_mint_cap_def leaf_table_nth
       cspace_delete_cap_def cspace_free_slot_def cspace_free_level2_slot_def wr_def)
qed


end
