(* ===== verification/Cpio.thy ===== *)
theory Cpio
  imports SOS_Prelude
begin

text \<open>
  \<^verbatim>\<open>libs/libcpio\<close>: the reader of the CPIO archive that holds the boot files. Memory is a
  function from addresses to bytes; a C string is a function from offsets to bytes. The loops
  over the entries of an archive follow the sizes written in it and need not end, so they are
  partial functions.
\<close>

subsection \<open>Strings and numbers\<close>

type_synonym cstr = "u32 \<Rightarrow> u8"

abbreviation (input) str_at :: "cstr \<Rightarrow> u32 \<Rightarrow> cstr" where
  "str_at mem a \<equiv> \<lambda>i. mem (a + i)"

definition align_up :: "u32 \<Rightarrow> u32 \<Rightarrow> u32" where
  "align_up n align = (n + align - 1) AND NOT (align - 1)"

text \<open>The value of a hexadecimal digit, if the byte is one.\<close>

definition hex_digit :: "u8 \<Rightarrow> u32 option" where
  "hex_digit c =
     (if 48 \<le> c \<and> c \<le> 57 then Some (ucast (c - 48))
      else if 97 \<le> c \<and> c \<le> 102 then Some (ucast (c - 97) + 10)
      else if 65 \<le> c \<and> c \<le> 70 then Some (ucast (c - 65) + 10)
      else None)"

primrec parse_hex_from :: "cstr \<Rightarrow> nat \<Rightarrow> u32 \<Rightarrow> u32 \<Rightarrow> u32" where
  "parse_hex_from s 0 i r = r"
| "parse_hex_from s (Suc n) i r =
     (case hex_digit (s i) of None \<Rightarrow> r * 16 | Some d \<Rightarrow> parse_hex_from s n (i + 1) (r * 16 + d))"

definition parse_hex_str :: "cstr \<Rightarrow> nat \<Rightarrow> u32" where
  "parse_hex_str s max_len = parse_hex_from s max_len 0 0"

function cpio_strncmp_from :: "cstr \<Rightarrow> cstr \<Rightarrow> u32 \<Rightarrow> u32 \<Rightarrow> int" where
  "cpio_strncmp_from a b n i =
     (if i < n then
        if a i \<noteq> b i then uint (a i) - uint (b i)
        else if a i = 0 then 0
        else cpio_strncmp_from a b n (i + 1)
      else 0)"
  by pat_completeness auto
termination
proof (relation "measure (\<lambda>(a, b, n, i). unat n - unat i)")
  fix n i :: u32
  assume "i < n"
  then have "unat i < unat n" by (simp add: word_less_nat_alt)
  with unat_inc [OF this] show "((a, b, n, i + 1), a, b, n, i) \<in> measure (\<lambda>(a, b, n, i). unat n - unat i)" for a b :: cstr
    by simp
qed simp

declare cpio_strncmp_from.simps [simp del]

definition cpio_strncmp :: "cstr \<Rightarrow> cstr \<Rightarrow> u32 \<Rightarrow> int" where
  "cpio_strncmp a b n = cpio_strncmp_from a b n 0"

partial_function (option) cpio_strcpy :: "u32 \<Rightarrow> u32 \<Rightarrow> cstr \<Rightarrow> cstr option" where
  "cpio_strcpy to from mem =
     (if mem from \<noteq> 0 then cpio_strcpy (to + 1) (from + 1) (mem(to := mem from)) else Some mem)"

partial_function (option) cpio_strlen_from :: "cstr \<Rightarrow> u32 \<Rightarrow> u32 option" where
  "cpio_strlen_from s i = (if s i \<noteq> 0 then cpio_strlen_from s (i + 1) else Some i)"

definition cpio_strlen :: "cstr \<Rightarrow> u32 option" where
  "cpio_strlen s = cpio_strlen_from s 0"

declare cpio_strcpy.simps [code] cpio_strlen_from.simps [code]

subsection \<open>Entries\<close>

text \<open>The offsets of the fields of \<^verbatim>\<open>struct cpio_header\<close> that the reader uses, and its size.\<close>

definition cpio_header_size :: u32 where "cpio_header_size = 110"
definition c_filesize_offset :: u32 where "c_filesize_offset = 54"
definition c_namesize_offset :: u32 where "c_namesize_offset = 94"

definition lit :: "string \<Rightarrow> cstr" where
  "lit xs i = (if unat i < length xs then of_char (xs ! unat i) else 0)"

definition CPIO_HEADER_MAGIC :: cstr where "CPIO_HEADER_MAGIC = lit ''070701''"
definition CPIO_FOOTER_MAGIC :: cstr where "CPIO_FOOTER_MAGIC = lit ''TRAILER!!!''"

record cpio_entry =
  ce_filename :: u32
  ce_filesize :: u32
  ce_data :: u32
  ce_next :: u32

text \<open>\<^term>\<open>None\<close> is the nonzero return code.\<close>

definition cpio_parse_header :: "cstr \<Rightarrow> u32 \<Rightarrow> cpio_entry option" where
  "cpio_parse_header mem archive =
     (if cpio_strncmp (str_at mem archive) CPIO_HEADER_MAGIC 6 \<noteq> 0 then None
      else let filesize = parse_hex_str (str_at mem (archive + c_filesize_offset)) 8;
               filename = archive + cpio_header_size
           in if cpio_strncmp (str_at mem filename) CPIO_FOOTER_MAGIC 11 = 0 then None
              else let filename_length = parse_hex_str (str_at mem (archive + c_namesize_offset)) 8;
                       data = align_up (archive + cpio_header_size + filename_length) 4
                   in Some \<lparr>ce_filename = filename, ce_filesize = filesize, ce_data = data,
                        ce_next = align_up (data + filesize) 4\<rparr>)"

text \<open>The entry number \<open>n\<close>, with its name and size; \<^term>\<open>None\<close> is NULL.\<close>

primrec cpio_get_entry_loop :: "cstr \<Rightarrow> nat \<Rightarrow> u32 \<Rightarrow> cpio_entry option \<Rightarrow> cpio_entry option" where
  "cpio_get_entry_loop mem 0 header res = res"
| "cpio_get_entry_loop mem (Suc k) header res =
     (case cpio_parse_header mem header of None \<Rightarrow> None
      | Some c \<Rightarrow> cpio_get_entry_loop mem k (ce_next c) (Some c))"

definition cpio_get_entry :: "cstr \<Rightarrow> u32 \<Rightarrow> int \<Rightarrow> cpio_entry option" where
  "cpio_get_entry mem archive n = cpio_get_entry_loop mem (nat (n + 1)) archive None"

text \<open>The outer option says whether the loop ends; the inner one is the result, NULL or a data pointer and size.\<close>

partial_function (option) cpio_get_file :: "cstr \<Rightarrow> u32 \<Rightarrow> cstr \<Rightarrow> (u32 \<times> u32) option option" where
  "cpio_get_file mem header name =
     (case cpio_parse_header mem header of
        None \<Rightarrow> Some None
      | Some c \<Rightarrow> if cpio_strncmp (str_at mem (ce_filename c)) name (- 1) = 0
          then Some (Some (ce_data c, ce_filesize c))
          else cpio_get_file mem (ce_next c) name)"

record cpio_info_t =
  file_count :: u32
  max_path_sz :: u32

partial_function (option) cpio_info_loop :: "cstr \<Rightarrow> u32 \<Rightarrow> cpio_info_t \<Rightarrow> (int \<times> cpio_info_t) option" where
  "cpio_info_loop mem header info =
     (case cpio_parse_header mem header of
        None \<Rightarrow> Some (1, info)
      | Some c \<Rightarrow> do {
          sz \<leftarrow> cpio_strlen (str_at mem (ce_filename c));
          cpio_info_loop mem (ce_next c) \<lparr>file_count = file_count info + 1,
            max_path_sz = (if sz > max_path_sz info then sz else max_path_sz info)\<rparr> })"

definition cpio_info :: "cstr \<Rightarrow> u32 \<Rightarrow> cpio_info_t option \<Rightarrow> (int \<times> cpio_info_t option) option" where
  "cpio_info mem archive info =
     (case info of None \<Rightarrow> Some (1, None)
      | Some i \<Rightarrow> map_option (map_prod id Some) (cpio_info_loop mem archive \<lparr>file_count = 0, max_path_sz = 0\<rparr>))"

declare cpio_get_file.simps [code] cpio_info_loop.simps [code]

text \<open>\<open>buf\<close> lists the addresses in the caller's array.\<close>

fun cpio_ls :: "u32 \<Rightarrow> u32 list \<Rightarrow> cstr \<Rightarrow> cstr option" where
  "cpio_ls header [] mem = Some mem"
| "cpio_ls header (b # buf) mem =
     (case cpio_parse_header mem header of None \<Rightarrow> Some mem
      | Some c \<Rightarrow> do {
          mem' \<leftarrow> cpio_strcpy b (ce_filename c) mem;
          cpio_ls (ce_next c) buf mem' })"

end
