(* ===== verification/Cpio_Roundtrip.thy ===== *)
theory Cpio_Roundtrip
  imports Cpio
begin

text \<open>
  Reading back what a reference writer of the archive format has written.
\<close>

subsection \<open>A reference writer\<close>

text \<open>
  The portable ASCII format: a header of hexadecimal fields, the name with its terminator, and
  the contents, each padded to four bytes. The fields the reader ignores are zero.
\<close>

definition hex_char :: "nat \<Rightarrow> u8" where
  "hex_char d = (if d < 10 then word_of_nat (48 + d) else word_of_nat (87 + d))"

primrec hex_field :: "nat \<Rightarrow> nat \<Rightarrow> u8 list" where
  "hex_field 0 v = []"
| "hex_field (Suc n) v = hex_field n (v div 16) @ [hex_char (v mod 16)]"

definition pad4 :: "nat \<Rightarrow> u8 list" where
  "pad4 n = replicate ((4 - n mod 4) mod 4) 0"

definition bytes :: "string \<Rightarrow> u8 list" where
  "bytes s = map of_char s"

definition write_entry :: "u8 list \<times> u8 list \<Rightarrow> u8 list" where
  "write_entry f = (case f of (name, contents) \<Rightarrow>
     bytes ''070701'' @ concat (replicate 6 (hex_field 8 0)) @ hex_field 8 (length contents)
     @ concat (replicate 4 (hex_field 8 0)) @ hex_field 8 (length name + 1) @ hex_field 8 0
     @ name @ [0] @ pad4 (111 + length name) @ contents @ pad4 (length contents))"

definition write_archive :: "(u8 list \<times> u8 list) list \<Rightarrow> u8 list" where
  "write_archive fs = concat (map write_entry fs) @ write_entry (bytes ''TRAILER!!!'', [])"

definition loaded :: "cstr \<Rightarrow> u32 \<Rightarrow> u8 list \<Rightarrow> bool" where
  "loaded mem a xs \<longleftrightarrow> (\<forall>k<length xs. mem (a + word_of_nat k) = xs ! k)"

definition file_ok :: "u8 list \<times> u8 list \<Rightarrow> bool" where
  "file_ok f \<longleftrightarrow> 0 \<notin> set (fst f) \<and> fst f \<noteq> bytes ''TRAILER!!!'' \<and> length (fst f) + 1 < 2 ^ 32 - 1 \<and> length (snd f) < 2 ^ 32"

lemma loaded_append: "loaded mem a (xs @ ys) \<longleftrightarrow> loaded mem a xs \<and> loaded mem (a + word_of_nat (length xs)) ys"
proof
  assume l: "loaded mem a (xs @ ys)"
  have "loaded mem a xs" using l by (auto simp: loaded_def nth_append)
  moreover have "mem (a + word_of_nat (length xs) + word_of_nat k) = ys ! k" if "k < length ys" for k
    using l that unfolding loaded_def by (auto simp: nth_append add.assoc simp flip: of_nat_add dest!: spec [of _ "length xs + k"])
  ultimately show "loaded mem a xs \<and> loaded mem (a + word_of_nat (length xs)) ys" by (simp add: loaded_def)
next
  assume l: "loaded mem a xs \<and> loaded mem (a + word_of_nat (length xs)) ys"
  show "loaded mem a (xs @ ys)" unfolding loaded_def
  proof (intro allI impI)
    fix k assume k: "k < length (xs @ ys)"
    show "mem (a + word_of_nat k) = (xs @ ys) ! k"
    proof (cases "k < length xs")
      case False
      then have "k - length xs < length ys" using k by simp
      then have "mem (a + word_of_nat (length xs) + word_of_nat (k - length xs)) = ys ! (k - length xs)"
        using conjunct2 [OF l] unfolding loaded_def by blast
      then show ?thesis using False by (simp add: nth_append add.assoc flip: of_nat_add)
    qed (use l in \<open>simp add: loaded_def nth_append\<close>)
  qed
qed

subsection \<open>Numbers\<close>

lemma hex_digit_char: "d < 16 \<Longrightarrow> hex_digit (hex_char d) = Some (word_of_nat d)"
proof -
  have "\<forall>d\<in>{0..<16}. hex_digit (hex_char d) = Some (word_of_nat d)" by code_simp
  then show "d < 16 \<Longrightarrow> hex_digit (hex_char d) = Some (word_of_nat d)" by simp
qed

lemma length_hex_field [simp]: "length (hex_field n v) = n"
  by (induction n arbitrary: v) simp_all

lemma parse_hex_snoc:
  "(\<And>k. k < n \<Longrightarrow> hex_digit (s (i + word_of_nat k)) \<noteq> None) \<Longrightarrow>
   parse_hex_from s (Suc n) i r =
     (case hex_digit (s (i + word_of_nat n)) of None \<Rightarrow> parse_hex_from s n i r * 16
      | Some d \<Rightarrow> parse_hex_from s n i r * 16 + d)"
proof (induction n arbitrary: i r)
  case (Suc n)
  have "hex_digit (s i) \<noteq> None" using Suc.prems [of 0] by simp
  then obtain d where d: "hex_digit (s i) = Some d" by blast
  have "hex_digit (s (i + 1 + word_of_nat k)) \<noteq> None" if "k < n" for k
    using Suc.prems [of "Suc k"] that by (simp add: add.assoc)
  note IH = Suc.IH [of "i + 1" "r * 16 + d", OF this]
  have e: "parse_hex_from s (Suc m) i r = parse_hex_from s m (i + 1) (r * 16 + d)" for m
    by (subst parse_hex_from.simps(2)) (simp only: d option.case)
  show ?case by (simp only: e [of "Suc n"] IH e [of n] of_nat_Suc add.assoc)
qed (simp split: option.splits)

lemma hex_field_digits: "k < n \<Longrightarrow> \<exists>d<16. hex_field n v ! k = hex_char d"
proof (induction n arbitrary: v k)
  case (Suc n)
  then show ?case by (cases "k < n") (auto simp: nth_append intro!: exI [of _ "v mod 16"] dest: less_antisym)
qed simp

lemma parse_hex_field:
  "v < 16 ^ n \<Longrightarrow> (\<And>k. k < n \<Longrightarrow> s (word_of_nat k) = hex_field n v ! k) \<Longrightarrow> parse_hex_from s n 0 0 = word_of_nat v"
proof (induction n arbitrary: v)
  case (Suc n)
  have dg: "hex_digit (s (0 + word_of_nat k)) \<noteq> None" if "k < n" for k
  proof -
    from hex_field_digits [OF less_SucI [OF that], of v] obtain d where "d < 16" "hex_field (Suc n) v ! k = hex_char d" by blast
    then show ?thesis using Suc.prems(2) [of k] that hex_digit_char by simp
  qed
  have "parse_hex_from s n 0 0 = word_of_nat (v div 16)"
  proof (rule Suc.IH)
    show "v div 16 < 16 ^ n" using Suc.prems(1) by (simp add: less_mult_imp_div_less mult.commute)
    show "s (word_of_nat k) = hex_field n (v div 16) ! k" if "k < n" for k
      using Suc.prems(2) [of k] that by (simp add: nth_append)
  qed
  moreover have "hex_digit (s (0 + word_of_nat n)) = Some (word_of_nat (v mod 16))"
    using Suc.prems(2) [of n] hex_digit_char by (simp add: nth_append)
  ultimately have "parse_hex_from s (Suc n) 0 0 = word_of_nat (v div 16) * 16 + word_of_nat (v mod 16)"
    using parse_hex_snoc [of n s 0 0, OF dg] by simp
  also have "\<dots> = word_of_nat (v div 16 * 16 + v mod 16)" by (simp only: of_nat_add of_nat_mult of_nat_numeral)
  finally show ?case by (simp only: div_mult_mod_eq)
qed simp

lemma loaded_hex: "loaded mem a (hex_field 8 v) \<Longrightarrow> v < 2 ^ 32 \<Longrightarrow> parse_hex_str (str_at mem a) 8 = word_of_nat v"
  unfolding parse_hex_str_def by (rule parse_hex_field) (auto simp: loaded_def)

subsection \<open>Strings\<close>

lemma unat_small: "k < 2 ^ 32 \<Longrightarrow> unat (word_of_nat k :: u32) = k"
  by (simp add: unsigned_of_nat take_bit_nat_eq_self)

definition cstr_is :: "cstr \<Rightarrow> u8 list \<Rightarrow> bool" where
  "cstr_is s xs \<longleftrightarrow> 0 \<notin> set xs \<and> (\<forall>k\<le>length xs. s (word_of_nat k) = (xs @ [0]) ! k)"

lemma cstr_end: "cstr_is s xs \<Longrightarrow> s (word_of_nat (length xs)) = 0"
  by (simp add: cstr_is_def)

lemma cstr_nth: "cstr_is s xs \<Longrightarrow> i < length xs \<Longrightarrow> s (word_of_nat i) = xs ! i \<and> xs ! i \<noteq> 0"
  unfolding cstr_is_def by (metis less_imp_le nth_append nth_mem)

lemma strncmp_stop: "\<not> i < n \<Longrightarrow> cpio_strncmp_from a b n i = 0"
  by (subst cpio_strncmp_from.simps) simp

lemma strncmp_step: "i < n \<Longrightarrow> cpio_strncmp_from a b n i =
    (if a i \<noteq> b i then uint (a i) - uint (b i) else if a i = 0 then 0 else cpio_strncmp_from a b n (i + 1))"
  by (subst cpio_strncmp_from.simps) simp

lemma strncmp_prefix: "(\<And>k. k < unat n \<Longrightarrow> a (word_of_nat k) = b (word_of_nat k)) \<Longrightarrow> cpio_strncmp_from a b n i = 0"
proof (induction a b n i rule: cpio_strncmp_from.induct)
  case (1 a b n i)
  show ?case
  proof (cases "i < n")
    case True
    have "a (word_of_nat (unat i)) = b (word_of_nat (unat i))" using "1.prems" [of "unat i"] True by (simp add: word_less_nat_alt)
    then have "a i = b i" by simp
    then show ?thesis using "1.IH" [OF True] "1.prems" strncmp_step [OF True, of a b] by auto
  qed (simp add: strncmp_stop)
qed

lemma strncmp_strings:
  assumes "cstr_is a xs" "cstr_is b ys" "length ys < unat n" "i \<le> length xs" "i \<le> length ys" "take i xs = take i ys"
  shows "cpio_strncmp_from a b n (word_of_nat i) = 0 \<longleftrightarrow> xs = ys"
proof -
  have nlt: "(word_of_nat j :: u32) < n" if "j \<le> length ys" for j
    using assms(3) that unsigned_less [where 'a = nat and w = n] by (simp add: word_less_nat_alt unat_small)
  show ?thesis
  using assms(4-6)
proof (induction "length ys - i" arbitrary: i)
  case (0 i)
  then have i: "i = length ys" by simp
  have lt: "(word_of_nat i :: u32) < n" using nlt i by simp
  have b: "b (word_of_nat i) = 0" using cstr_end [OF assms(2)] i by simp
  show ?case
  proof (cases "i = length xs")
    case True
    then have "a (word_of_nat i) = 0" using cstr_end [OF assms(1)] by simp
    then have "cpio_strncmp_from a b n (word_of_nat i) = 0" unfolding strncmp_step [OF lt] by (simp add: b uint_0_iff)
    moreover have "xs = ys" using 0(4) True i by simp
    ultimately show ?thesis by simp
  next
    case False
    then have "i < length xs" using 0(2) by simp
    from cstr_nth [OF assms(1) this] have "cpio_strncmp_from a b n (word_of_nat i) \<noteq> 0" unfolding strncmp_step [OF lt] by (simp add: b uint_0_iff)
    then show ?thesis using False i by auto
  qed
next
  case (Suc m i)
  then have i: "i < length ys" by simp
  have lt: "(word_of_nat i :: u32) < n" using nlt i by simp
  have b: "b (word_of_nat i) = ys ! i" "ys ! i \<noteq> 0" using cstr_nth [OF assms(2) i] by simp_all
  show ?case
  proof (cases "i = length xs")
    case True
    then have "a (word_of_nat i) = 0" using cstr_end [OF assms(1)] by simp
    then have "cpio_strncmp_from a b n (word_of_nat i) \<noteq> 0" unfolding strncmp_step [OF lt] by (simp add: b uint_0_iff)
    then show ?thesis using True i by auto
  next
    case False
    then have xi: "i < length xs" using Suc.prems(1) by simp
    then have a: "a (word_of_nat i) = xs ! i" "xs ! i \<noteq> 0" using cstr_nth [OF assms(1) xi] by simp_all
    show ?thesis
    proof (cases "xs ! i = ys ! i")
      case True
      have "cpio_strncmp_from a b n (word_of_nat i) = cpio_strncmp_from a b n (word_of_nat (Suc i))"
        by (subst strncmp_step [OF lt]) (simp add: a b True add.commute)
      moreover have "take (Suc i) xs = take (Suc i) ys" using Suc.prems(3) True xi i by (simp add: take_Suc_conv_app_nth)
      then have "cpio_strncmp_from a b n (word_of_nat (Suc i)) = 0 \<longleftrightarrow> xs = ys"
        using Suc.hyps(2) xi i by (intro Suc.hyps(1)) simp_all
      ultimately show ?thesis by (simp only:)
    next
      case False
      then have "cpio_strncmp_from a b n (word_of_nat i) \<noteq> 0" unfolding strncmp_step [OF lt] by (simp add: a b flip: word_uint_eq_iff)
      then show ?thesis using False by auto
    qed
  qed
qed
qed

lemma cpio_strncmp_strings:
  "cstr_is a xs \<Longrightarrow> cstr_is b ys \<Longrightarrow> length ys < unat n \<Longrightarrow> cpio_strncmp a b n = 0 \<longleftrightarrow> xs = ys"
  using strncmp_strings [of a xs b ys n 0] by (simp add: cpio_strncmp_def)

lemma loaded_cstr: "loaded mem a (xs @ [0]) \<Longrightarrow> 0 \<notin> set xs \<Longrightarrow> cstr_is (str_at mem a) xs"
  by (auto simp: loaded_def cstr_is_def less_Suc_eq_le)

lemma cstr_lit: "0 \<notin> set (bytes s) \<Longrightarrow> length s < 2 ^ 32 \<Longrightarrow> cstr_is (lit s) (bytes s)"
  by (auto simp: cstr_is_def lit_def bytes_def unat_small nth_append le_less)

subsection \<open>Alignment\<close>

lemma uint_add_nat: "uint (a + word_of_nat k :: u32) = (uint a + int k) mod 2 ^ 32"
  by (simp add: uint_word_ariths unsigned_of_nat take_bit_eq_mod zmod_int mod_simps)

lemma pad4_round: "m + length (pad4 m) = 4 * ((m + 3) div 4)"
proof -
  define k r where "k = m div 4" and "r = m mod 4"
  have m: "m = 4 * k + r" and r: "r < 4" by (simp_all add: k_def r_def)
  then consider "r = 0" | "r = 1" | "r = 2" | "r = 3" by linarith
  moreover have "length (pad4 m) = (4 - r) mod 4" by (simp add: pad4_def r_def)
  moreover have "(m + 3) div 4 = k + (r + 3) div 4" unfolding m by (simp add: add.assoc)
  ultimately show ?thesis using m by cases simp_all
qed

lemma align_up_4:
  assumes "uint a mod 4 = 0"
  shows "align_up (a + word_of_nat m) 4 = a + word_of_nat (m + length (pad4 m))"
proof -
  define y where "y = uint a + int (m + 3)"
  define p where "p = length (pad4 m)"
  have e: "a + word_of_nat m + 3 = a + word_of_nat (m + 3)" by (simp add: add.assoc)
  have "align_up (a + word_of_nat m) 4 = (a + word_of_nat (m + 3)) AND NOT (push_bit 2 1 - 1)"
    unfolding e [symmetric] by (simp add: align_up_def add.commute)
  then have "uint (align_up (a + word_of_nat m) 4) = 2 ^ 2 * (y mod 2 ^ 32 div 2 ^ 2)"
    by (simp only: uint_and_not_mask uint_add_nat y_def)
  moreover have "(2::int) ^ 32 = 4 * 2 ^ 30" by simp
  moreover have "y mod (4 * 2 ^ 30) = 4 * (y div 4 mod 2 ^ 30) + y mod 4" by (rule zmod_zmult2_eq) simp
  then have "y mod (4 * 2 ^ 30) div 4 = y div 4 mod 2 ^ 30" by simp
  ultimately have "uint (align_up (a + word_of_nat m) 4) = 4 * (y div 4) mod (4 * 2 ^ 30)"
    by (simp add: mult_mod_right)
  moreover obtain q where q: "uint a = 4 * q" using assms by auto
  have "4 * (y div 4) = uint a + int (m + p)" unfolding p_def pad4_round y_def q by simp
  ultimately show ?thesis unfolding word_uint_eq_iff uint_add_nat p_def by simp
qed

subsection \<open>Reading what was written\<close>

lemma no_zero_bytes: "0 \<notin> set (bytes ''TRAILER!!!'')" "0 \<notin> set (bytes ''070701'')"
  by code_simp+

lemma length_bytes [simp]: "length (bytes s) = length s"
  by (simp add: bytes_def)

lemma length_write_entry: "length (write_entry (name, contents)) =
    111 + length name + length (pad4 (111 + length name)) + length contents + length (pad4 (length contents))"
  by (simp add: write_entry_def length_concat sum_list_replicate)

text \<open>The parts of an entry that the reader looks at, and where it finds them.\<close>

lemma loaded_slice: "loaded mem a (xs @ ys @ zs) \<Longrightarrow> length xs = n \<Longrightarrow> loaded mem (a + word_of_nat n) ys"
  by (simp add: loaded_append)

lemma loaded_entry:
  assumes "loaded mem a (write_entry (name, contents))"
  shows "loaded mem a (bytes ''070701'')" "loaded mem (a + 54) (hex_field 8 (length contents))"
    "loaded mem (a + 94) (hex_field 8 (length name + 1))" "loaded mem (a + 110) (name @ [0])"
    "loaded mem (a + word_of_nat (111 + length name + length (pad4 (111 + length name)))) contents"
proof -
  let ?z = "hex_field 8 0"
  let ?h1 = "bytes ''070701'' @ concat (replicate 6 ?z)"
  let ?h2 = "?h1 @ hex_field 8 (length contents) @ concat (replicate 4 ?z)"
  let ?h3 = "?h2 @ hex_field 8 (length name + 1) @ ?z"
  let ?h4 = "?h3 @ (name @ [0]) @ pad4 (111 + length name)"
  have l: "length ?h1 = 54" "length ?h2 = 94" "length ?h3 = 110" "length ?h4 = 111 + length name + length (pad4 (111 + length name))"
    by (simp_all add: length_concat sum_list_replicate)
  have w: "write_entry (name, contents) = ?h4 @ contents @ pad4 (length contents)" by (simp add: write_entry_def)
  show "loaded mem a (bytes ''070701'')" using assms unfolding w by (simp add: loaded_append)
  have "loaded mem a (?h1 @ hex_field 8 (length contents) @ (concat (replicate 4 ?z) @ hex_field 8 (length name + 1) @ ?z
     @ (name @ [0]) @ pad4 (111 + length name) @ contents @ pad4 (length contents)))" using assms unfolding w by simp
  from loaded_slice [OF this l(1)] show "loaded mem (a + 54) (hex_field 8 (length contents))" by simp
  have "loaded mem a (?h2 @ hex_field 8 (length name + 1) @ (?z
     @ (name @ [0]) @ pad4 (111 + length name) @ contents @ pad4 (length contents)))" using assms unfolding w by simp
  from loaded_slice [OF this l(2)] show "loaded mem (a + 94) (hex_field 8 (length name + 1))" by simp
  have "loaded mem a (?h3 @ (name @ [0]) @ (pad4 (111 + length name) @ contents @ pad4 (length contents)))" using assms unfolding w by simp
  from loaded_slice [OF this l(3)] show "loaded mem (a + 110) (name @ [0])" by simp
  from loaded_slice [OF assms [unfolded w] l(4)]
  show "loaded mem (a + word_of_nat (111 + length name + length (pad4 (111 + length name)))) contents" .
qed

lemma aligned_add:
  assumes "uint (a :: u32) mod 4 = 0" "n mod 4 = 0"
  shows "uint (a + word_of_nat n) mod 4 = 0"
proof -
  obtain k q where k: "n = 4 * k" and q: "uint a = 4 * q" using assms by (metis div_mult_mod_eq add.right_neutral mult.commute)
  have "uint (a + word_of_nat n) = (4 * (q + int k)) mod (4 * 2 ^ 30)" unfolding uint_add_nat k q by simp
  also have "\<dots> = 4 * ((q + int k) mod 2 ^ 30)" by (rule mult_mod_right [symmetric])
  finally show ?thesis by simp
qed

text \<open>The reader finds the name, the size and the contents of an entry, and the address of the next one.\<close>

lemma parse_entry:
  assumes ld: "loaded mem a (write_entry (name, contents))" and al: "uint a mod 4 = 0" and ok: "file_ok (name, contents)"
  shows "cpio_parse_header mem a = Some \<lparr>ce_filename = a + 110, ce_filesize = word_of_nat (length contents),
      ce_data = a + word_of_nat (111 + length name + length (pad4 (111 + length name))),
      ce_next = a + word_of_nat (length (write_entry (name, contents)))\<rparr>"
proof -
  note L = loaded_entry [OF ld]
  have o: "0 \<notin> set name" "name \<noteq> bytes ''TRAILER!!!''" "length name + 1 < 2 ^ 32" "length contents < 2 ^ 32"
    using ok by (auto simp: file_ok_def)
  have mg: "cpio_strncmp (str_at mem a) CPIO_HEADER_MAGIC 6 = 0"
    unfolding cpio_strncmp_def
  proof (rule strncmp_prefix)
    fix k assume "k < unat (6 :: u32)"
    then have k: "k < 6" by simp
    have "mem (a + word_of_nat k) = bytes ''070701'' ! k" using L(1) k unfolding loaded_def by simp
    also have "\<dots> = of_char (''070701'' ! k)" unfolding bytes_def by (rule nth_map) (use k in simp)
    also have "\<dots> = CPIO_HEADER_MAGIC (word_of_nat k)" using k unfolding CPIO_HEADER_MAGIC_def lit_def by (simp add: unat_small)
    finally show "mem (a + word_of_nat k) = CPIO_HEADER_MAGIC (word_of_nat k)" .
  qed
  have "cstr_is (str_at mem (a + 110)) name" using loaded_cstr [OF L(4) o(1)] .
  moreover have "cstr_is CPIO_FOOTER_MAGIC (bytes ''TRAILER!!!'')"
    unfolding CPIO_FOOTER_MAGIC_def by (rule cstr_lit [OF no_zero_bytes(1)]) simp
  ultimately have ft: "cpio_strncmp (str_at mem (a + 110)) CPIO_FOOTER_MAGIC 11 \<noteq> 0"
    using cpio_strncmp_strings [of _ name CPIO_FOOTER_MAGIC "bytes ''TRAILER!!!''" 11] o(2) by simp
  have sz: "parse_hex_str (str_at mem (a + 54)) 8 = word_of_nat (length contents)"
    using loaded_hex [OF L(2) o(4)] .
  have ns: "parse_hex_str (str_at mem (a + 94)) 8 = word_of_nat (length name + 1)"
    using loaded_hex [OF L(3) o(3)] .
  define d where "d = 111 + length name + length (pad4 (111 + length name))"
  have e: "a + 110 + word_of_nat (length name + 1) = a + word_of_nat (111 + length name)" by simp
  have dt: "align_up (a + 110 + word_of_nat (length name + 1)) 4 = a + word_of_nat d"
    unfolding e d_def by (rule align_up_4 [OF al])
  have d4: "d = 4 * ((111 + length name + 3) div 4)" unfolding d_def by (rule pad4_round)
  have "uint (a + word_of_nat d) mod 4 = 0" by (rule aligned_add [OF al]) (simp add: d4)
  from align_up_4 [OF this, of "length contents"]
  have nx: "align_up (a + word_of_nat d + word_of_nat (length contents)) 4 = a + word_of_nat (length (write_entry (name, contents)))"
    unfolding length_write_entry d_def by (simp add: add.assoc)
  show ?thesis
    using mg ft sz ns dt nx unfolding cpio_parse_header_def c_filesize_offset_def c_namesize_offset_def cpio_header_size_def Let_def d_def
    by simp
qed

text \<open>The trailer ends the archive.\<close>

lemma parse_trailer:
  assumes "loaded mem a (write_entry (bytes ''TRAILER!!!'', []))"
  shows "cpio_parse_header mem a = None"
proof -
  note L = loaded_entry [OF assms]
  have "cstr_is (str_at mem (a + 110)) (bytes ''TRAILER!!!'')" using loaded_cstr [OF L(4) no_zero_bytes(1)] .
  moreover have "cstr_is CPIO_FOOTER_MAGIC (bytes ''TRAILER!!!'')"
    unfolding CPIO_FOOTER_MAGIC_def by (rule cstr_lit [OF no_zero_bytes(1)]) simp
  ultimately have "cpio_strncmp (str_at mem (a + 110)) CPIO_FOOTER_MAGIC 11 = 0"
    using cpio_strncmp_strings [of _ "bytes ''TRAILER!!!''" CPIO_FOOTER_MAGIC "bytes ''TRAILER!!!''" 11] by simp
  then show ?thesis by (simp add: cpio_parse_header_def cpio_header_size_def Let_def)
qed

lemma write_entry_aligned: "length (write_entry f) mod 4 = 0"
proof (cases f)
  case (Pair name contents)
  have "length (write_entry f) = 4 * ((111 + length name + 3) div 4) + 4 * ((length contents + 3) div 4)"
    unfolding Pair length_write_entry pad4_round [symmetric] by simp
  then show ?thesis by simp
qed

text \<open>
  C18. Round trip of the archive format: an archive with the given files, written at a 4-aligned
  address, is searched by \<^verbatim>\<open>cpio_get_file\<close> in a loop that ends; the result is the address and the size
  of the contents of the first file of that name, and NULL when there is none.
\<close>

theorem cpio_roundtrip:
  assumes "loaded mem a (write_archive fs)" "uint a mod 4 = 0" "list_all file_ok fs"
    "cstr_is s name" "length name < 2 ^ 32 - 1"
  shows "case map_of fs name of
      None \<Rightarrow> cpio_get_file mem a s = Some None
    | Some contents \<Rightarrow> \<exists>d. cpio_get_file mem a s = Some (Some (d, word_of_nat (length contents))) \<and> loaded mem d contents"
  using assms(1-3)
proof (induction fs arbitrary: a)
  case Nil
  then have "cpio_parse_header mem a = None" using parse_trailer by (simp add: write_archive_def)
  then show ?case by (simp add: cpio_get_file.simps)
next
  case (Cons f fs)
  obtain nm contents where f: "f = (nm, contents)" by (cases f)
  let ?n = "length (write_entry f)"
  have ld: "loaded mem a (write_entry (nm, contents))" "loaded mem (a + word_of_nat ?n) (write_archive fs)"
    using Cons.prems(1) f by (simp_all add: write_archive_def loaded_append)
  have ok: "file_ok (nm, contents)" "list_all file_ok fs" using Cons.prems(3) f by simp_all
  note ph = parse_entry [OF ld(1) Cons.prems(2) ok(1)]
  have "cstr_is (str_at mem (a + 110)) nm" using loaded_cstr [OF loaded_entry(4) [OF ld(1)]] ok(1) by (simp add: file_ok_def)
  moreover have "length name < unat (- 1 :: u32)" using assms(5) by (simp add: unsigned_minus_1_eq_mask mask_eq_exp_minus_1)
  ultimately have cmp: "cpio_strncmp (str_at mem (a + 110)) s (- 1) = 0 \<longleftrightarrow> nm = name"
    using cpio_strncmp_strings [OF _ assms(4)] by blast
  show ?case
  proof (cases "nm = name")
    case True
    then have "cpio_get_file mem a s = Some (Some (a + word_of_nat (111 + length nm + length (pad4 (111 + length nm))), word_of_nat (length contents)))"
      using cmp ph by (subst cpio_get_file.simps) simp
    then show ?thesis using loaded_entry(5) [OF ld(1)] True f by auto
  next
    case False
    then have step: "cpio_get_file mem a s = cpio_get_file mem (a + word_of_nat (length (write_entry (nm, contents)))) s"
      using cmp ph by (subst cpio_get_file.simps) simp
    show ?thesis
      unfolding f step using Cons.IH [OF ld(2) aligned_add [OF Cons.prems(2) write_entry_aligned] ok(2), unfolded f] False by simp
  qed
qed

definition cpio_demo :: "(u8 list \<times> u8 list) list" where
  "cpio_demo = [(bytes ''sosh'', [1, 2, 3]), (bytes ''a'', [7])]"

definition cpio_demo_mem :: cstr where
  "cpio_demo_mem i = (if unat i < length (write_archive cpio_demo) then write_archive cpio_demo ! unat i else 0)"

lemma cpio_demo_facts:
  "length (write_archive cpio_demo) < 2 ^ 32" "list_all file_ok cpio_demo" "0 \<notin> set (bytes ''a'')"
  "map_of cpio_demo (bytes ''a'') = Some [7]"
  by (simp_all add: cpio_demo_def write_archive_def length_write_entry pad4_def file_ok_def bytes_def)

theorem cpio_roundtrip_witness:
  "\<exists>d. cpio_get_file cpio_demo_mem 0 (lit ''a'') = Some (Some (d, 1)) \<and> cpio_demo_mem d = 7"
proof -
  have "loaded cpio_demo_mem 0 (write_archive cpio_demo)"
    unfolding loaded_def cpio_demo_mem_def using cpio_demo_facts(1) by (auto simp: unat_small)
  moreover have "cstr_is (lit ''a'') (bytes ''a'')" by (rule cstr_lit [OF cpio_demo_facts(3)]) simp
  ultimately show ?thesis
    using cpio_roundtrip [of cpio_demo_mem 0 cpio_demo "lit ''a''" "bytes ''a''"] cpio_demo_facts(2,4) by (auto simp: loaded_def)
qed

text \<open>
  C19. \<^verbatim>\<open>cpio_strcpy\<close> copies the characters of a string and leaves every other byte alone; in particular
  it never writes the terminator, so the copy runs on into whatever the buffer held before.
\<close>

theorem cpio_strcpy_no_terminator:
  assumes "cstr_is (str_at mem from) xs" "length xs < 2 ^ 31"
    "\<And>k l. k < length xs \<Longrightarrow> l \<le> length xs \<Longrightarrow> to + word_of_nat k \<noteq> from + word_of_nat l"
  shows "\<exists>mem'. cpio_strcpy to from mem = Some mem' \<and> loaded mem' to xs
    \<and> (\<forall>b. (\<forall>k<length xs. b \<noteq> to + word_of_nat k) \<longrightarrow> mem' b = mem b)"
  using assms
proof (induction xs arbitrary: to "from" mem)
  case Nil
  then show ?case by (auto simp: cstr_is_def loaded_def cpio_strcpy.simps)
next
  case (Cons x xs)
  have nz: "word_of_nat (Suc k) \<noteq> (0 :: u32)" if "k < length xs" for k
  proof -
    have "unat (word_of_nat (Suc k) :: u32) = Suc k" using that Cons.prems(2) by (intro unat_small) simp
    then show ?thesis by (metis nat.distinct(1) unsigned_0)
  qed
  let ?m = "mem(to := x)"
  have x: "mem from = x" "x \<noteq> 0" using cstr_nth [OF Cons.prems(1), of 0] by simp_all
  have c1: "cstr_is (str_at ?m (from + 1)) xs"
  proof -
    have "?m (from + 1 + word_of_nat k) = (xs @ [0]) ! k" if "k \<le> length xs" for k
    proof -
      have "to \<noteq> from + word_of_nat (Suc k)" using Cons.prems(3) [of 0 "Suc k"] that by simp
      moreover have "mem (from + word_of_nat (Suc k)) = ((x # xs) @ [0]) ! Suc k"
        using Cons.prems(1) that unfolding cstr_is_def by (metis Suc_le_mono length_Cons)
      ultimately show ?thesis by (simp add: add.assoc)
    qed
    moreover have "0 \<notin> set xs" using Cons.prems(1) by (simp add: cstr_is_def)
    ultimately show ?thesis unfolding cstr_is_def by blast
  qed
  have c2: "to + 1 + word_of_nat k \<noteq> from + 1 + word_of_nat l" if "k < length xs" "l \<le> length xs" for k l
    using Cons.prems(3) [of "Suc k" "Suc l"] that by (simp add: add.assoc)
  have "length xs < 2 ^ 31" using Cons.prems(2) by simp
  from Cons.IH [OF c1 this c2] obtain mem' where m: "cpio_strcpy (to + 1) (from + 1) ?m = Some mem'" "loaded mem' (to + 1) xs"
    "\<forall>b. (\<forall>k<length xs. b \<noteq> to + 1 + word_of_nat k) \<longrightarrow> mem' b = ?m b"
    by blast
  have "cpio_strcpy to from mem = Some mem'" using x m(1) by (subst cpio_strcpy.simps) simp
  moreover have "mem' to = x" using m(3) nz by (auto simp: add.assoc)
  then have "loaded mem' to ([x] @ xs)" using m(2) unfolding loaded_append by (simp add: loaded_def)
  moreover have "mem' b = mem b" if b: "\<forall>k<length (x # xs). b \<noteq> to + word_of_nat k" for b
  proof -
    have "b \<noteq> to" using b [rule_format, of 0] by simp
    moreover have "b \<noteq> to + 1 + word_of_nat k" if "k < length xs" for k using b [rule_format, of "Suc k"] that by (simp add: add.assoc)
    ultimately have "mem' b = ?m b" using m(3) by blast
    then show ?thesis using \<open>b \<noteq> to\<close> by simp
  qed
  ultimately show ?case by (intro exI [of _ mem']) simp
qed

theorem cpio_strcpy_no_terminator_witness:
  "\<exists>mem'. cpio_strcpy 16 0 ((lit ''ab'')(18 := 88)) = Some mem' \<and> loaded mem' 16 (bytes ''ab'') \<and> mem' 18 = 88"
proof -
  let ?mem = "(lit ''ab'')(18 := 88)"
  have c: "cstr_is (str_at ?mem 0) (bytes ''ab'')"
    unfolding cstr_is_def bytes_def lit_def by (auto simp: le_Suc_eq)
  have l: "length (bytes ''ab'') < 2 ^ 31" by simp
  have d: "16 + word_of_nat k \<noteq> (0 :: u32) + word_of_nat l" if "k < length (bytes ''ab'')" "l \<le> length (bytes ''ab'')" for k l
    using that by (auto simp: le_Suc_eq less_Suc_eq)
  from cpio_strcpy_no_terminator [OF c l d] obtain mem' where m: "cpio_strcpy 16 0 ?mem = Some mem'" "loaded mem' 16 (bytes ''ab'')"
    "\<forall>b. (\<forall>k<length (bytes ''ab''). b \<noteq> 16 + word_of_nat k) \<longrightarrow> mem' b = ?mem b" by blast
  have "mem' 18 = ?mem 18" using m(3) by (auto simp: less_Suc_eq)
  then show ?thesis using m(1,2) by auto
qed

end
