(* ===== verification/SOS_State.thy ===== *)
theory SOS_State
  imports Cspace Clock
begin

text \<open>
  The state that the C files of SOS share, as one record on top of the kernel environment: one
  field per global variable, one store per kind of heap object. A pointer is an address into
  such a store; \<^term>\<open>None\<close> is NULL, and reading an address that is not in the store aborts the
  run, so a use after \<^verbatim>\<open>free\<close> is visible.

  SOS never blocks: an operation that needs the file server sends a request, keeps a callback
  and returns to the event loop. A request that has been sent is a \<open>task\<close>: what was asked, and
  the handler that will be run with the answer, in whatever state the system is then. A function
  that takes a callback is a function on states that returns the new state and the tasks it has
  started; the callback is such a function too.

  The callbacks that are kept in kernel data structures for longer (a process that waits for
  another, a reader of the console, a timer) are values of the type \<open>'k\<close>; the functions that
  run them take the meaning of these values as an argument.
\<close>

text \<open>Division of C on signed numbers, which truncates towards zero.\<close>

definition cdiv :: "int \<Rightarrow> int \<Rightarrow> int" where
  "cdiv a b = sgn a * sgn b * (\<bar>a\<bar> div \<bar>b\<bar>)"

lemma cdiv_nonneg [simp]: "0 \<le> a \<Longrightarrow> 0 < b \<Longrightarrow> cdiv a b = a div b"
  by (cases "a = 0") (simp_all add: cdiv_def)

subsection \<open>Files and the file server\<close>

abbreviation (input) S_IRUSR :: u32 where "S_IRUSR \<equiv> 256"
abbreviation (input) S_IWUSR :: u32 where "S_IWUSR \<equiv> 128"
abbreviation (input) O_RDONLY :: int where "O_RDONLY \<equiv> 0"
abbreviation (input) O_WRONLY :: int where "O_WRONLY \<equiv> 1"
abbreviation (input) O_RDWR :: int where "O_RDWR \<equiv> 2"

record fattr =
  fa_mode :: u32
  fa_size :: u32
  fa_mtime :: "u32 \<times> u32"

record sos_stat =
  st_type :: int
  st_mode :: u32
  st_size :: u32
  st_mtime :: "u32 \<times> u32"

datatype nfs_request = NFS_Lookup u32 string | NFS_Create u32 string
  | NFS_Read u32 u32 u32 | NFS_Write u32 u32 "u8 list" | NFS_Readdir u32 u32

record nfs_reply =
  nr_ok :: bool
  nr_fh :: u32
  nr_fattr :: "fattr option"
  nr_count :: int
  nr_data :: "u8 list"
  nr_names :: "string list"
  nr_cookie :: u32

text \<open>The table of operations of a vnode: not filled in yet, the console's, or those of NFS.\<close>

datatype vnode_ops = Ops_None | Ops_Console | Ops_NFS

record vnode =
  vn_initialised :: bool
  vn_opencount :: int
  vn_name :: string
  vn_data :: "(u32 \<times> fattr option) option"
  vn_sattr :: sos_stat
  vn_ops :: vnode_ops

record openfile =
  of_vnode :: "nat option"
  of_offset :: u64
  of_accmode :: int
  of_refcount :: int

subsection \<open>Memory\<close>

record frame_entry =
  fte_status :: int
  fte_cap :: u32
  fte_paddr :: u32
  fte_kvaddr :: u32
  fte_vaddr :: u32
  fte_as :: "nat option"
  fte_pid :: int
  fte_next_free :: int
  fte_locked :: bool
  fte_noswap :: bool
  fte_referenced :: bool

record region =
  vbase :: u32
  vtop :: u32
  r_rights :: u32

record addrspace =
  as_pd_caps :: u32
  as_pd_regs :: u32
  as_rhead :: "region list"
  as_stack :: "region option"
  as_heap :: "region option"
  as_sel4_pd :: u32
  as_pt_head :: "(u32 \<times> u32) list"

subsection \<open>Processes and the console\<close>

text \<open>
  The characters of the console are kept in the memory of the kernel, at the address \<open>con_buf\<close>.
\<close>

abbreviation (input) PROC_NULL :: int where "PROC_NULL \<equiv> - 1"

record 'k process =
  tcb_addr :: u32
  tcb_cap :: u32
  vroot_addr :: u32
  vroot :: u32
  ipc_buffer_addr :: u32
  ipc_buffer_cap :: u32
  croot :: "nat option"
  proc_as :: "nat option"
  proc_pid :: int
  proc_size :: u32
  proc_stime :: u32
  proc_name :: "string option"
  proc_name_len :: u32
  p_filetable :: "nat option"
  p_wait_queue :: "'k list"
  p_initialised :: bool

record console =
  con_buf :: u32
  con_buf_size :: int
  con_start :: int
  con_end :: int
  con_serial :: bool

record 'k con_read_state =
  opened_for_reading :: bool
  is_blocked :: bool
  cr_buf :: u32
  cr_nbytes :: u32
  cr_offset :: u32
  cr_pid :: int
  cr_callback :: "'k option"
  cr_file :: "nat option"

subsection \<open>The whole state\<close>

record 'k sos = env +
  frametable :: "frame_entry list"
  first_free :: int
  frame_initialised :: bool
  frametable_reserved :: int
  victim :: int
  addrspaces :: "nat \<Rightarrow> addrspace option"
  pt_mem :: "u32 \<Rightarrow> u32"
  byte_mem :: "u32 \<Rightarrow> u8"
  free_slots :: "u32 list"
  swap_fh :: "u32 option"
  starting_first_process :: bool
  proc_store :: "nat \<Rightarrow> 'k process option"
  processes :: "nat option list"
  cur_proc_ptr :: "nat option"
  first_free_pslot :: int
  next_free_pslot :: "int list"
  next_free_pid :: "int list"
  wait_queue :: "'k list"
  vnodes :: "nat \<Rightarrow> vnode option"
  vnode_table :: "nat list"
  mnt_point :: u32
  openfiles :: "nat \<Rightarrow> openfile option"
  filetables :: "nat \<Rightarrow> nat option list option"
  con :: console
  con_reader :: "'k con_read_state"
  serial_out :: "u8 list"
  sos_clock :: "'k clock"
  device_virt :: u32

subsection \<open>Tasks\<close>

text \<open>
  The handlers that NFS runs when an answer arrives, each with the structure that the code
  allocates for it and the callback it reports to. These are all the functions that SOS passes
  to the NFS library.
\<close>

record swap_in_cont =
  si_kvaddr :: u32
  si_vpage :: u32
  si_swap_slot :: int
  si_as :: "nat option"
  si_rights :: u32
  si_is_code :: bool
  si_bytes_read :: u32
  si_pid :: int

record swap_out_cont =
  so_kvaddr :: u32
  so_free_slot :: "int option"
  so_written :: u32
  so_pid :: int

record nfs_init_state =
  ni_file :: "nat option"
  ni_pid :: int

record nfs_write_state =
  nw_file :: "nat option"
  nw_pid :: int

record nfs_read_state =
  nrd_file :: "nat option"
  nrd_app_buf :: u32
  nrd_pid :: int

record nfs_getdirent_state =
  ng_pos :: int
  ng_nbyte :: u32
  ng_app_buf :: u32
  ng_pid :: int

record nfs_getstat_state =
  ns_stat_buf :: u32
  ns_path :: string
  ns_pid :: int

record load_segment_cont =
  ls_pid :: int
  ls_as :: "nat option"
  ls_file_offset :: u32
  ls_segment_size :: u32
  ls_file_size :: u32
  ls_dst :: u32
  ls_permissions :: u32
  ls_pos :: u32
  ls_wanna_read :: u32
  ls_proc :: "nat option"
  ls_fh :: u32

record elf_load_cont =
  el_i :: int
  el_pid :: int
  el_as :: "nat option"
  el_file_name :: string
  el_proc :: "nat option"
  el_fh :: u32
  el_elf_entry :: u32
  el_prog_hdrs :: "u8 list"
  el_ph_num :: int
  el_ph_size :: int

datatype 's handler =
    H_swap_in_read swap_in_cont "int \<Rightarrow> 's \<Rightarrow> ('s \<times> (nfs_request \<times> 's handler) list) option"
  | H_swap_out_write swap_out_cont "int \<Rightarrow> 's \<Rightarrow> ('s \<times> (nfs_request \<times> 's handler) list) option"
  | H_create nfs_init_state "int \<Rightarrow> 's \<Rightarrow> ('s \<times> (nfs_request \<times> 's handler) list) option"
  | H_lookup nfs_init_state "int \<Rightarrow> 's \<Rightarrow> ('s \<times> (nfs_request \<times> 's handler) list) option"
  | H_write nfs_write_state "int \<Rightarrow> u32 \<Rightarrow> 's \<Rightarrow> ('s \<times> (nfs_request \<times> 's handler) list) option"
  | H_read nfs_read_state "int \<Rightarrow> u32 \<Rightarrow> bool \<Rightarrow> 's \<Rightarrow> ('s \<times> (nfs_request \<times> 's handler) list) option"
  | H_getdirent nfs_getdirent_state "int \<Rightarrow> u32 \<Rightarrow> 's \<Rightarrow> ('s \<times> (nfs_request \<times> 's handler) list) option"
  | H_getstat_lookup nfs_getstat_state "int \<Rightarrow> 's \<Rightarrow> ('s \<times> (nfs_request \<times> 's handler) list) option"
  | H_load_segment load_segment_cont "int \<Rightarrow> 's \<Rightarrow> ('s \<times> (nfs_request \<times> 's handler) list) option"
  | H_elf_lookup elf_load_cont "int \<Rightarrow> u32 \<Rightarrow> 's \<Rightarrow> ('s \<times> (nfs_request \<times> 's handler) list) option"
  | H_elf_header elf_load_cont "int \<Rightarrow> u32 \<Rightarrow> 's \<Rightarrow> ('s \<times> (nfs_request \<times> 's handler) list) option"
  | H_elf_progheaders elf_load_cont "int \<Rightarrow> u32 \<Rightarrow> 's \<Rightarrow> ('s \<times> (nfs_request \<times> 's handler) list) option"

type_synonym 's task = "nfs_request \<times> 's handler"
type_synonym 's res = "('s \<times> 's task list) option"
type_synonym ('s, 'a) res_val = "('a \<times> 's \<times> 's task list) option"

definition finish :: "'s \<Rightarrow> 's res" where
  "finish s = Some (s, [])"

text \<open>Run \<open>r\<close>, then \<open>f\<close>; the tasks of both stay pending.\<close>

definition andthen :: "'s res \<Rightarrow> ('s \<Rightarrow> 's res) \<Rightarrow> 's res" where
  "andthen r f = do { (s1, p1) \<leftarrow> r; (s2, p2) \<leftarrow> f s1; Some (s2, p1 @ p2) }"

text \<open>The same when the first part returns a value, or when a value is returned at the end.\<close>

definition andthen_val :: "('s, 'a) res_val \<Rightarrow> ('a \<Rightarrow> 's \<Rightarrow> 's res) \<Rightarrow> 's res" where
  "andthen_val r f = do { (x, s1, p1) \<leftarrow> r; (s2, p2) \<leftarrow> f x s1; Some (s2, p1 @ p2) }"

definition with_val :: "'a \<Rightarrow> 's res \<Rightarrow> ('s, 'a) res_val" where
  "with_val x r = do { (s, p) \<leftarrow> r; Some (x, s, p) }"

definition then_val :: "('s, 'a) res_val \<Rightarrow> ('a \<Rightarrow> 's \<Rightarrow> ('s, 'b) res_val) \<Rightarrow> ('s, 'b) res_val" where
  "then_val r f = do { (x, s1, p1) \<leftarrow> r; (y, s2, p2) \<leftarrow> f x s1; Some (y, s2, p1 @ p2) }"

text \<open>
  Sending a request. The RPC layer may refuse it; then there is no task and the code takes its
  error path.
\<close>

definition nfs_call :: "nfs_request \<Rightarrow> 'a env_scheme handler \<Rightarrow> ('a env_scheme \<Rightarrow> 'a env_scheme res)
    \<Rightarrow> 'a env_scheme \<Rightarrow> 'a env_scheme res" where
  "nfs_call q h refused s = (let (r, s1) = ask s in if r = 0 then Some (s1, [(q, h)]) else refused s1)"

subsection \<open>Reading and writing heap objects\<close>

definition get_as :: "nat option \<Rightarrow> 'k sos \<Rightarrow> addrspace option" where
  "get_as p s = do { q \<leftarrow> p; addrspaces s q }"

definition put_as :: "nat option \<Rightarrow> addrspace \<Rightarrow> 'k sos \<Rightarrow> 'k sos" where
  "put_as p a s = (case p of None \<Rightarrow> s | Some q \<Rightarrow> s\<lparr>addrspaces := (addrspaces s)(q \<mapsto> a)\<rparr>)"

definition get_proc :: "nat option \<Rightarrow> 'k sos \<Rightarrow> 'k process option" where
  "get_proc p s = do { q \<leftarrow> p; proc_store s q }"

definition put_proc :: "nat option \<Rightarrow> 'k process \<Rightarrow> 'k sos \<Rightarrow> 'k sos" where
  "put_proc p x s = (case p of None \<Rightarrow> s | Some q \<Rightarrow> s\<lparr>proc_store := (proc_store s)(q \<mapsto> x)\<rparr>)"

definition get_vnode :: "nat option \<Rightarrow> 'k sos \<Rightarrow> vnode option" where
  "get_vnode p s = do { q \<leftarrow> p; vnodes s q }"

definition put_vnode :: "nat option \<Rightarrow> vnode \<Rightarrow> 'k sos \<Rightarrow> 'k sos" where
  "put_vnode p v s = (case p of None \<Rightarrow> s | Some q \<Rightarrow> s\<lparr>vnodes := (vnodes s)(q \<mapsto> v)\<rparr>)"

definition free_vnode :: "nat option \<Rightarrow> 'k sos \<Rightarrow> 'k sos" where
  "free_vnode p s = (case p of None \<Rightarrow> s | Some q \<Rightarrow> s\<lparr>vnodes := (vnodes s)(q := None)\<rparr>)"

text \<open>
  Page tables are read and written as words, every other memory as bytes; the two views of one
  frame are kept apart. A NULL table aborts.
\<close>

definition pt_read :: "u32 \<Rightarrow> int \<Rightarrow> 'k sos \<Rightarrow> u32 option" where
  "pt_read base i s = (if base = 0 then None else Some (pt_mem s (base + 4 * word_of_int i)))"

definition pt_write :: "u32 \<Rightarrow> int \<Rightarrow> u32 \<Rightarrow> 'k sos \<Rightarrow> 'k sos option" where
  "pt_write base i v s = (if base = 0 then None
     else Some (s\<lparr>pt_mem := (pt_mem s)(base + 4 * word_of_int i := v)\<rparr>))"

definition bzero_page :: "u32 \<Rightarrow> 'k sos \<Rightarrow> 'k sos" where
  "bzero_page a s = s\<lparr>pt_mem := (\<lambda>x. if x - a < 4096 then 0 else pt_mem s x),
     byte_mem := (\<lambda>x. if x - a < 4096 then 0 else byte_mem s x)\<rparr>"

definition mem_copy :: "u32 \<Rightarrow> u32 \<Rightarrow> u32 \<Rightarrow> 'k sos \<Rightarrow> 'k sos" where
  "mem_copy dst src n s = s\<lparr>byte_mem := (\<lambda>x. if x - dst < n then byte_mem s (src + (x - dst)) else byte_mem s x)\<rparr>"

definition mem_store :: "u32 \<Rightarrow> u8 list \<Rightarrow> 'k sos \<Rightarrow> 'k sos" where
  "mem_store dst xs s = s\<lparr>byte_mem := (\<lambda>x. if unat (x - dst) < length xs then xs ! unat (x - dst) else byte_mem s x)\<rparr>"

definition mem_load :: "u32 \<Rightarrow> nat \<Rightarrow> 'k sos \<Rightarrow> u8 list" where
  "mem_load src n s = map (\<lambda>i. byte_mem s (src + word_of_nat i)) [0..<n]"

text \<open>A buffer from the C heap: its address, or 0.\<close>

definition malloc_buf :: "'a env_scheme \<Rightarrow> u32 \<times> 'a env_scheme" where
  "malloc_buf s = (let (r, s1) = ask s in (word_of_int r, s1))"

text \<open>An allocation of which only the success matters.\<close>

definition malloc_ok :: "'a env_scheme \<Rightarrow> bool \<times> 'a env_scheme" where
  "malloc_ok s = (let (r, s1) = ask s in (r \<noteq> 0, s1))"

end
