(* ===== verification/Page_Mapping.thy ===== *)
theory Page_Mapping
  imports SOS_State Cspace_Slots
begin

text \<open>
  Mapping frames and device memory into the address space of SOS itself (vm/mapping.c).
\<close>

abbreviation (input) DEVICE_START :: u32 where "DEVICE_START \<equiv> 0xB0000000"

subsection \<open>Mapping pages into the kernel\<close>

definition kmap_page_table :: "u32 \<Rightarrow> u32 \<Rightarrow> 'a env_scheme \<Rightarrow> (int \<times> 'a env_scheme) option" where
  "kmap_page_table pd vaddr e = do {
     (pt_addr, e1) \<leftarrow> env_ut_alloc seL4_PageTableBits e;
     if pt_addr = 0 then Some (1, e1)
     else do {
       (err, pt_cap, e2) \<leftarrow> cspace_ut_retype_addr pt_addr PageTableObject seL4_PageTableBits (cur_cspace e1) e1;
       if err \<noteq> 0 then Some (1, e2)
       else do {
         cap \<leftarrow> pt_cap;
         Some (kernel (PageTable_Map cap pd vaddr) e2) } } }"

definition map_page :: "u32 \<Rightarrow> u32 \<Rightarrow> u32 \<Rightarrow> u32 \<Rightarrow> 'a env_scheme \<Rightarrow> (int \<times> 'a env_scheme) option" where
  "map_page frame_cap pd vaddr rights e = do {
     let (err, e1) = kernel (Page_Map frame_cap pd vaddr rights) e;
     if err = seL4_FailedLookup then do {
       (err2, e2) \<leftarrow> kmap_page_table pd vaddr e1;
       Some (if err2 = 0 then kernel (Page_Map frame_cap pd vaddr rights) e2 else (err2, e2)) }
     else Some (err, e1) }"

text \<open>
  The loop of \<^verbatim>\<open>map_device\<close>. The distance \<open>virt - vstart\<close> is an unsigned word and \<open>sz\<close> is
  converted to one by the comparison.
\<close>

partial_function (option) map_device_loop :: "u32 \<Rightarrow> u32 \<Rightarrow> u32 \<Rightarrow> 'k sos \<Rightarrow> 'k sos option" where
  "map_device_loop vstart sz phys s =
     (if device_virt s - vstart < sz then do {
        (err, cap, s1) \<leftarrow> cspace_ut_retype_addr phys SmallPageObject seL4_PageBits (cur_cspace s) s;
        c_assert (err = 0);
        frame_cap \<leftarrow> cap;
        (err, s2) \<leftarrow> map_page frame_cap seL4_CapInitThreadPD (device_virt s1) seL4_AllRights s1;
        c_assert (err = 0);
        map_device_loop vstart sz (phys + 4096) (s2\<lparr>device_virt := device_virt s2 + 4096\<rparr>) }
      else Some s)"

definition map_device :: "u32 \<Rightarrow> int \<Rightarrow> 'k sos \<Rightarrow> (u32 \<times> 'k sos) option" where
  "map_device paddr sz s = do {
     let vstart = device_virt s;
     s' \<leftarrow> map_device_loop vstart (word_of_int sz) paddr s;
     Some (vstart, s') }"

end
