(* ===== verification/Proc_Table.thy ===== *)
theory Proc_Table
  imports SOS_State Name_Interface
begin

text \<open>
  The table of processes (proc/proc.c): the free list of its slots, process identifiers, process
  sizes and the current process. The identifier of a process determines its slot; each slot
  counts through its own range of identifiers, so that an identifier is not used again soon.
\<close>

abbreviation (input) MAX_PROC :: int where "MAX_PROC \<equiv> 64"
abbreviation (input) RANGE_PER_SLOT :: int where "RANGE_PER_SLOT \<equiv> 2097152"

subsection \<open>Process identifiers\<close>

definition cal_next_free_pid :: "int \<Rightarrow> int \<Rightarrow> int" where
  "cal_next_free_pid pid slot = (pid + 1) mod RANGE_PER_SLOT + RANGE_PER_SLOT * slot"

definition pid_slot :: "int \<Rightarrow> int" where
  "pid_slot pid = cdiv pid RANGE_PER_SLOT"

definition free_proc_slot :: "int \<Rightarrow> 'k sos \<Rightarrow> 'k sos option" where
  "free_proc_slot pid s = do {
     let slot = pid_slot pid;
     ps \<leftarrow> wr (processes s) slot None;
     nf \<leftarrow> wr (next_free_pslot s) slot (first_free_pslot s);
     Some (s\<lparr>processes := ps, next_free_pslot := nf, first_free_pslot := slot\<rparr>) }"

definition proc_list_init :: "'k sos \<Rightarrow> 'k sos option" where
  "proc_list_init s = do {
     s1 \<leftarrow> for_up 0 MAX_PROC (\<lambda>i s. do {
         ps \<leftarrow> wr (processes s) i None;
         nf \<leftarrow> wr (next_free_pslot s) i (i + 1);
         np \<leftarrow> wr (next_free_pid s) i (RANGE_PER_SLOT * i);
         Some (s\<lparr>processes := ps, next_free_pslot := nf, next_free_pid := np\<rparr>) })
       (s\<lparr>first_free_pslot := 0\<rparr>);
     nf \<leftarrow> wr (next_free_pslot s1) (MAX_PROC - 1) (- 1);
     Some (s1\<lparr>next_free_pslot := nf\<rparr>) }"

definition proc_getproc :: "int \<Rightarrow> 'k sos \<Rightarrow> nat option option" where
  "proc_getproc pid s =
     (if pid = PROC_NULL then Some None
      else do {
        p \<leftarrow> rd (processes s) (pid_slot pid);
        case p of None \<Rightarrow> Some None
        | Some q \<Rightarrow> do { x \<leftarrow> get_proc p s; Some (if proc_pid x = pid then p else None) } })"

definition proc_get_id :: "'k sos \<Rightarrow> int option" where
  "proc_get_id s = (case cur_proc_ptr s of None \<Rightarrow> Some PROC_NULL
     | Some q \<Rightarrow> do { x \<leftarrow> get_proc (Some q) s; Some (proc_pid x) })"

subsection \<open>Process sizes\<close>

definition inc_proc_size_proc :: "nat option \<Rightarrow> 'k sos \<Rightarrow> 'k sos option" where
  "inc_proc_size_proc p s = (case p of None \<Rightarrow> Some s
     | Some q \<Rightarrow> do { x \<leftarrow> get_proc p s; Some (put_proc p (x\<lparr>proc_size := proc_size x + 1\<rparr>) s) })"

definition inc_proc_size :: "int \<Rightarrow> 'k sos \<Rightarrow> 'k sos option" where
  "inc_proc_size pid s = do { p \<leftarrow> proc_getproc pid s; inc_proc_size_proc p s }"

definition dec_proc_size_proc :: "nat option \<Rightarrow> 'k sos \<Rightarrow> 'k sos option" where
  "dec_proc_size_proc p s = (case p of None \<Rightarrow> Some s
     | Some q \<Rightarrow> do { x \<leftarrow> get_proc p s; Some (put_proc p (x\<lparr>proc_size := proc_size x - 1\<rparr>) s) })"

definition dec_proc_size :: "int \<Rightarrow> 'k sos \<Rightarrow> 'k sos option" where
  "dec_proc_size pid s = do { p \<leftarrow> proc_getproc pid s; dec_proc_size_proc p s }"

subsection \<open>The current process\<close>

definition is_proc_alive :: "int \<Rightarrow> 'k sos \<Rightarrow> bool option" where
  "is_proc_alive pid s = do { p \<leftarrow> proc_getproc pid s; Some (p \<noteq> None) }"

definition set_cur_proc :: "int \<Rightarrow> 'k sos \<Rightarrow> 'k sos option" where
  "set_cur_proc pid s = do { p \<leftarrow> proc_getproc pid s; Some (s\<lparr>cur_proc_ptr := p\<rparr>) }"

definition cur_proc :: "'k sos \<Rightarrow> nat option" where
  "cur_proc s = cur_proc_ptr s"

definition proc_getas :: "'k sos \<Rightarrow> nat option option" where
  "proc_getas s = (case cur_proc_ptr s of None \<Rightarrow> Some None
     | Some q \<Rightarrow> do { x \<leftarrow> get_proc (Some q) s; Some (proc_as x) })"

definition proc_getcroot :: "'k sos \<Rightarrow> nat option option" where
  "proc_getcroot s = (case cur_proc_ptr s of None \<Rightarrow> Some None
     | Some q \<Rightarrow> do { x \<leftarrow> get_proc (Some q) s; Some (croot x) })"

text \<open>
  The test at the start of every handler of an NFS answer: while the first process is started
  there is no process to check.
\<close>

definition still_wanted :: "int \<Rightarrow> 'k sos \<Rightarrow> bool option" where
  "still_wanted pid s = (if starting_first_process s then Some True else is_proc_alive pid s)"

end
