(* ===== verification/Frametable.thy ===== *)
theory Frametable
  imports Page_Mapping Proc_Table
begin

text \<open>
  The frame table (vm/frametable.c): its initialisation, the free list and the accessors. Frame
  \<open>i\<close> is mapped at the kernel address \<open>0x20000000 + 4096 * i\<close>; the table itself lives in frame 0.
\<close>

abbreviation (input) NFRAMES :: int where "NFRAMES \<equiv> 32"
abbreviation (input) FRAME_VSTART :: u32 where "FRAME_VSTART \<equiv> 0x20000000"
abbreviation (input) PAGE_SIZE :: u32 where "PAGE_SIZE \<equiv> 4096"
abbreviation (input) FRAME_INVALID :: int where "FRAME_INVALID \<equiv> - 1"
abbreviation (input) FRAME_STATUS_UNTYPED :: int where "FRAME_STATUS_UNTYPED \<equiv> 0"
abbreviation (input) FRAME_STATUS_FREE :: int where "FRAME_STATUS_FREE \<equiv> 1"
abbreviation (input) FRAME_STATUS_ALLOCATED :: int where "FRAME_STATUS_ALLOCATED \<equiv> 2"

definition PAGE_ALIGN :: "u32 \<Rightarrow> u32" where "PAGE_ALIGN a = a AND NOT 0xfff"

definition PAGE_OFFSET :: "u32 \<Rightarrow> u32" where "PAGE_OFFSET a = a AND 0xfff"

definition ID_TO_KVADDR :: "int \<Rightarrow> u32" where
  "ID_TO_KVADDR i = word_of_int i * PAGE_SIZE + FRAME_VSTART"

definition KVADDR_TO_ID :: "u32 \<Rightarrow> int" where
  "KVADDR_TO_ID kvaddr = sint ((kvaddr - FRAME_VSTART) div PAGE_SIZE)"

subsection \<open>Entries\<close>

definition fte :: "int \<Rightarrow> 'k sos \<Rightarrow> frame_entry option" where
  "fte i s = rd (frametable s) i"

definition put_fte :: "int \<Rightarrow> frame_entry \<Rightarrow> 'k sos \<Rightarrow> 'k sos option" where
  "put_fte i f s = do { t \<leftarrow> wr (frametable s) i f; Some (s\<lparr>frametable := t\<rparr>) }"

text \<open>
  The test that the accessors share: an identifier outside the frames that are handed out is
  refused. The comparison is one of unsigned numbers, so that a negative identifier is refused too.
\<close>

definition frame_id_valid :: "int \<Rightarrow> 'k sos \<Rightarrow> bool" where
  "frame_id_valid i s \<longleftrightarrow> 0 \<le> i \<and> frametable_reserved s \<le> i \<and> i < NFRAMES"

subsection \<open>Initialisation\<close>

definition map_to_sel4 :: "u32 \<Rightarrow> u32 \<Rightarrow> 'k sos \<Rightarrow> (int \<times> u32 \<times> u32 option \<times> 'k sos) option" where
  "map_to_sel4 pd kvaddr s = do {
     (paddr, s1) \<leftarrow> env_ut_alloc seL4_PageBits s;
     if paddr = 0 then Some (ENOMEM, paddr, None, s1)
     else do {
       (cerr, cap, s2) \<leftarrow> cspace_ut_retype_addr paddr SmallPageObject seL4_PageBits (cur_cspace s1) s1;
       if cerr \<noteq> CSPACE_NOERROR then do {
         s3 \<leftarrow> env_ut_free paddr seL4_PageBits s2;
         Some (EFAULT, paddr, cap, s3) }
       else do {
         c \<leftarrow> cap;
         (err, s3) \<leftarrow> map_page c pd kvaddr seL4_AllRights s2;
         if err \<noteq> 0 then do {
           s4 \<leftarrow> env_ut_free paddr seL4_PageBits s3;
           (_, s5) \<leftarrow> cspace_delete_cap (cur_cspace s4) c s4;
           Some (EFAULT, paddr, cap, s5) }
         else Some (0, paddr, cap, s3) } } }"

text \<open>The table of 32 entries of 36 bytes needs one page.\<close>

abbreviation (input) FRAMETABLE_SZ :: int where "FRAMETABLE_SZ \<equiv> 32 * 36"

definition frame_reserve :: "int \<Rightarrow> int \<times> 'k sos \<Rightarrow> (int \<times> 'k sos) option" where
  "frame_reserve i = (\<lambda>(err, s).
     if err \<noteq> 0 \<or> FRAMETABLE_SZ \<le> i * 4096 then Some (err, s)
     else do {
       let kvaddr = ID_TO_KVADDR i;
       (err', paddr, cap, s1) \<leftarrow> map_to_sel4 seL4_CapInitThreadPD kvaddr s;
       if err' \<noteq> 0 then Some (err', s1)
       else do {
         c \<leftarrow> cap;
         s2 \<leftarrow> put_fte i \<lparr>fte_status = FRAME_STATUS_ALLOCATED, fte_cap = c, fte_paddr = paddr,
           fte_kvaddr = kvaddr, fte_vaddr = 0, fte_as = None, fte_pid = PROC_NULL,
           fte_next_free = FRAME_INVALID, fte_locked = False, fte_noswap = True,
           fte_referenced = True\<rparr> s1;
         Some (0, s2) } })"

definition frame_init :: "'k sos \<Rightarrow> (int \<times> 'k sos) option" where
  "frame_init s = do {
     (err, s1) \<leftarrow> for_up 0 NFRAMES frame_reserve (0, s);
     if err \<noteq> 0 then Some (err, s1)
     else do {
       let reserved = (FRAMETABLE_SZ + 4095) div 4096;
       s2 \<leftarrow> for_up reserved NFRAMES (\<lambda>i s. do {
           f \<leftarrow> fte i s;
           put_fte i (f\<lparr>fte_status := FRAME_STATUS_UNTYPED,
             fte_next_free := (if i = NFRAMES - 1 then FRAME_INVALID else i + 1)\<rparr>) s })
         (s1\<lparr>frametable_reserved := reserved, first_free := reserved\<rparr>);
       Some (0, s2\<lparr>frame_initialised := True\<rparr>) } }"

definition frame_has_free :: "'k sos \<Rightarrow> bool" where
  "frame_has_free s = (frame_initialised s \<and> first_free s \<noteq> FRAME_INVALID)"

subsection \<open>Accessors\<close>

text \<open>The entry of an allocated frame, or the error code that the accessors return.\<close>

definition allocated_fte :: "u32 \<Rightarrow> 'k sos \<Rightarrow> (int + frame_entry) option" where
  "allocated_fte kvaddr s =
     (let i = KVADDR_TO_ID kvaddr in
      if \<not> frame_id_valid i s then Some (Inl EINVAL)
      else do {
        f \<leftarrow> fte i s;
        Some (if fte_status f \<noteq> FRAME_STATUS_ALLOCATED then Inl EINVAL else Inr f) })"

definition frame_free :: "u32 \<Rightarrow> 'k sos \<Rightarrow> (int \<times> 'k sos) option" where
  "frame_free kvaddr s =
     (if \<not> frame_initialised s then Some (EFAULT, s)
      else do {
        r \<leftarrow> allocated_fte kvaddr s;
        case r of Inl err \<Rightarrow> Some (err, s)
        | Inr f \<Rightarrow>
            if fte_locked f then Some (EFAULT, s)
            else do {
              s1 \<leftarrow> put_fte (KVADDR_TO_ID kvaddr)
                (f\<lparr>fte_status := FRAME_STATUS_FREE, fte_locked := False, fte_next_free := first_free s\<rparr>) s;
              Some (0, s1\<lparr>first_free := KVADDR_TO_ID kvaddr\<rparr>) } })"

definition frame_get_cap :: "u32 \<Rightarrow> 'k sos \<Rightarrow> (int \<times> u32) option" where
  "frame_get_cap kvaddr s =
     (if \<not> frame_initialised s then Some (EFAULT, - 1)
      else do {
        r \<leftarrow> allocated_fte kvaddr s;
        Some (case r of Inl err \<Rightarrow> (err, - 1) | Inr f \<Rightarrow> (0, fte_cap f)) })"

text \<open>On an error \<^verbatim>\<open>frame_is_locked\<close> does not write its result: \<^term>\<open>None\<close> in the second component.\<close>

definition frame_is_locked :: "u32 \<Rightarrow> 'k sos \<Rightarrow> (int \<times> bool option) option" where
  "frame_is_locked kvaddr s =
     (if \<not> frame_initialised s then Some (EFAULT, None)
      else do {
        r \<leftarrow> allocated_fte kvaddr s;
        Some (case r of Inl err \<Rightarrow> (err, None) | Inr f \<Rightarrow> (0, Some (fte_locked f))) })"

definition frame_lock_frame :: "u32 \<Rightarrow> 'k sos \<Rightarrow> (int \<times> 'k sos) option" where
  "frame_lock_frame kvaddr s =
     (if \<not> frame_initialised s then Some (EFAULT, s)
      else do {
        r \<leftarrow> allocated_fte kvaddr s;
        case r of Inl err \<Rightarrow> Some (err, s)
        | Inr f \<Rightarrow>
            if fte_locked f then Some (EINVAL, s)
            else do { s1 \<leftarrow> put_fte (KVADDR_TO_ID kvaddr) (f\<lparr>fte_locked := True\<rparr>) s; Some (0, s1) } })"

definition frame_unlock_frame :: "u32 \<Rightarrow> 'k sos \<Rightarrow> (int \<times> 'k sos) option" where
  "frame_unlock_frame kvaddr s =
     (if \<not> frame_initialised s then Some (EFAULT, s)
      else do {
        r \<leftarrow> allocated_fte kvaddr s;
        case r of Inl err \<Rightarrow> Some (err, s)
        | Inr f \<Rightarrow>
            if \<not> fte_locked f then Some (EINVAL, s)
            else do { s1 \<leftarrow> put_fte (KVADDR_TO_ID kvaddr) (f\<lparr>fte_locked := False\<rparr>) s; Some (0, s1) } })"

definition frame_get_as :: "u32 \<Rightarrow> 'k sos \<Rightarrow> nat option option" where
  "frame_get_as kvaddr s = do {
     r \<leftarrow> allocated_fte kvaddr s;
     Some (case r of Inl _ \<Rightarrow> None | Inr f \<Rightarrow> fte_as f) }"

definition frame_get_pid :: "u32 \<Rightarrow> 'k sos \<Rightarrow> int option" where
  "frame_get_pid kvaddr s = do {
     r \<leftarrow> allocated_fte kvaddr s;
     Some (case r of Inl _ \<Rightarrow> PROC_NULL | Inr f \<Rightarrow> fte_pid f) }"

definition frame_get_vaddr :: "u32 \<Rightarrow> 'k sos \<Rightarrow> u32 option" where
  "frame_get_vaddr kvaddr s = do {
     r \<leftarrow> allocated_fte kvaddr s;
     Some (case r of Inl _ \<Rightarrow> 0 | Inr f \<Rightarrow> fte_vaddr f) }"

definition frame_set_referenced :: "u32 \<Rightarrow> 'k sos \<Rightarrow> (int \<times> 'k sos) option" where
  "frame_set_referenced kvaddr s =
     (let i = KVADDR_TO_ID kvaddr in
      if \<not> frame_id_valid i s then Some (EINVAL, s)
      else do { f \<leftarrow> fte i s; s1 \<leftarrow> put_fte i (f\<lparr>fte_referenced := True\<rparr>) s; Some (0, s1) })"

text \<open>The error code is converted to the \<^verbatim>\<open>bool\<close> true.\<close>

definition is_frame_referenced :: "u32 \<Rightarrow> 'k sos \<Rightarrow> bool option" where
  "is_frame_referenced kvaddr s =
     (let i = KVADDR_TO_ID kvaddr in
      if \<not> frame_id_valid i s then Some True
      else do { f \<leftarrow> fte i s; Some (fte_referenced f) })"

end
