(* ===== verification/Regions.thy ===== *)
theory Regions
  imports Frametable
begin

text \<open>
  The regions of an address space (vm/addrspace.c): stack, heap, and the list of the other regions,
  with the overlap tests as the code has them, on words that wrap around.
\<close>

abbreviation (input) seL4_CanWrite :: u32 where "seL4_CanWrite \<equiv> 1"
abbreviation (input) seL4_CanRead :: u32 where "seL4_CanRead \<equiv> 2"

definition DIVROUNDUP :: "u32 \<Rightarrow> u32 \<Rightarrow> u32" where "DIVROUNDUP a b = (a + b - 1) div b"

subsection \<open>Regions\<close>

definition region_overlap :: "region \<Rightarrow> region \<Rightarrow> bool" where
  "region_overlap r1 r2 =
     (let r1_left_r2 = vbase r1 < vbase r2 \<and> vtop r1 \<le> vbase r2;
          r1_right_r2 = vbase r1 \<ge> vtop r2 \<and> vtop r1 \<ge> vtop r2
      in \<not> (r1_left_r2 \<or> r1_right_r2))"

definition region_init :: "addrspace \<Rightarrow> u32 \<Rightarrow> u32 \<Rightarrow> u32 \<Rightarrow> int \<times> region" where
  "region_init as vaddr sz rights =
     (let nregion = \<lparr>vbase = vaddr, vtop = vaddr + sz, r_rights = rights\<rparr> in
      (if (case as_stack as of None \<Rightarrow> False | Some st \<Rightarrow> region_overlap nregion st)
         \<or> list_ex (region_overlap nregion) (as_rhead as) then EINVAL else 0, nregion))"

definition in_region :: "u32 \<Rightarrow> region \<Rightarrow> bool" where
  "in_region addr r \<longleftrightarrow> vbase r \<le> addr \<and> addr < vtop r"

definition region_probe :: "nat option \<Rightarrow> u32 \<Rightarrow> 'k sos \<Rightarrow> region option option" where
  "region_probe as addr s = do {
     a \<leftarrow> get_as as s;
     c_assert (addr \<noteq> 0);
     Some (case as_stack a of
       Some st \<Rightarrow> if in_region addr st then Some st
         else (case as_heap a of
           Some h \<Rightarrow> if in_region addr h then Some h else find (in_region addr) (as_rhead a)
         | None \<Rightarrow> find (in_region addr) (as_rhead a))
     | None \<Rightarrow> (case as_heap a of
           Some h \<Rightarrow> if in_region addr h then Some h else find (in_region addr) (as_rhead a)
         | None \<Rightarrow> find (in_region addr) (as_rhead a))) }"

definition as_define_region :: "nat option \<Rightarrow> u32 \<Rightarrow> u32 \<Rightarrow> u32 \<Rightarrow> 'k sos \<Rightarrow> (int \<times> 'k sos) option" where
  "as_define_region as vaddr sz rights s = do {
     a \<leftarrow> get_as as s;
     let (ok, s1) = malloc_ok s;
     if \<not> ok then Some (ENOMEM, s1)
     else do {
       let (err, nregion) = region_init a (PAGE_ALIGN vaddr) (DIVROUNDUP sz PAGE_SIZE * PAGE_SIZE) rights;
       if err \<noteq> 0 then Some (err, s1)
       else Some (0, put_as as (a\<lparr>as_rhead := nregion # as_rhead a\<rparr>) s1) } }"

text \<open>
  The page guard below the stack is checked against the other regions but not added to the list:
  the code assigns \<^verbatim>\<open>page_guard->next\<close>, the old head, to the head.
\<close>

definition as_define_stack :: "nat option \<Rightarrow> u32 \<Rightarrow> int \<Rightarrow> 'k sos \<Rightarrow> (int \<times> 'k sos) option" where
  "as_define_stack as stack_top sz s =
     (if as = None then Some (EINVAL, s)
      else do {
        c_assert (stack_top AND 0xfff = 0);
        let size' = (word_of_int (cdiv (sz + 4095) 4096 * 4096) :: u32);
        let (ok1, s1) = malloc_ok s;
        if \<not> ok1 then Some (ENOMEM, s1)
        else do {
          let (ok2, s2) = malloc_ok s1;
          if \<not> ok2 then Some (ENOMEM, s2)
          else do {
            a \<leftarrow> get_as as s2;
            let stack_base = stack_top - size';
            let (err, stack) = region_init a stack_base size' seL4_AllRights;
            if err \<noteq> 0 then Some (err, s2)
            else do {
              let (err2, page_guard) = region_init a (stack_base - PAGE_SIZE) PAGE_SIZE 0;
              if err2 \<noteq> 0 then Some (err2, s2)
              else Some (0, put_as as (a\<lparr>as_stack := Some stack, as_rhead := as_rhead a\<rparr>) s2) } } } })"

definition as_define_heap :: "nat option \<Rightarrow> 'k sos \<Rightarrow> (int \<times> 'k sos) option" where
  "as_define_heap as s =
     (if as = None then Some (EINVAL, s)
      else do {
        a \<leftarrow> get_as as s;
        let top = foldl (\<lambda>b r. if vtop r > b then vtop r else b) PAGE_SIZE (as_rhead a);
        let heap_base = DIVROUNDUP top PAGE_SIZE * PAGE_SIZE;
        st \<leftarrow> as_stack a;
        if heap_base > vbase st then Some (EFAULT, s)
        else do {
          let (ok, s1) = malloc_ok s;
          if \<not> ok then Some (ENOMEM, s1)
          else do {
            let (err, heap) = region_init a heap_base 0 seL4_AllRights;
            if err \<noteq> 0 then Some (err, s1)
            else Some (0, put_as as (a\<lparr>as_heap := Some heap\<rparr>) s1) } } })"

definition sos_sys_brk :: "nat option \<Rightarrow> u32 \<Rightarrow> 'k sos \<Rightarrow> (u32 \<times> 'k sos) option" where
  "sos_sys_brk as vaddr s =
     (if as = None then Some (0, s)
      else do {
        a \<leftarrow> get_as as s;
        case as_heap a of None \<Rightarrow> Some (0, s)
        | Some h \<Rightarrow>
            if vaddr = 0 then Some (vtop h, s)
            else if vaddr < vbase h then Some (vbase h, put_as as (a\<lparr>as_heap := Some (h\<lparr>vtop := vbase h\<rparr>)\<rparr>) s)
            else
              let h' = h\<lparr>vtop := vaddr\<rparr> in
              if (case as_stack a of None \<Rightarrow> False | Some st \<Rightarrow> region_overlap h' st)
                \<or> list_ex (region_overlap h') (as_rhead a) then Some (0, s)
              else Some (vaddr, put_as as (a\<lparr>as_heap := Some h'\<rparr>) s) })"

text \<open>The permissions are those of the region, when there is one.\<close>

definition as_is_valid_memory :: "nat option \<Rightarrow> u32 \<Rightarrow> u32 \<Rightarrow> 'k sos \<Rightarrow> (bool \<times> u32 option) option" where
  "as_is_valid_memory as vaddr sz s = do {
     reg \<leftarrow> region_probe as vaddr s;
     Some (case reg of None \<Rightarrow> (False, None)
       | Some r \<Rightarrow> (vaddr + sz < vtop r, Some (r_rights r))) }"

end
