(* ===== verification/Pagetable.thy ===== *)
theory Pagetable
  imports Regions
begin

text \<open>
  The page tables that SOS keeps for each process (vm/pagetable.c): two directories of tables, one
  for the frames and the state of each page, one for the capabilities it is mapped with. An entry
  of the first holds the kernel address of the frame, or the slot of the page in the swap file,
  and two flag bits.
\<close>

abbreviation (input) PTE_IN_USE_BIT :: u32 where "PTE_IN_USE_BIT \<equiv> 1"
abbreviation (input) PTE_SWAPPED :: u32 where "PTE_SWAPPED \<equiv> 2"
abbreviation (input) PTE_SWAP_OFFSET :: nat where "PTE_SWAP_OFFSET \<equiv> 2"
abbreviation (input) PTE_SWAP_MASK :: u32 where "PTE_SWAP_MASK \<equiv> 0xfffffffc"
abbreviation (input) PTE_KVADDR_MASK :: u32 where "PTE_KVADDR_MASK \<equiv> 0xfffff000"

definition PT_L1_INDEX :: "u32 \<Rightarrow> int" where "PT_L1_INDEX a = uint (drop_bit 22 (a AND 0xffc00000))"

definition PT_L2_INDEX :: "u32 \<Rightarrow> int" where "PT_L2_INDEX a = uint (drop_bit 12 (a AND 0x003ff000))"

definition PT_ID_TO_VPAGE :: "int \<Rightarrow> int \<Rightarrow> u32" where
  "PT_ID_TO_VPAGE i j = push_bit 22 (word_of_int i) OR push_bit 12 (word_of_int j)"

subsection \<open>Page tables of the kernel\<close>

definition insert_pt :: "nat option \<Rightarrow> u32 \<Rightarrow> u32 \<Rightarrow> 'k sos \<Rightarrow> 'k sos option" where
  "insert_pt as pt_cap pt_addr s = do {
     let (ok, s1) = malloc_ok s;
     c_assert ok;
     a \<leftarrow> get_as as s1;
     Some (put_as as (a\<lparr>as_pt_head := (pt_cap, pt_addr) # as_pt_head a\<rparr>) s1) }"

definition map_page_table :: "nat option \<Rightarrow> u32 \<Rightarrow> u32 \<Rightarrow> 'k sos \<Rightarrow> (int \<times> 'k sos) option" where
  "map_page_table as pd vpage s = do {
     (pt_addr, s1) \<leftarrow> env_ut_alloc seL4_PageTableBits s;
     if pt_addr = 0 then Some (ENOMEM, s1)
     else do {
       (err, cap, s2) \<leftarrow> cspace_ut_retype_addr pt_addr PageTableObject seL4_PageTableBits (cur_cspace s1) s1;
       if err \<noteq> 0 then do {
         s3 \<leftarrow> env_ut_free pt_addr seL4_PageTableBits s2;
         Some (EFAULT, s3) }
       else do {
         pt_cap \<leftarrow> cap;
         let (err, s3) = kernel (PageTable_Map pt_cap pd vpage) s2;
         if err \<noteq> 0 then do {
           s4 \<leftarrow> env_ut_free pt_addr seL4_PageTableBits s3;
           (_, s5) \<leftarrow> cspace_delete_cap (cur_cspace s4) pt_cap s4;
           Some (EFAULT, s5) }
         else do {
           s4 \<leftarrow> insert_pt as pt_cap pt_addr s3;
           Some (0, s4) } } } }"

definition map_sel4_page :: "nat option \<Rightarrow> u32 \<Rightarrow> u32 \<Rightarrow> u32 \<Rightarrow> 'k sos \<Rightarrow> (int \<times> 'k sos) option" where
  "map_sel4_page as frame_cap vpage rights s = do {
     a \<leftarrow> get_as as s;
     let pd = as_sel4_pd a;
     let (err, s1) = kernel (Page_Map frame_cap pd vpage rights) s;
     (err, s2) \<leftarrow> (if err = seL4_FailedLookup then do {
         (err, s2) \<leftarrow> map_page_table as pd vpage s1;
         Some (if err = 0 then kernel (Page_Map frame_cap pd vpage rights) s2 else (err, s2)) }
       else Some (err, s1));
     Some (if err \<noteq> 0 then EFAULT else 0, s2) }"

subsection \<open>Reading the page tables\<close>

text \<open>
  \<open>pt_ready\<close>: the address space exists and has its two directories. \<open>pt_regs\<close> and \<open>pt_caps\<close> read
  the second-level table (0 is NULL), \<open>pte\<close> the entry for an address.
\<close>

definition pt_ready :: "addrspace \<Rightarrow> bool" where
  "pt_ready a \<longleftrightarrow> as_pd_caps a \<noteq> 0 \<and> as_pd_regs a \<noteq> 0"

definition pt_regs :: "addrspace \<Rightarrow> int \<Rightarrow> 'k sos \<Rightarrow> u32 option" where
  "pt_regs a x s = pt_read (as_pd_regs a) x s"

definition pt_caps :: "addrspace \<Rightarrow> int \<Rightarrow> 'k sos \<Rightarrow> u32 option" where
  "pt_caps a x s = pt_read (as_pd_caps a) x s"

definition pte :: "addrspace \<Rightarrow> u32 \<Rightarrow> 'k sos \<Rightarrow> u32 option" where
  "pte a vaddr s = do { pt \<leftarrow> pt_regs a (PT_L1_INDEX vaddr) s; pt_read pt (PT_L2_INDEX vaddr) s }"

definition sos_page_is_inuse :: "nat option \<Rightarrow> u32 \<Rightarrow> 'k sos \<Rightarrow> bool option" where
  "sos_page_is_inuse as vaddr s =
     (if as = None then Some False
      else do {
        a \<leftarrow> get_as as s;
        if \<not> pt_ready a then Some False
        else do {
          let vpage = PAGE_ALIGN vaddr;
          pt \<leftarrow> pt_regs a (PT_L1_INDEX vpage) s;
          if pt = 0 then Some False
          else do { e \<leftarrow> pte a vpage s; Some (e AND PTE_IN_USE_BIT \<noteq> 0) } } })"

definition sos_page_is_swapped :: "nat option \<Rightarrow> u32 \<Rightarrow> 'k sos \<Rightarrow> bool option" where
  "sos_page_is_swapped as vaddr s =
     (if as = None then Some False
      else do {
        a \<leftarrow> get_as as s;
        if \<not> pt_ready a then Some False
        else do {
          let vpage = PAGE_ALIGN vaddr;
          pt \<leftarrow> pt_regs a (PT_L1_INDEX vpage) s;
          if pt = 0 then Some False
          else do { e \<leftarrow> pte a vpage s; Some (e AND PTE_SWAPPED \<noteq> 0) } } })"

text \<open>The local variable that \<^verbatim>\<open>frame_is_locked\<close> leaves unwritten on an error is then read: \<^term>\<open>None\<close>.\<close>

definition sos_page_is_locked :: "nat option \<Rightarrow> u32 \<Rightarrow> 'k sos \<Rightarrow> bool option" where
  "sos_page_is_locked as vaddr s =
     (if as = None then Some False
      else do {
        a \<leftarrow> get_as as s;
        if \<not> pt_ready a then Some False
        else do {
          let vpage = PAGE_ALIGN vaddr;
          pt \<leftarrow> pt_regs a (PT_L1_INDEX vpage) s;
          if pt = 0 then Some False
          else do {
            e \<leftarrow> pte a vpage s;
            (_, locked) \<leftarrow> frame_is_locked (e AND PTE_KVADDR_MASK) s;
            locked } } })"

definition sos_get_kvaddr :: "nat option \<Rightarrow> u32 \<Rightarrow> 'k sos \<Rightarrow> (int \<times> u32) option" where
  "sos_get_kvaddr as vaddr s =
     (if as = None then Some (EINVAL, 0)
      else do {
        a \<leftarrow> get_as as s;
        if \<not> pt_ready a then Some (EFAULT, 0)
        else do {
          pt \<leftarrow> pt_regs a (PT_L1_INDEX vaddr) s;
          if pt = 0 then Some (EINVAL, 0)
          else do {
            e \<leftarrow> pte a vaddr s;
            if e AND PTE_IN_USE_BIT = 0 then Some (EINVAL, 0)
            else Some (0, (e AND PTE_KVADDR_MASK) + (vaddr - PAGE_ALIGN vaddr)) } } })"

definition sos_get_kframe_cap :: "nat option \<Rightarrow> u32 \<Rightarrow> 'k sos \<Rightarrow> (int \<times> u32) option" where
  "sos_get_kframe_cap as vaddr s =
     (if as = None then Some (EINVAL, 0)
      else do {
        a \<leftarrow> get_as as s;
        if \<not> pt_ready a then Some (EFAULT, 0)
        else do {
          pt \<leftarrow> pt_regs a (PT_L1_INDEX vaddr) s;
          if pt = 0 then Some (EINVAL, 0)
          else do {
            e \<leftarrow> pte a vaddr s;
            if e AND PTE_IN_USE_BIT = 0 \<or> e AND PTE_SWAPPED \<noteq> 0 then Some (EINVAL, 0)
            else frame_get_cap (e AND PTE_KVADDR_MASK) s } } })"

subsection \<open>Unmapping and freeing a page\<close>

definition sos_page_unmap :: "nat option \<Rightarrow> u32 \<Rightarrow> 'k sos \<Rightarrow> (int \<times> 'k sos) option" where
  "sos_page_unmap as vaddr s =
     (if as = None then Some (EINVAL, s)
      else do {
        let vpage = PAGE_ALIGN vaddr;
        let x = PT_L1_INDEX vpage;
        let y = PT_L2_INDEX vpage;
        a \<leftarrow> get_as as s;
        if \<not> pt_ready a then Some (EINVAL, s)
        else do {
          caps \<leftarrow> pt_caps a x s;
          regs \<leftarrow> pt_regs a x s;
          if caps = 0 \<or> regs = 0 then Some (EINVAL, s)
          else do {
            cap \<leftarrow> pt_read caps y s;
            c_assert (cap \<noteq> 0);
            let (err, s1) = kernel (Page_Unmap cap) s;
            if err \<noteq> 0 then Some (EFAULT, s1)
            else do {
              (_, s2) \<leftarrow> cspace_delete_cap (cur_cspace s1) cap s1;
              Some (0, s2) } } } })"

end
