(* ===== verification/Vfs.thy ===== *)
theory Vfs
  imports Proc_Table
begin

text \<open>
  Files (vfs/vfs.c, vfs/vnode.c): the table of open vnodes, opening and closing a file, and the
  parts of the console (dev/console.c) and of the NFS device (dev/nfs_dev.c) that this needs. A
  file that is not open yet is looked up on the server and created when it is not there; the
  rest of the opening is the callback of that request.
\<close>

abbreviation (input) ST_FILE :: int where "ST_FILE \<equiv> 1"

subsection \<open>Console: opening and closing\<close>

definition con_init :: "nat option \<Rightarrow> 'k sos \<Rightarrow> (int \<times> 'k sos) option" where
  "con_init vn s = do {
     v \<leftarrow> get_vnode vn s;
     let s1 = put_vnode vn (v\<lparr>vn_ops := Ops_Console,
       vn_sattr := \<lparr>st_type = ST_FILE, st_mode = S_IWUSR OR S_IRUSR, st_size = 0, st_mtime = (0, 0)\<rparr>,
       vn_data := None, vn_initialised := True\<rparr>) s;
     let (ser, s2) = ask s1;
     let s3 = s2\<lparr>con := (con s2)\<lparr>con_serial := ser \<noteq> 0\<rparr>\<rparr>;
     if ser = 0 then Some (EFAULT, s3)
     else Some (0, s3\<lparr>con := (con s3)\<lparr>con_buf_size := 0, con_start := 0, con_end := 0\<rparr>,
       con_reader := (con_reader s3)\<lparr>cr_pid := PROC_NULL, opened_for_reading := False\<rparr>\<rparr>) }"

definition con_eachopen :: "nat option \<Rightarrow> int \<Rightarrow> 'k sos \<Rightarrow> (int \<times> 'k sos) option" where
  "con_eachopen vn flags s =
     (if flags = O_RDWR \<or> flags = O_RDONLY then
        if \<not> opened_for_reading (con_reader s) then do {
          let (err, s1) = ask s;
          if err \<noteq> 0 then Some (EFAULT, s1)
          else do {
            pid \<leftarrow> proc_get_id s1;
            Some (0, s1\<lparr>con_reader := (con_reader s1)\<lparr>cr_pid := pid, opened_for_reading := True\<rparr>\<rparr>) } }
        else Some (EFAULT, s)
      else Some (0, s))"

definition con_eachclose :: "nat option \<Rightarrow> u32 \<Rightarrow> 'k sos \<Rightarrow> (int \<times> 'k sos) option" where
  "con_eachclose vn flags s =
     (if flags = 2 \<or> flags = 0 then
        if \<not> con_serial (con s) then Some (EFAULT, s)
        else let (err, s1) = ask s in
          if err \<noteq> 0 then Some (EFAULT, s1)
          else Some (0, s1\<lparr>con := (con s1)\<lparr>con_buf_size := 0\<rparr>,
            con_reader := (con_reader s1)\<lparr>cr_pid := PROC_NULL, opened_for_reading := False\<rparr>\<rparr>)
      else Some (0, s))"

definition con_lastclose :: "nat option \<Rightarrow> 'k sos \<Rightarrow> (int \<times> 'k sos) option" where
  "con_lastclose vn s = do {
     v \<leftarrow> get_vnode vn s;
     c_assert (vn_opencount v = 1);
     Some (0, s\<lparr>con := (con s)\<lparr>con_serial := False, con_buf_size := 0, con_start := 0, con_end := 0\<rparr>\<rparr>) }"

subsection \<open>NFS files: creation, opening and closing\<close>

definition nfs_init_helper :: "nat option \<Rightarrow> u32 \<Rightarrow> fattr option \<Rightarrow> 'k sos \<Rightarrow> (int \<times> 'k sos) option" where
  "nfs_init_helper vn fh fattr s = do {
     v \<leftarrow> get_vnode vn s;
     let (ok1, s1) = malloc_ok s;
     if \<not> ok1 then Some (ENOMEM, s1)
     else let (ok2, s2) = malloc_ok s1 in
       if \<not> ok2 then Some (ENOMEM, s2)
       else let (ok3, s3) = (if fattr = None then (True, s2) else malloc_ok s2) in
         if \<not> ok3 then Some (ENOMEM, s3)
         else
           let v1 = (case fattr of None \<Rightarrow> v
             | Some a \<Rightarrow> v\<lparr>vn_sattr := \<lparr>st_type = ST_FILE, st_mode = fa_mode a, st_size = fa_size a, st_mtime = fa_mtime a\<rparr>\<rparr>)
           in Some (0, put_vnode vn (v1\<lparr>vn_data := Some (fh, fattr), vn_ops := Ops_NFS, vn_opencount := 0,
                vn_initialised := True\<rparr>) s3) }"

definition nfs_dev_init_mntpoint_vnode :: "nat option \<Rightarrow> u32 \<Rightarrow> 'k sos \<Rightarrow> (int \<times> 'k sos) option" where
  "nfs_dev_init_mntpoint_vnode vn mnt s = nfs_init_helper vn mnt None s"

definition nfs_dev_create :: "nfs_init_state \<Rightarrow> (int \<Rightarrow> 'k sos \<Rightarrow> 'k sos res) \<Rightarrow> 'k sos \<Rightarrow> 'k sos res" where
  "nfs_dev_create cont callback s = do {
     v \<leftarrow> get_vnode (ni_file cont) s;
     nfs_call (NFS_Create (mnt_point s) (vn_name v)) (H_create cont callback) finish s }"

definition nfs_dev_create_handler :: "nfs_init_state \<Rightarrow> (int \<Rightarrow> 'k sos \<Rightarrow> 'k sos res) \<Rightarrow> nfs_reply
    \<Rightarrow> 'k sos \<Rightarrow> 'k sos res" where
  "nfs_dev_create_handler cont callback r s = do {
     wanted \<leftarrow> still_wanted (ni_pid cont) s;
     if \<not> wanted then callback EFAULT s
     else do {
       s1 \<leftarrow> set_cur_proc (ni_pid cont) s;
       if nr_ok r then do {
         (err, s2) \<leftarrow> nfs_init_helper (ni_file cont) (nr_fh r) (nr_fattr r) s1;
         if err \<noteq> 0 then callback err s2 else callback 0 s2 }
       else callback EFAULT s1 } }"

definition nfs_dev_lookup_handler :: "nfs_init_state \<Rightarrow> (int \<Rightarrow> 'k sos \<Rightarrow> 'k sos res) \<Rightarrow> nfs_reply
    \<Rightarrow> 'k sos \<Rightarrow> 'k sos res" where
  "nfs_dev_lookup_handler cont callback r s = do {
     wanted \<leftarrow> still_wanted (ni_pid cont) s;
     if \<not> wanted then callback EFAULT s
     else do {
       s1 \<leftarrow> set_cur_proc (ni_pid cont) s;
       if nr_ok r then do {
         (err, s2) \<leftarrow> nfs_init_helper (ni_file cont) (nr_fh r) (nr_fattr r) s1;
         callback err s2 }
       else nfs_dev_create cont callback s1 } }"

definition nfs_dev_init :: "nat option \<Rightarrow> (int \<Rightarrow> 'k sos \<Rightarrow> 'k sos res) \<Rightarrow> 'k sos \<Rightarrow> 'k sos res" where
  "nfs_dev_init vn callback s =
     (let (ok, s1) = malloc_ok s in
      if \<not> ok then callback ENOMEM s1
      else do {
        pid \<leftarrow> proc_get_id s1;
        v \<leftarrow> get_vnode vn s1;
        nfs_call (NFS_Lookup (mnt_point s1) (vn_name v)) (H_lookup \<lparr>ni_file = vn, ni_pid = pid\<rparr> callback)
          (callback EFAULT) s1 })"

definition nfs_dev_eachopen :: "nat option \<Rightarrow> int \<Rightarrow> 'k sos \<Rightarrow> (int \<times> 'k sos) option" where
  "nfs_dev_eachopen vn flags s = Some (0, s)"

definition nfs_dev_eachclose :: "nat option \<Rightarrow> u32 \<Rightarrow> 'k sos \<Rightarrow> (int \<times> 'k sos) option" where
  "nfs_dev_eachclose vn flags s = Some (0, s)"

definition nfs_dev_lastclose :: "nat option \<Rightarrow> 'k sos \<Rightarrow> (int \<times> 'k sos) option" where
  "nfs_dev_lastclose vn s = do {
     v \<leftarrow> get_vnode vn s;
     d \<leftarrow> vn_data v;
     Some (0, s) }"

definition nfs_dev_get_fhandle :: "nat option \<Rightarrow> 'k sos \<Rightarrow> (int \<times> u32 option) option" where
  "nfs_dev_get_fhandle vn s = (case vn of None \<Rightarrow> Some (EINVAL, None)
     | Some q \<Rightarrow> do {
         v \<leftarrow> get_vnode vn s;
         case vn_data v of None \<Rightarrow> Some (EFAULT, None) | Some d \<Rightarrow> Some (0, Some (fst d)) })"

subsection \<open>Operations of a vnode\<close>

definition VOP_EACHOPEN :: "nat option \<Rightarrow> int \<Rightarrow> 'k sos \<Rightarrow> (int \<times> 'k sos) option" where
  "VOP_EACHOPEN vn flags s = do {
     v \<leftarrow> get_vnode vn s;
     case vn_ops v of Ops_None \<Rightarrow> None
     | Ops_Console \<Rightarrow> con_eachopen vn flags s
     | Ops_NFS \<Rightarrow> nfs_dev_eachopen vn flags s }"

definition VOP_EACHCLOSE :: "nat option \<Rightarrow> u32 \<Rightarrow> 'k sos \<Rightarrow> (int \<times> 'k sos) option" where
  "VOP_EACHCLOSE vn flags s = do {
     v \<leftarrow> get_vnode vn s;
     case vn_ops v of Ops_None \<Rightarrow> None
     | Ops_Console \<Rightarrow> con_eachclose vn flags s
     | Ops_NFS \<Rightarrow> nfs_dev_eachclose vn flags s }"

definition VOP_LASTCLOSE :: "nat option \<Rightarrow> 'k sos \<Rightarrow> (int \<times> 'k sos) option" where
  "VOP_LASTCLOSE vn s = do {
     v \<leftarrow> get_vnode vn s;
     case vn_ops v of Ops_None \<Rightarrow> None
     | Ops_Console \<Rightarrow> con_lastclose vn s
     | Ops_NFS \<Rightarrow> nfs_dev_lastclose vn s }"

subsection \<open>The table of vnodes\<close>

fun vnt_search :: "string \<Rightarrow> nat list \<Rightarrow> 'k sos \<Rightarrow> nat option option" where
  "vnt_search path [] s = Some None"
| "vnt_search path (vte # rest) s = do {
     v \<leftarrow> get_vnode (Some vte) s;
     if path = vn_name v then Some (Some vte) else vnt_search path rest s }"

definition vfs_vnt_lookup :: "string \<Rightarrow> 'k sos \<Rightarrow> nat option option" where
  "vfs_vnt_lookup path s = vnt_search path (vnode_table s) s"

definition vfs_vnt_insert :: "nat option \<Rightarrow> 'k sos \<Rightarrow> (int \<times> 'k sos) option" where
  "vfs_vnt_insert vn s = (case vn of None \<Rightarrow> Some (EINVAL, s)
     | Some q \<Rightarrow> do {
         v \<leftarrow> get_vnode vn s;
         let (ok, s1) = malloc_ok s;
         if \<not> ok then Some (ENOMEM, s1)
         else Some (0, s1\<lparr>vnode_table := q # vnode_table s1\<rparr>) })"

text \<open>The entries with the first one of the name taken out.\<close>

fun vnt_remove :: "string \<Rightarrow> nat list \<Rightarrow> 'k sos \<Rightarrow> nat list option" where
  "vnt_remove path [] s = Some []"
| "vnt_remove path (vte # rest) s = do {
     v \<leftarrow> get_vnode (Some vte) s;
     if vn_name v = path then Some rest
     else do { rest' \<leftarrow> vnt_remove path rest s; Some (vte # rest') } }"

definition vfs_vnt_delete :: "string \<Rightarrow> 'k sos \<Rightarrow> 'k sos option" where
  "vfs_vnt_delete path s = do {
     t \<leftarrow> vnt_remove path (vnode_table s) s;
     Some (s\<lparr>vnode_table := t\<rparr>) }"

definition vnode_incopen :: "nat option \<Rightarrow> 'k sos \<Rightarrow> 'k sos option" where
  "vnode_incopen vn s = do {
     v \<leftarrow> get_vnode vn s;
     Some (put_vnode vn (v\<lparr>vn_opencount := vn_opencount v + 1\<rparr>) s) }"

definition vnode_decopen :: "nat option \<Rightarrow> 'k sos \<Rightarrow> 'k sos option" where
  "vnode_decopen vn s = do {
     v \<leftarrow> get_vnode vn s;
     c_assert (vn_opencount v > 0);
     if vn_opencount v > 1 then Some (put_vnode vn (v\<lparr>vn_opencount := vn_opencount v - 1\<rparr>) s)
     else do {
       (_, s1) \<leftarrow> VOP_LASTCLOSE vn s;
       s2 \<leftarrow> vfs_vnt_delete (vn_name v) s1;
       Some (free_vnode vn s2) } }"

subsection \<open>Opening and closing a file\<close>

definition vfs_open_3_end_create :: "nat option \<Rightarrow> int \<Rightarrow> (int \<Rightarrow> nat option \<Rightarrow> 'k sos \<Rightarrow> 'k sos res)
    \<Rightarrow> int \<Rightarrow> 'k sos \<Rightarrow> 'k sos res" where
  "vfs_open_3_end_create vn openflags callback err s = do {
     (failed, s1) \<leftarrow> (if err \<noteq> 0 then Some (True, s)
       else do { (e, s') \<leftarrow> VOP_EACHOPEN vn openflags s; Some (e \<noteq> 0, s') });
     if failed then do {
       _ \<leftarrow> get_vnode vn s1;
       callback err None (free_vnode vn s1) }
     else do {
       (err', s2) \<leftarrow> vfs_vnt_insert vn s1;
       if err' \<noteq> 0 then do {
         (_, s3) \<leftarrow> VOP_LASTCLOSE vn s2;
         callback err' None (free_vnode vn s3) }
       else do {
         v \<leftarrow> get_vnode vn s2;
         callback 0 vn (put_vnode vn (v\<lparr>vn_opencount := 1\<rparr>) s2) } } }"

definition vfs_open_2_create_vnode :: "string \<Rightarrow> int \<Rightarrow> (int \<Rightarrow> nat option \<Rightarrow> 'k sos \<Rightarrow> 'k sos res)
    \<Rightarrow> 'k sos \<Rightarrow> 'k sos res" where
  "vfs_open_2_create_vnode path openflags callback s =
     (let (vn, s1) = malloc s in
      if vn = None then callback ENOMEM None s1
      else let (ok1, s2) = malloc_ok s1 in
        if \<not> ok1 then callback ENOMEM None s2
        else let (ok2, s3) = malloc_ok s2 in
          if \<not> ok2 then callback ENOMEM None s3
          else let (ok3, s4) = malloc_ok s3 in
            if \<not> ok3 then callback ENOMEM None s4
            else
              let s5 = put_vnode vn \<lparr>vn_initialised = False, vn_opencount = 0, vn_name = path, vn_data = None,
                    vn_sattr = \<lparr>st_type = 0, st_mode = 0, st_size = 0, st_mtime = (0, 0)\<rparr>, vn_ops = Ops_None\<rparr> s4
              in if path = ''console'' then do {
                   (err, s6) \<leftarrow> con_init vn s5;
                   vfs_open_3_end_create vn openflags callback 0 (if err \<noteq> 0 then free_vnode vn s6 else s6) }
                 else nfs_dev_init vn (vfs_open_3_end_create vn openflags callback) s5)"

definition vfs_open :: "string \<Rightarrow> int \<Rightarrow> (int \<Rightarrow> nat option \<Rightarrow> 'k sos \<Rightarrow> 'k sos res) \<Rightarrow> 'k sos \<Rightarrow> 'k sos res" where
  "vfs_open path openflags callback s = do {
     vn \<leftarrow> vfs_vnt_lookup path s;
     if vn \<noteq> None then do {
       (err, s1) \<leftarrow> VOP_EACHOPEN vn openflags s;
       if err \<noteq> 0 then callback err None s1
       else do { s2 \<leftarrow> vnode_incopen vn s1; callback err vn s2 } }
     else vfs_open_2_create_vnode path openflags callback s }"

definition vfs_close :: "nat option \<Rightarrow> u32 \<Rightarrow> 'k sos \<Rightarrow> 'k sos option" where
  "vfs_close vn flags s = do {
     (_, s1) \<leftarrow> VOP_EACHCLOSE vn flags s;
     vnode_decopen vn s1 }"

end
