(* ===== verification/Swap.thy ===== *)
theory Swap
  imports Pagetable Vfs Slot_Interface
begin

text \<open>
  Swapping out (vm/swap.c): the bit map of slots in the swap file, opening the file at the first use,
  and writing a page in pieces of 1024 bytes, each of which is an NFS request.
\<close>

abbreviation (input) NUM_CHUNKS :: nat where "NUM_CHUNKS \<equiv> 1024"
abbreviation (input) NUM_BITS :: int where "NUM_BITS \<equiv> 32"
abbreviation (input) NFS_SEND_SIZE :: u32 where "NFS_SEND_SIZE \<equiv> 1024"

subsection \<open>The slots of the swap file\<close>

definition unset_slot :: "int \<Rightarrow> u32 list \<Rightarrow> u32 list option" where
  "unset_slot slot fs = do {
     w \<leftarrow> rd fs (cdiv slot NUM_BITS);
     wr fs (cdiv slot NUM_BITS) (w AND NOT (push_bit (nat (slot mod NUM_BITS)) 1)) }"

definition set_slot :: "int \<Rightarrow> u32 list \<Rightarrow> u32 list option" where
  "set_slot slot fs = do {
     w \<leftarrow> rd fs (cdiv slot NUM_BITS);
     wr fs (cdiv slot NUM_BITS) (w OR push_bit (nat (slot mod NUM_BITS)) 1) }"

definition chunk_free_bit :: "u32 \<Rightarrow> nat option" where
  "chunk_free_bit w = (if w = - 1 then None else find (\<lambda>j. w AND push_bit j 1 = 0) [0..<32])"

fun scan_chunks :: "nat \<Rightarrow> u32 list \<Rightarrow> int" where
  "scan_chunks i [] = - 1"
| "scan_chunks i (w # ws) = (case chunk_free_bit w of
     Some j \<Rightarrow> int i * NUM_BITS + int j | None \<Rightarrow> scan_chunks (Suc i) ws)"

definition swap_find_free_slot :: "u32 list \<Rightarrow> int" where
  "swap_find_free_slot fs = scan_chunks 0 fs"

definition swap_free_slot :: "int \<Rightarrow> 'k sos \<Rightarrow> 'k sos option" where
  "swap_free_slot slot s = do { fs \<leftarrow> unset_slot slot (free_slots s); Some (s\<lparr>free_slots := fs\<rparr>) }"

subsection \<open>Freeing a page\<close>

text \<open>
  The slot number is taken from the entry as an unsigned word and passed as an \<^verbatim>\<open>int\<close>; whether
  the frame is locked is unknown when \<^verbatim>\<open>frame_is_locked\<close> reports an error.
\<close>

definition sos_page_free :: "nat option \<Rightarrow> u32 \<Rightarrow> 'k sos \<Rightarrow> 'k sos option" where
  "sos_page_free as vaddr s =
     (if as = None then Some s
      else do {
        let vpage = PAGE_ALIGN vaddr;
        let x = PT_L1_INDEX vpage;
        let y = PT_L2_INDEX vpage;
        a \<leftarrow> get_as as s;
        if \<not> pt_ready a then Some s
        else do {
          caps \<leftarrow> pt_caps a x s;
          regs \<leftarrow> pt_regs a x s;
          if caps = 0 \<or> regs = 0 then Some s
          else do {
            e \<leftarrow> pt_read regs y s;
            if e AND PTE_IN_USE_BIT = 0 then Some s
            else if e AND PTE_SWAPPED \<noteq> 0 then do {
              s1 \<leftarrow> swap_free_slot (sint (drop_bit PTE_SWAP_OFFSET (e AND PTE_SWAP_MASK))) s;
              pt_write regs y 0 s1 }
            else do {
              let kvaddr = e AND PTE_KVADDR_MASK;
              ref \<leftarrow> is_frame_referenced kvaddr s;
              (err, s1) \<leftarrow> (if ref then sos_page_unmap as vpage s else Some (0, s));
              if err \<noteq> 0 then Some s1
              else do {
                (_, lk) \<leftarrow> frame_is_locked kvaddr s1;
                locked \<leftarrow> lk;
                s2 \<leftarrow> (if locked then Some s1
                  else do { (_, s') \<leftarrow> frame_free kvaddr s1; Some s' });
                pt_write regs y 0 s2 } } } } })"

subsection \<open>Opening the swap file\<close>

definition swap_init_end :: "(int \<Rightarrow> 'k sos \<Rightarrow> 'k sos res) \<Rightarrow> int \<Rightarrow> nat option \<Rightarrow> 'k sos \<Rightarrow> 'k sos res" where
  "swap_init_end callback err vn s =
     (if err \<noteq> 0 then callback err s
      else do {
        (err', fh) \<leftarrow> nfs_dev_get_fhandle vn s;
        if err' \<noteq> 0 then callback EFAULT s
        else callback 0 (s\<lparr>swap_fh := fh\<rparr>) })"

definition swap_init :: "(int \<Rightarrow> 'k sos \<Rightarrow> 'k sos res) \<Rightarrow> 'k sos \<Rightarrow> 'k sos res" where
  "swap_init callback s =
     (let (ok, s1) = malloc_ok (s\<lparr>free_slots := replicate NUM_CHUNKS 0\<rparr>) in
      if \<not> ok then callback ENOMEM s1
      else vfs_open ''swap'' O_RDWR (swap_init_end callback) s1)"

subsection \<open>Writing a page to the swap file\<close>

definition swap_out_end :: "swap_out_cont \<Rightarrow> (int \<Rightarrow> 'k sos \<Rightarrow> 'k sos res) \<Rightarrow> int \<Rightarrow> 'k sos \<Rightarrow> 'k sos res" where
  "swap_out_end cont callback err s =
     (if err \<noteq> 0 then do {
        slot \<leftarrow> so_free_slot cont;
        s1 \<leftarrow> swap_free_slot slot s;
        (_, s2) \<leftarrow> frame_unlock_frame (so_kvaddr cont) s1;
        callback EFAULT s2 }
      else do {
        as \<leftarrow> frame_get_as (so_kvaddr cont) s;
        c_assert (as \<noteq> None);
        vaddr \<leftarrow> frame_get_vaddr (so_kvaddr cont) s;
        let vpage = PAGE_ALIGN vaddr;
        c_assert (vpage \<noteq> 0);
        a \<leftarrow> get_as as s;
        slot \<leftarrow> so_free_slot cont;
        regs \<leftarrow> pt_regs a (PT_L1_INDEX vpage) s;
        s1 \<leftarrow> pt_write regs (PT_L2_INDEX vpage)
          (push_bit PTE_SWAP_OFFSET (word_of_int slot) OR PTE_IN_USE_BIT OR PTE_SWAPPED) s;
        (_, s2) \<leftarrow> frame_unlock_frame (so_kvaddr cont) s1;
        (_, kframe_cap) \<leftarrow> frame_get_cap (so_kvaddr cont) s2;
        let (_, s3) = kernel (Page_Unify_Instruction kframe_cap) s2;
        (_, s4) \<leftarrow> frame_free (so_kvaddr cont) s3;
        callback 0 s4 })"

text \<open>The request for the next part of the page: at most 1024 bytes.\<close>

definition swap_write :: "swap_out_cont \<Rightarrow> (int \<Rightarrow> 'k sos \<Rightarrow> 'k sos res) \<Rightarrow> 'k sos \<Rightarrow> 'k sos res" where
  "swap_write cont callback s = do {
     fh \<leftarrow> swap_fh s;
     slot \<leftarrow> so_free_slot cont;
     let n = min NFS_SEND_SIZE (PAGE_SIZE - so_written cont);
     nfs_call (NFS_Write fh (word_of_int slot * PAGE_SIZE + so_written cont)
         (mem_load (so_kvaddr cont + so_written cont) (unat n) s))
       (H_swap_out_write cont callback) (swap_out_end cont callback EFAULT) s }"

definition swap_out_4_nfs_write_cb :: "swap_out_cont \<Rightarrow> (int \<Rightarrow> 'k sos \<Rightarrow> 'k sos res) \<Rightarrow> nfs_reply
    \<Rightarrow> 'k sos \<Rightarrow> 'k sos res" where
  "swap_out_4_nfs_write_cb cont callback r s =
     (if \<not> nr_ok r \<or> nr_fattr r = None \<or> nr_count r < 0 then swap_out_end cont callback EFAULT s
      else do {
        pid \<leftarrow> frame_get_pid (so_kvaddr cont) s;
        wanted \<leftarrow> still_wanted pid s;
        if \<not> wanted then do {
          slot \<leftarrow> so_free_slot cont;
          s1 \<leftarrow> swap_free_slot slot s;
          (_, s2) \<leftarrow> frame_unlock_frame (so_kvaddr cont) s1;
          (_, s3) \<leftarrow> frame_free (so_kvaddr cont) s2;
          callback EFAULT s3 }
        else do {
          s1 \<leftarrow> set_cur_proc (so_pid cont) s;
          let cont' = cont\<lparr>so_written := so_written cont + word_of_int (nr_count r)\<rparr>;
          if so_written cont' < PAGE_SIZE then swap_write cont' callback s1
          else swap_out_end cont' callback 0 s1 } })"

definition swap_out_3 :: "swap_out_cont \<Rightarrow> (int \<Rightarrow> 'k sos \<Rightarrow> 'k sos res) \<Rightarrow> 'k sos \<Rightarrow> 'k sos res" where
  "swap_out_3 cont callback s = do {
     let slot = swap_find_free_slot (free_slots s);
     if slot < 0 then swap_out_end cont callback EFAULT s
     else do {
       fs \<leftarrow> set_slot slot (free_slots s);
       swap_write (cont\<lparr>so_free_slot := Some slot\<rparr>) callback (s\<lparr>free_slots := fs\<rparr>) } }"

definition swap_out_2_init_callback :: "swap_out_cont \<Rightarrow> (int \<Rightarrow> 'k sos \<Rightarrow> 'k sos res) \<Rightarrow> int
    \<Rightarrow> 'k sos \<Rightarrow> 'k sos res" where
  "swap_out_2_init_callback cont callback err s =
     (if err \<noteq> 0 then swap_out_end cont callback EFAULT s else swap_out_3 cont callback s)"

definition swap_out :: "u32 \<Rightarrow> (int \<Rightarrow> 'k sos \<Rightarrow> 'k sos res) \<Rightarrow> 'k sos \<Rightarrow> 'k sos res" where
  "swap_out kvaddr0 callback s = do {
     let kvaddr = PAGE_ALIGN kvaddr0;
     vaddr \<leftarrow> frame_get_vaddr kvaddr s;
     c_assert (vaddr \<noteq> 0);
     let (ok, s1) = malloc_ok s;
     if \<not> ok then callback ENOMEM s1
     else do {
       pid \<leftarrow> proc_get_id s1;
       let cont = \<lparr>so_kvaddr = kvaddr, so_free_slot = None, so_written = 0, so_pid = pid\<rparr>;
       (_, s2) \<leftarrow> frame_lock_frame kvaddr s1;
       if swap_fh s2 = None then swap_init (swap_out_2_init_callback cont callback) s2
       else swap_out_3 cont callback s2 } }"

end
