(* ===== verification/Page_Map.thy ===== *)
theory Page_Map
  imports Swap
begin

text \<open>
  Frame allocation with eviction (vm/frametable.c), mapping a page for a process (vm/pagetable.c)
  and swapping a page in (vm/swap.c). Each of these may have to wait for the file server: it
  returns with a task pending and goes on in the callback.
\<close>

subsection \<open>Choosing a frame to swap out\<close>

text \<open>
  The loop of \<^verbatim>\<open>_second_chance_swap_victim\<close>; \<open>n\<close> is the number of rounds it has left.
\<close>

fun second_chance :: "nat \<Rightarrow> 'k sos \<Rightarrow> (u32 \<times> 'k sos) option" where
  "second_chance 0 s = Some (0, s)"
| "second_chance (Suc n) s = do {
     f \<leftarrow> fte (victim s) s;
     if fte_noswap f \<or> fte_locked f then second_chance n (s\<lparr>victim := (victim s + 1) mod NFRAMES\<rparr>)
     else if fte_referenced f then do {
       (_, s1) \<leftarrow> sos_page_unmap (fte_as f) (fte_vaddr f) s;
       f1 \<leftarrow> fte (victim s1) s1;
       s2 \<leftarrow> put_fte (victim s1) (f1\<lparr>fte_referenced := False\<rparr>) s1;
       second_chance n (s2\<lparr>victim := (victim s2 + 1) mod NFRAMES\<rparr>) }
     else Some (ID_TO_KVADDR (victim s), s\<lparr>victim := (victim s + 1) mod NFRAMES\<rparr>) }"

definition second_chance_swap_victim :: "'k sos \<Rightarrow> (u32 \<times> 'k sos) option" where
  "second_chance_swap_victim s = second_chance 96 s"

subsection \<open>Allocating a frame\<close>

record frame_alloc_cont =
  fa_vaddr :: u32
  fa_as :: "nat option"
  fa_pid :: int
  fa_noswap :: bool

definition frame_fill :: "frame_alloc_cont \<Rightarrow> u32 \<Rightarrow> frame_entry \<Rightarrow> frame_entry" where
  "frame_fill cont kvaddr f = f\<lparr>fte_status := FRAME_STATUS_ALLOCATED, fte_kvaddr := kvaddr,
     fte_vaddr := fa_vaddr cont, fte_as := fa_as cont, fte_pid := fa_pid cont,
     fte_noswap := fa_noswap cont, fte_referenced := True, fte_locked := False\<rparr>"

text \<open>The first free frame, given memory when it has none, taken off the free list and cleared.\<close>

definition frame_take :: "frame_alloc_cont \<Rightarrow> 'k sos \<Rightarrow> (u32 \<times> 'k sos) option" where
  "frame_take cont s =
     (if first_free s = FRAME_INVALID then Some (0, s)
      else do {
        let ind = first_free s;
        let kvaddr = ID_TO_KVADDR ind;
        f \<leftarrow> fte ind s;
        c_assert (fte_status f \<noteq> FRAME_STATUS_ALLOCATED);
        (err, s2) \<leftarrow> (if fte_status f = FRAME_STATUS_UNTYPED then do {
            (err, paddr, cap, s1) \<leftarrow> map_to_sel4 seL4_CapInitThreadPD kvaddr s;
            s2 \<leftarrow> put_fte ind (f\<lparr>fte_paddr := paddr,
              fte_cap := (case cap of None \<Rightarrow> fte_cap f | Some c \<Rightarrow> c)\<rparr>) s1;
            Some (err, s2) }
          else Some (0, s));
        if err \<noteq> 0 then Some (0, s2)
        else do {
          f2 \<leftarrow> fte ind s2;
          s3 \<leftarrow> put_fte ind (frame_fill cont kvaddr f2) s2;
          Some (kvaddr, (bzero_page kvaddr s3)\<lparr>first_free := fte_next_free f2\<rparr>) } })"

definition frame_alloc_end :: "frame_alloc_cont \<Rightarrow> (u32 \<Rightarrow> 'k sos \<Rightarrow> 'k sos res) \<Rightarrow> int \<Rightarrow> 'k sos \<Rightarrow> 'k sos res" where
  "frame_alloc_end cont callback err s =
     (if err \<noteq> 0 then callback 0 s
      else do { (kvaddr, s1) \<leftarrow> frame_take cont s; callback kvaddr s1 })"

definition frame_alloc :: "u32 \<Rightarrow> nat option \<Rightarrow> int \<Rightarrow> bool \<Rightarrow> (u32 \<Rightarrow> 'k sos \<Rightarrow> 'k sos res)
    \<Rightarrow> 'k sos \<Rightarrow> ('k sos, int) res_val" where
  "frame_alloc vaddr as pid noswap callback s =
     (if \<not> frame_initialised s then Some (EFAULT, s, [])
      else if as \<noteq> None \<and> vaddr = 0 then Some (EINVAL, s, [])
      else do {
        let (ok, s1) = malloc_ok s;
        if \<not> ok then Some (ENOMEM, s1, [])
        else do {
          let cont = \<lparr>fa_vaddr = PAGE_ALIGN vaddr, fa_as = as, fa_pid = pid, fa_noswap = noswap\<rparr>;
          if first_free s1 = FRAME_INVALID then do {
            (kvaddr, s2) \<leftarrow> second_chance_swap_victim s1;
            if kvaddr = 0 then Some (ENOMEM, s2, [])
            else with_val 0 (swap_out kvaddr (frame_alloc_end cont callback) s2) }
          else with_val 0 (frame_alloc_end cont callback 0 s1) } })"

subsection \<open>Mapping a page for a process\<close>

record page_map_cont =
  pm_pid :: int
  pm_as :: "nat option"
  pm_vpage :: u32
  pm_permissions :: u32
  pm_noswap :: bool

text \<open>
  \<open>if_err r f\<close>: the value of \<open>r\<close> is an error code, and \<open>f\<close> is run when it is not 0.
\<close>

definition if_err :: "('s, int) res_val \<Rightarrow> (int \<Rightarrow> 's \<Rightarrow> 's res) \<Rightarrow> 's res" where
  "if_err r f = andthen_val r (\<lambda>err s. if err \<noteq> 0 then f err s else finish s)"

definition sos_page_map_5 :: "page_map_cont \<Rightarrow> (int \<Rightarrow> 'k sos \<Rightarrow> 'k sos res) \<Rightarrow> u32 \<Rightarrow> 'k sos \<Rightarrow> 'k sos res" where
  "sos_page_map_5 cont callback kvaddr s =
     (if kvaddr = 0 then callback ENOMEM s
      else do {
        (err, kframe_cap) \<leftarrow> frame_get_cap kvaddr s;
        c_assert (err = 0);
        (frame_cap, s1) \<leftarrow> cspace_copy_cap (cur_cspace s) (cur_cspace s) kframe_cap (pm_permissions cont) s;
        if frame_cap = CSPACE_NULL then do {
          (_, s2) \<leftarrow> frame_free kvaddr s1;
          callback EFAULT s2 }
        else do {
          (err, s2) \<leftarrow> map_sel4_page (pm_as cont) frame_cap (pm_vpage cont) (pm_permissions cont) s1;
          if err \<noteq> 0 then do {
            (_, s3) \<leftarrow> frame_free kvaddr s2;
            (_, s4) \<leftarrow> cspace_delete_cap (cur_cspace s3) frame_cap s3;
            callback err s4 }
          else do {
            (_, s3) \<leftarrow> frame_set_referenced kvaddr s2;
            a \<leftarrow> get_as (pm_as cont) s3;
            regs \<leftarrow> pt_regs a (PT_L1_INDEX (pm_vpage cont)) s3;
            s4 \<leftarrow> pt_write regs (PT_L2_INDEX (pm_vpage cont)) ((kvaddr OR PTE_IN_USE_BIT) AND NOT PTE_SWAPPED) s3;
            caps \<leftarrow> pt_caps a (PT_L1_INDEX (pm_vpage cont)) s4;
            s5 \<leftarrow> pt_write caps (PT_L2_INDEX (pm_vpage cont)) frame_cap s4;
            callback 0 s5 } } })"

definition sos_page_map_4_alloc_frame :: "page_map_cont \<Rightarrow> (int \<Rightarrow> 'k sos \<Rightarrow> 'k sos res) \<Rightarrow> 'k sos \<Rightarrow> 'k sos res" where
  "sos_page_map_4_alloc_frame cont callback s = do {
     a \<leftarrow> get_as (pm_as cont) s;
     e \<leftarrow> pte a (pm_vpage cont) s;
     if e AND PTE_IN_USE_BIT \<noteq> 0 \<and> e AND PTE_SWAPPED = 0 then callback EINVAL s
     else if_err (frame_alloc (pm_vpage cont) (pm_as cont) (pm_pid cont) (pm_noswap cont)
         (sos_page_map_5 cont callback) s)
       (\<lambda>err. callback EINVAL) }"

definition sos_page_map_3 :: "page_map_cont \<Rightarrow> (int \<Rightarrow> 'k sos \<Rightarrow> 'k sos res) \<Rightarrow> u32 \<Rightarrow> 'k sos \<Rightarrow> 'k sos res" where
  "sos_page_map_3 cont callback kvaddr s = do {
     a \<leftarrow> get_as (pm_as cont) s;
     let x = PT_L1_INDEX (pm_vpage cont);
     if kvaddr = 0 then do {
       pt \<leftarrow> pt_regs a x s;
       (_, s1) \<leftarrow> frame_free pt s;
       callback ENOMEM s1 }
     else do {
       s1 \<leftarrow> pt_write (as_pd_caps a) x kvaddr s;
       sos_page_map_4_alloc_frame cont callback s1 } }"

definition sos_page_map_2_alloc_cap_pt :: "page_map_cont \<Rightarrow> (int \<Rightarrow> 'k sos \<Rightarrow> 'k sos res) \<Rightarrow> u32 \<Rightarrow> 'k sos \<Rightarrow> 'k sos res" where
  "sos_page_map_2_alloc_cap_pt cont callback kvaddr s =
     (if kvaddr = 0 then callback ENOMEM s
      else do {
        a \<leftarrow> get_as (pm_as cont) s;
        s1 \<leftarrow> pt_write (as_pd_regs a) (PT_L1_INDEX (PAGE_ALIGN (pm_vpage cont))) kvaddr s;
        if_err (frame_alloc 0 None PROC_NULL True (sos_page_map_3 cont callback) s1)
          (\<lambda>err s2. do {
             (_, s3) \<leftarrow> frame_free kvaddr s2;
             callback EFAULT s3 }) })"

definition sos_page_map :: "int \<Rightarrow> nat option \<Rightarrow> u32 \<Rightarrow> u32 \<Rightarrow> (int \<Rightarrow> 'k sos \<Rightarrow> 'k sos res) \<Rightarrow> bool
    \<Rightarrow> 'k sos \<Rightarrow> ('k sos, int) res_val" where
  "sos_page_map pid as vaddr permissions callback noswap s =
     (if as = None then Some (EINVAL, s, [])
      else do {
        a \<leftarrow> get_as as s;
        if \<not> pt_ready a then Some (EFAULT, s, [])
        else do {
          let vpage = PAGE_ALIGN vaddr;
          let (ok, s1) = malloc_ok s;
          if \<not> ok then Some (ENOMEM, s1, [])
          else do {
            let cont = \<lparr>pm_pid = pid, pm_as = as, pm_vpage = vpage, pm_permissions = permissions, pm_noswap = noswap\<rparr>;
            let x = PT_L1_INDEX vpage;
            pt \<leftarrow> pt_regs a x s1;
            if pt = 0 then do {
              cpt \<leftarrow> pt_caps a x s1;
              c_assert (cpt = 0);
              (err, s2, ts) \<leftarrow> frame_alloc 0 None PROC_NULL True (sos_page_map_2_alloc_cap_pt cont callback) s1;
              Some (if err \<noteq> 0 then EFAULT else 0, s2, ts) }
            else with_val 0 (sos_page_map_4_alloc_frame cont callback s1) } } })"

subsection \<open>Reading a page from the swap file\<close>

definition swap_in_end :: "swap_in_cont \<Rightarrow> (int \<Rightarrow> 'k sos \<Rightarrow> 'k sos res) \<Rightarrow> int \<Rightarrow> 'k sos \<Rightarrow> 'k sos res" where
  "swap_in_end cont callback err s =
     (if err \<noteq> 0 then do {
        (_, s1) \<leftarrow> frame_unlock_frame (si_kvaddr cont) s;
        s2 \<leftarrow> (if si_kvaddr cont \<noteq> 0 then sos_page_free (si_as cont) (si_vpage cont) s1 else Some s1);
        callback err s2 }
      else do {
        (err', kframe_cap) \<leftarrow> frame_get_cap (si_kvaddr cont) s;
        c_assert (err' = 0);
        let s1 = (if si_is_code cont then snd (kernel (Page_Unify_Instruction kframe_cap) s) else s);
        (_, s2) \<leftarrow> frame_unlock_frame (si_kvaddr cont) s1;
        s3 \<leftarrow> swap_free_slot (si_swap_slot cont) s2;
        callback 0 s3 })"

definition swap_read :: "swap_in_cont \<Rightarrow> (int \<Rightarrow> 'k sos \<Rightarrow> 'k sos res) \<Rightarrow> 'k sos \<Rightarrow> 'k sos res" where
  "swap_read cont callback s = do {
     fh \<leftarrow> swap_fh s;
     nfs_call (NFS_Read fh (word_of_int (si_swap_slot cont) * PAGE_SIZE + si_bytes_read cont)
         (min NFS_SEND_SIZE (PAGE_SIZE - si_bytes_read cont)))
       (H_swap_in_read cont callback) (swap_in_end cont callback EFAULT) s }"

definition swap_in_nfs_read_handler :: "swap_in_cont \<Rightarrow> (int \<Rightarrow> 'k sos \<Rightarrow> 'k sos res) \<Rightarrow> nfs_reply
    \<Rightarrow> 'k sos \<Rightarrow> 'k sos res" where
  "swap_in_nfs_read_handler cont callback r s =
     (if \<not> nr_ok r \<or> nr_count r < 0 then swap_in_end cont callback EFAULT s
      else do {
        pid \<leftarrow> frame_get_pid (si_kvaddr cont) s;
        wanted \<leftarrow> still_wanted pid s;
        if \<not> wanted then do {
          (_, s1) \<leftarrow> frame_unlock_frame (si_kvaddr cont) s;
          (_, s2) \<leftarrow> frame_free (si_kvaddr cont) s1;
          s3 \<leftarrow> swap_free_slot (si_swap_slot cont) s2;
          callback EFAULT s3 }
        else do {
          s1 \<leftarrow> set_cur_proc (si_pid cont) s;
          let s2 = mem_store (si_kvaddr cont + si_bytes_read cont) (take (nat (nr_count r)) (nr_data r)) s1;
          let cont' = cont\<lparr>si_bytes_read := si_bytes_read cont + word_of_int (nr_count r)\<rparr>;
          if si_bytes_read cont' < PAGE_SIZE then swap_read cont' callback s2
          else swap_in_end cont' callback 0 s2 } })"

definition swap_in_page_map_cb :: "swap_in_cont \<Rightarrow> (int \<Rightarrow> 'k sos \<Rightarrow> 'k sos res) \<Rightarrow> int \<Rightarrow> 'k sos \<Rightarrow> 'k sos res" where
  "swap_in_page_map_cb cont callback err s =
     (if err \<noteq> 0 then swap_in_end cont callback err s
      else do {
        a \<leftarrow> get_as (si_as cont) s;
        e \<leftarrow> pte a (si_vpage cont) s;
        let cont' = cont\<lparr>si_kvaddr := e AND PTE_KVADDR_MASK\<rparr>;
        (err', s1) \<leftarrow> frame_lock_frame (si_kvaddr cont') s;
        if err' \<noteq> 0 then swap_in_end cont' callback err' s1
        else swap_read cont' callback s1 })"

definition swap_in :: "nat option \<Rightarrow> u32 \<Rightarrow> u32 \<Rightarrow> bool \<Rightarrow> (int \<Rightarrow> 'k sos \<Rightarrow> 'k sos res) \<Rightarrow> 'k sos
    \<Rightarrow> ('k sos, int) res_val" where
  "swap_in as rights vaddr is_code callback s = do {
     c_assert (swap_fh s \<noteq> None);
     let vpage = PAGE_ALIGN vaddr;
     let x = PT_L1_INDEX vpage;
     a \<leftarrow> get_as as s;
     regs \<leftarrow> pt_regs a x s;
     caps \<leftarrow> pt_caps a x s;
     c_assert (regs \<noteq> 0 \<and> caps \<noteq> 0);
     e \<leftarrow> pte a vpage s;
     c_assert (e AND PTE_SWAPPED \<noteq> 0);
     let slot = sint (drop_bit PTE_SWAP_OFFSET (e AND PTE_SWAP_MASK));
     let (ok, s1) = malloc_ok s;
     if \<not> ok then Some (ENOMEM, s1, [])
     else do {
       pid \<leftarrow> proc_get_id s1;
       let cont = \<lparr>si_kvaddr = 0, si_vpage = vpage, si_swap_slot = slot, si_as = as, si_rights = rights,
         si_is_code = is_code, si_bytes_read = 0, si_pid = pid\<rparr>;
       sos_page_map pid as vpage rights (swap_in_page_map_cb cont callback) False s1 } }"

end
