(* ===== verification/Addrspace.thy ===== *)
theory Addrspace
  imports Page_Map
begin

text \<open>
  Creating and destroying an address space (vm/addrspace.c), and copying between a process and the
  kernel (vm/copyinout.c), page by page, bringing pages into memory on the way.
\<close>

subsection \<open>Creating an address space\<close>

definition as_create_end :: "nat option \<Rightarrow> (nat option \<Rightarrow> 'k sos \<Rightarrow> 'k sos res) \<Rightarrow> int \<Rightarrow> 'k sos \<Rightarrow> 'k sos res" where
  "as_create_end as callback err s =
     (if err = 0 then callback as s
      else do {
        a \<leftarrow> get_as as s;
        s1 \<leftarrow> (if as_pd_caps a \<noteq> 0 then do { (_, s') \<leftarrow> frame_free (as_pd_caps a) s; Some s' } else Some s);
        s2 \<leftarrow> (if as_pd_regs a \<noteq> 0 then do { (_, s') \<leftarrow> frame_free (as_pd_regs a) s1; Some s' } else Some s1);
        callback None s2 })"

definition as_create_pagedir_regs_allocated :: "nat option \<Rightarrow> (nat option \<Rightarrow> 'k sos \<Rightarrow> 'k sos res) \<Rightarrow> u32
    \<Rightarrow> 'k sos \<Rightarrow> 'k sos res" where
  "as_create_pagedir_regs_allocated as callback kvaddr s =
     (if kvaddr = 0 then as_create_end as callback ENOMEM s
      else do {
        a \<leftarrow> get_as as s;
        as_create_end as callback 0 (bzero_page kvaddr (put_as as (a\<lparr>as_pd_regs := kvaddr\<rparr>) s)) })"

definition as_create_pagedir_caps_allocated :: "nat option \<Rightarrow> (nat option \<Rightarrow> 'k sos \<Rightarrow> 'k sos res) \<Rightarrow> u32
    \<Rightarrow> 'k sos \<Rightarrow> 'k sos res" where
  "as_create_pagedir_caps_allocated as callback kvaddr s =
     (if kvaddr = 0 then as_create_end as callback ENOMEM s
      else do {
        a \<leftarrow> get_as as s;
        if_err (frame_alloc 0 None PROC_NULL True (as_create_pagedir_regs_allocated as callback)
            (bzero_page kvaddr (put_as as (a\<lparr>as_pd_caps := kvaddr\<rparr>) s)))
          (as_create_end as callback) })"

definition as_create :: "u32 \<Rightarrow> (nat option \<Rightarrow> 'k sos \<Rightarrow> 'k sos res) \<Rightarrow> 'k sos \<Rightarrow> ('k sos, int) res_val" where
  "as_create sel4_pd callback s =
     (let (as, s1) = malloc s in
      if as = None then Some (ENOMEM, s1, [])
      else let (ok, s2) = malloc_ok s1 in
        if \<not> ok then Some (ENOMEM, s2, [])
        else do {
          let s3 = put_as as \<lparr>as_pd_caps = 0, as_pd_regs = 0, as_rhead = [], as_stack = None, as_heap = None,
            as_sel4_pd = sel4_pd, as_pt_head = []\<rparr> s2;
          (err, s4, ts) \<leftarrow> frame_alloc 0 None PROC_NULL True (as_create_pagedir_caps_allocated as callback) s3;
          Some (err, if err \<noteq> 0 then s4\<lparr>addrspaces := (addrspaces s4)(the as := None)\<rparr> else s4, ts) })"

subsection \<open>Destroying an address space\<close>

abbreviation (input) N_PAGETABLES :: int where "N_PAGETABLES \<equiv> 1024"

definition as_destroy_table :: "nat option \<Rightarrow> int \<Rightarrow> 'k sos \<Rightarrow> 'k sos option" where
  "as_destroy_table as i s = do {
     a \<leftarrow> get_as as s;
     regs \<leftarrow> pt_regs a i s;
     caps \<leftarrow> pt_caps a i s;
     if regs = 0 then do { c_assert (caps = 0); Some s }
     else do {
       s1 \<leftarrow> for_up 0 N_PAGETABLES (\<lambda>j. sos_page_free as (PT_ID_TO_VPAGE i j)) s;
       caps' \<leftarrow> pt_caps a i s1;
       (_, s2) \<leftarrow> frame_free caps' s1;
       regs' \<leftarrow> pt_regs a i s2;
       (_, s3) \<leftarrow> frame_free regs' s2;
       Some s3 } }"

fun as_destroy_sel4_pts :: "(u32 \<times> u32) list \<Rightarrow> 'k sos \<Rightarrow> 'k sos option" where
  "as_destroy_sel4_pts [] s = Some s"
| "as_destroy_sel4_pts ((pt, pt_addr) # rest) s = do {
     let (_, s1) = kernel (PageTable_Unmap pt) s;
     s2 \<leftarrow> env_ut_free pt_addr seL4_PageTableBits s1;
     (_, s3) \<leftarrow> cspace_delete_cap (cur_cspace s2) pt s2;
     as_destroy_sel4_pts rest s3 }"

definition as_destroy :: "nat option \<Rightarrow> 'k sos \<Rightarrow> 'k sos option" where
  "as_destroy as s = (case as of None \<Rightarrow> Some s
     | Some q \<Rightarrow> do {
         a \<leftarrow> get_as as s;
         c_assert (pt_ready a);
         s1 \<leftarrow> for_up 0 N_PAGETABLES (as_destroy_table as) s;
         (_, s2) \<leftarrow> frame_free (as_pd_regs a) s1;
         (_, s3) \<leftarrow> frame_free (as_pd_caps a) s2;
         a' \<leftarrow> get_as as s3;
         s4 \<leftarrow> as_destroy_sel4_pts (as_pt_head a') s3;
         Some (s4\<lparr>addrspaces := (addrspaces s4)(q := None)\<rparr>) })"

subsection \<open>Copying between a process and the kernel\<close>

record copy_cont =
  cp_kbuf :: u32
  cp_buf :: u32
  cp_nbyte :: u32
  cp_pos :: u32
  cp_as :: "nat option"
  cp_reg :: region

text \<open>
  One entry of \<^verbatim>\<open>_copyin_do_copy\<close> per step of \<open>n\<close>. An entry either brings the page into memory,
  and the next one finds it there, or copies at least one byte, or ends; \<open>copy_fuel\<close> is enough
  for all of them.
\<close>

definition copy_advance :: "u32 \<Rightarrow> copy_cont \<Rightarrow> copy_cont" where
  "copy_advance cpy_sz cont = cont\<lparr>cp_pos := cp_pos cont + cpy_sz, cp_buf := cp_buf cont + cpy_sz,
     cp_kbuf := cp_kbuf cont + cpy_sz\<rparr>"

definition copy_size :: "u32 \<Rightarrow> copy_cont \<Rightarrow> u32" where
  "copy_size kaddr cont = min (PAGE_SIZE - PAGE_OFFSET kaddr) (cp_nbyte cont - cp_pos cont)"

fun copyin_do_copy :: "nat \<Rightarrow> (int \<Rightarrow> 'k sos \<Rightarrow> 'k sos res) \<Rightarrow> copy_cont \<Rightarrow> int \<Rightarrow> 'k sos \<Rightarrow> 'k sos res" where
  "copyin_do_copy 0 callback cont err s = None"
| "copyin_do_copy (Suc n) callback cont err s =
     (if err \<noteq> 0 then callback err s
      else do {
        let vpage = PAGE_ALIGN (cp_buf cont);
        inuse \<leftarrow> sos_page_is_inuse (cp_as cont) vpage s;
        swapped \<leftarrow> sos_page_is_swapped (cp_as cont) vpage s;
        if \<not> inuse then do {
          pid \<leftarrow> proc_get_id s;
          andthen_val (sos_page_map pid (cp_as cont) vpage (r_rights (cp_reg cont))
              (copyin_do_copy n callback cont) False s)
            (\<lambda>err s1. if err \<noteq> 0 then callback err s1
              else do { s2 \<leftarrow> inc_proc_size_proc (cur_proc s1) s1; finish s2 }) }
        else if swapped then
          if_err (swap_in (cp_as cont) (r_rights (cp_reg cont)) vpage False (copyin_do_copy n callback cont) s) callback
        else if cp_pos cont < cp_nbyte cont then do {
          (err, ksrc) \<leftarrow> sos_get_kvaddr (cp_as cont) (cp_buf cont) s;
          if err \<noteq> 0 then callback err s
          else do {
            let cpy_sz = copy_size ksrc cont;
            copyin_do_copy n callback (copy_advance cpy_sz cont) 0 (mem_copy (cp_kbuf cont) ksrc cpy_sz s) } }
        else callback 0 s })"

fun copyout_do_copy :: "nat \<Rightarrow> (int \<Rightarrow> 'k sos \<Rightarrow> 'k sos res) \<Rightarrow> copy_cont \<Rightarrow> int \<Rightarrow> 'k sos \<Rightarrow> 'k sos res" where
  "copyout_do_copy 0 callback cont err s = None"
| "copyout_do_copy (Suc n) callback cont err s =
     (if err \<noteq> 0 then callback err s
      else do {
        let vpage = PAGE_ALIGN (cp_buf cont);
        inuse \<leftarrow> sos_page_is_inuse (cp_as cont) vpage s;
        swapped \<leftarrow> sos_page_is_swapped (cp_as cont) vpage s;
        if \<not> inuse then do {
          pid \<leftarrow> proc_get_id s;
          andthen_val (sos_page_map pid (cp_as cont) vpage (r_rights (cp_reg cont))
              (copyout_do_copy n callback cont) False s)
            (\<lambda>err s1. if err \<noteq> 0 then callback err s1
              else do { s2 \<leftarrow> inc_proc_size_proc (cur_proc s1) s1; finish s2 }) }
        else if swapped then
          if_err (swap_in (cp_as cont) (r_rights (cp_reg cont)) vpage False (copyout_do_copy n callback cont) s) callback
        else if cp_pos cont < cp_nbyte cont then do {
          (err, kdst) \<leftarrow> sos_get_kvaddr (cp_as cont) (cp_buf cont) s;
          if err \<noteq> 0 then callback err s
          else do {
            let cpy_sz = copy_size kdst cont;
            copyout_do_copy n callback (copy_advance cpy_sz cont) 0 (mem_copy kdst (cp_kbuf cont) cpy_sz s) } }
        else callback 0 s })"

definition copy_fuel :: "u32 \<Rightarrow> nat" where
  "copy_fuel nbyte = 2 * unat nbyte + 3"

text \<open>The start of both directions: the user buffer is checked and the structure filled in.\<close>

definition copy_start :: "u32 \<Rightarrow> u32 \<Rightarrow> u32 \<Rightarrow> 'k sos \<Rightarrow> ((int + copy_cont) \<times> 'k sos) option" where
  "copy_start kbuf buf nbyte s = do {
     as \<leftarrow> proc_getas s;
     (valid, _) \<leftarrow> as_is_valid_memory as buf nbyte s;
     if \<not> valid then Some (Inl EINVAL, s)
     else do {
       let (ok, s1) = malloc_ok s;
       if \<not> ok then Some (Inl ENOMEM, s1)
       else do {
         reg \<leftarrow> region_probe as buf s1;
         r \<leftarrow> reg;
         Some (Inr \<lparr>cp_kbuf = kbuf, cp_buf = buf, cp_nbyte = nbyte, cp_pos = 0, cp_as = as, cp_reg = r\<rparr>, s1) } } }"

definition copyin :: "u32 \<Rightarrow> u32 \<Rightarrow> u32 \<Rightarrow> (int \<Rightarrow> 'k sos \<Rightarrow> 'k sos res) \<Rightarrow> 'k sos \<Rightarrow> ('k sos, int) res_val" where
  "copyin kbuf buf nbyte callback s = do {
     (r, s1) \<leftarrow> copy_start kbuf buf nbyte s;
     case r of Inl err \<Rightarrow> Some (err, s1, [])
     | Inr cont \<Rightarrow> with_val 0 (copyin_do_copy (copy_fuel nbyte) callback cont 0 s1) }"

definition copyout :: "u32 \<Rightarrow> u32 \<Rightarrow> u32 \<Rightarrow> (int \<Rightarrow> 'k sos \<Rightarrow> 'k sos res) \<Rightarrow> 'k sos \<Rightarrow> ('k sos, int) res_val" where
  "copyout buf kbuf nbyte callback s = do {
     (r, s1) \<leftarrow> copy_start kbuf buf nbyte s;
     case r of Inl err \<Rightarrow> Some (err, s1, [])
     | Inr cont \<Rightarrow> with_val 0 (copyout_do_copy (copy_fuel nbyte) callback cont 0 s1) }"

end
