(* ===== verification/Env_Frame.thy ===== *)
theory Env_Frame
  imports Addrspace
begin

text \<open>
  The operations on untyped memory, capabilities and the kernel leave the rest of the state of SOS
  alone. These facts carry the proofs about every function that calls them.
\<close>

subsection \<open>The environment and the state of SOS\<close>

text \<open>
  The operations on untyped memory, capabilities and the kernel leave everything else alone:
  \<^term>\<open>env.more\<close> is the part of the state that is not the environment.
\<close>

lemma ask_more [simp]: "env.more (snd (ask e)) = env.more e"
  by (simp add: ask_def)

lemma kernel_more [simp]: "env.more (snd (kernel k e)) = env.more e"
  by (simp add: kernel_def)

lemma ask_more': "ask e = (r, e') \<Longrightarrow> env.more e' = env.more e"
  by (auto simp: ask_def)

lemma kernel_more': "kernel k e = (r, e') \<Longrightarrow> env.more e' = env.more e"
  by (auto simp: kernel_def ask_def)

lemma kernel_ok_more: "kernel_ok k e = Some e' \<Longrightarrow> env.more e' = env.more e"
  by (auto simp: kernel_ok_def kernel_def ask_def split: if_splits)

lemma malloc_ok_more: "malloc_ok e = (r, e') \<Longrightarrow> env.more e' = env.more e"
  by (auto simp: malloc_ok_def ask_def Let_def)

lemma malloc_more: "malloc e = (r, e') \<Longrightarrow> env.more e' = env.more e"
  by (auto simp: malloc_def ask_def Let_def split: if_splits)

lemma put_cspace_more [simp]: "env.more (put_cspace p c e) = env.more e"
  by (simp add: put_cspace_def split: option.split)

lemma env_ut_alloc_more: "env_ut_alloc sb e = Some (a, e') \<Longrightarrow> env.more e' = env.more e"
  by (auto simp: env_ut_alloc_def split: bind_splits)

lemma env_ut_free_more: "env_ut_free a sb e = Some e' \<Longrightarrow> env.more e' = env.more e"
  by (auto simp: env_ut_free_def split: bind_splits)

lemma cspace_alloc_level1_index_more: "cspace_alloc_level1_index p e = Some (i, e') \<Longrightarrow> env.more e' = env.more e"
  by (auto simp: cspace_alloc_level1_index_def Let_def split: bind_splits if_splits)

lemma cspace_free_level1_index_more: "cspace_free_level1_index p i e = Some (r, e') \<Longrightarrow> env.more e' = env.more e"
  by (auto simp: cspace_free_level1_index_def Let_def split: bind_splits if_splits)

lemma cspace_alloc_level2_slot_more: "cspace_alloc_level2_slot p e = Some (i, e') \<Longrightarrow> env.more e' = env.more e"
  unfolding cspace_alloc_level2_slot_def
  by (auto simp: Let_def dest!: cspace_alloc_level1_index_more env_ut_alloc_more env_ut_free_more kernel_ok_more malloc_ok_more malloc_more kernel_more' ask_more'
      split: bind_splits if_splits option.splits prod.splits)

lemma cspace_free_level2_slot_more: "cspace_free_level2_slot p i e = Some (r, e') \<Longrightarrow> env.more e' = env.more e"
  by (auto simp: cspace_free_level2_slot_def Let_def split: bind_splits if_splits)

lemma cspace_alloc_slot_more: "cspace_alloc_slot p e = Some (i, e') \<Longrightarrow> env.more e' = env.more e"
  by (auto simp: cspace_alloc_slot_def Let_def dest!: cspace_alloc_level1_index_more cspace_alloc_level2_slot_more split: bind_splits if_splits)

lemma cspace_free_slot_more: "cspace_free_slot p i e = Some (r, e') \<Longrightarrow> env.more e' = env.more e"
  by (auto simp: cspace_free_slot_def Let_def dest!: cspace_free_level1_index_more cspace_free_level2_slot_more split: bind_splits if_splits)

lemma cspace_ut_retype_addr_more:
  "cspace_ut_retype_addr a ty sb p e = Some (r, c, e') \<Longrightarrow> env.more e' = env.more e"
  by (auto simp: cspace_ut_retype_addr_def Let_def dest!: cspace_alloc_slot_more kernel_more' split: bind_splits if_splits option.splits prod.splits)

lemma cspace_copy_cap_more: "cspace_copy_cap d p c r e = Some (x, e') \<Longrightarrow> env.more e' = env.more e"
  by (auto simp: cspace_copy_cap_def Let_def dest!: cspace_alloc_slot_more kernel_ok_more split: bind_splits if_splits)

lemma cspace_delete_cap_more: "cspace_delete_cap p c e = Some (x, e') \<Longrightarrow> env.more e' = env.more e"
  by (auto simp: cspace_delete_cap_def dest!: cspace_free_slot_more kernel_ok_more split: bind_splits)

lemma kmap_page_table_more: "kmap_page_table pd v e = Some (r, e') \<Longrightarrow> env.more e' = env.more e"
  by (auto simp: kmap_page_table_def dest!: env_ut_alloc_more cspace_ut_retype_addr_more kernel_more' split: bind_splits if_splits)

lemma map_page_more: "map_page c pd v r e = Some (x, e') \<Longrightarrow> env.more e' = env.more e"
  by (auto simp: map_page_def Let_def dest!: kmap_page_table_more kernel_more' split: bind_splits if_splits prod.splits)

lemma map_to_sel4_more: "map_to_sel4 pd v s = Some (err, p, c, s') \<Longrightarrow> env.more s' = env.more s"
  by (auto simp: map_to_sel4_def dest!: env_ut_alloc_more env_ut_free_more cspace_ut_retype_addr_more cspace_delete_cap_more map_page_more
      split: bind_splits if_splits)

lemmas env_more = ask_more' kernel_more' kernel_ok_more malloc_ok_more malloc_more env_ut_alloc_more env_ut_free_more
  cspace_alloc_slot_more cspace_free_slot_more cspace_ut_retype_addr_more cspace_copy_cap_more cspace_delete_cap_more
  map_page_more map_to_sel4_more

text \<open>Hence every field of SOS is unchanged.\<close>

lemma sos_fields:
  fixes s s' :: "'k sos"
  assumes "env.more s' = env.more s"
  shows "frametable s' = frametable s" "first_free s' = first_free s" "frame_initialised s' = frame_initialised s"
    "frametable_reserved s' = frametable_reserved s" "victim s' = victim s" "addrspaces s' = addrspaces s"
    "pt_mem s' = pt_mem s" "byte_mem s' = byte_mem s" "free_slots s' = free_slots s" "swap_fh s' = swap_fh s"
    "starting_first_process s' = starting_first_process s" "proc_store s' = proc_store s" "processes s' = processes s"
    "cur_proc_ptr s' = cur_proc_ptr s" "vnodes s' = vnodes s" "vnode_table s' = vnode_table s" "con s' = con s"
    "con_reader s' = con_reader s" "openfiles s' = openfiles s" "filetables s' = filetables s"
    "first_free_pslot s' = first_free_pslot s" "next_free_pslot s' = next_free_pslot s" "next_free_pid s' = next_free_pid s"
    "wait_queue s' = wait_queue s" "serial_out s' = serial_out s" "mnt_point s' = mnt_point s"
  using assms by (cases s; cases s'; simp)+

end
