(* ===== verification/Frame_Invariant.thy ===== *)
theory Frame_Invariant
  imports Env_Frame
begin

text \<open>
  The invariant of the frame table: its free list is a chain through the table that holds exactly the
  frames that are not allocated. Taking and releasing a frame keep it, and so frames are names
  in the sense of the allocator contract.
\<close>

subsection \<open>Addresses of frames\<close>

lemma uint_frame_offset:
  assumes "0 \<le> i" "i < NFRAMES"
  shows "uint (word_of_int i * 4096 :: u32) = i * 4096"
proof -
  have "uint (word_of_int i * 4096 :: u32) = uint (word_of_int (i * 4096) :: u32)" by simp
  also have "\<dots> = i * 4096" using assms by (intro uint_of_int_small) auto
  finally show ?thesis .
qed

lemma KVADDR_TO_ID_TO_KVADDR [simp]:
  assumes "0 \<le> i" "i < NFRAMES"
  shows "KVADDR_TO_ID (ID_TO_KVADDR i) = i"
proof -
  have "uint ((word_of_int i * 4096 :: u32) div 4096) = i"
    using assms by (simp add: uint_div_distrib uint_frame_offset)
  then have "(word_of_int i * 4096 :: u32) div 4096 = word_of_int i" by (metis word_of_int_uint)
  moreover have "sint (word_of_int i :: u32) = i"
    using assms by (simp add: sint_sbintrunc' signed_take_bit_int_eq_self)
  ultimately show ?thesis by (simp add: KVADDR_TO_ID_def ID_TO_KVADDR_def)
qed

lemma ID_TO_KVADDR_inj: "0 \<le> i \<Longrightarrow> i < NFRAMES \<Longrightarrow> 0 \<le> j \<Longrightarrow> j < NFRAMES \<Longrightarrow> ID_TO_KVADDR i = ID_TO_KVADDR j \<longleftrightarrow> i = j"
  by (metis KVADDR_TO_ID_TO_KVADDR)

lemma ID_TO_KVADDR_nonzero [simp]:
  assumes "0 \<le> i" "i < NFRAMES"
  shows "ID_TO_KVADDR i \<noteq> 0"
proof
  assume "ID_TO_KVADDR i = 0"
  then have "word_of_int i * 4096 = - (FRAME_VSTART)" by (simp add: ID_TO_KVADDR_def eq_neg_iff_add_eq_0)
  then have "uint (word_of_int i * 4096 :: u32) = uint (- FRAME_VSTART)" by simp
  then show False using assms by (simp add: uint_frame_offset)
qed

subsection \<open>Invariant\<close>

lemma nth_list_update': "k < length xs \<Longrightarrow> xs[i := x] ! k = (if i = k then x else xs ! k)"
  by (simp add: nth_list_update)

definition frame_next :: "frame_entry list \<Rightarrow> int \<Rightarrow> int option" where
  "frame_next ft i = (if 0 \<le> i \<and> i < int (length ft) then Some (fte_next_free (ft ! nat i)) else None)"

definition free_frames :: "'k sos \<Rightarrow> int list \<Rightarrow> bool" where
  "free_frames s xs \<longleftrightarrow> chain (frame_next (frametable s)) FRAME_INVALID (first_free s) xs \<and> distinct xs
     \<and> set xs = {i. frametable_reserved s \<le> i \<and> i < NFRAMES \<and> fte_status (frametable s ! nat i) \<noteq> FRAME_STATUS_ALLOCATED}"

definition frame_inv :: "'k sos \<Rightarrow> bool" where
  "frame_inv s \<longleftrightarrow> frame_initialised s \<and> length (frametable s) = 32 \<and> 0 \<le> frametable_reserved s
     \<and> frametable_reserved s \<le> NFRAMES \<and> (\<exists>xs. free_frames s xs)"

definition frame_allocated :: "'k sos \<Rightarrow> int \<Rightarrow> bool" where
  "frame_allocated s i \<longleftrightarrow> frametable_reserved s \<le> i \<and> i < NFRAMES
     \<and> fte_status (frametable s ! nat i) = FRAME_STATUS_ALLOCATED"

text \<open>An update of one entry that keeps its place in the free list.\<close>

lemma frame_next_upd:
  "0 \<le> i \<Longrightarrow> i < int (length ft) \<Longrightarrow> frame_next (ft[nat i := f]) j = (if j = i then Some (fte_next_free f) else frame_next ft j)"
  by (auto simp: frame_next_def nth_list_update split: if_splits)

lemma free_frames_head:
  assumes "free_frames s xs" "first_free s \<noteq> FRAME_INVALID" "frame_inv s"
  shows "\<exists>ys. xs = first_free s # ys \<and> 0 \<le> first_free s \<and> first_free s < NFRAMES \<and> frametable_reserved s \<le> first_free s
    \<and> fte_status (frametable s ! nat (first_free s)) \<noteq> FRAME_STATUS_ALLOCATED
    \<and> chain (frame_next (frametable s)) FRAME_INVALID (fte_next_free (frametable s ! nat (first_free s))) ys"
proof -
  obtain y ys where c: "xs = first_free s # ys" "frame_next (frametable s) (first_free s) = Some y"
    "chain (frame_next (frametable s)) FRAME_INVALID y ys"
    using chain_head assms(1,2) unfolding free_frames_def by meson
  have "first_free s \<in> set xs" using c(1) by simp
  then have "frametable_reserved s \<le> first_free s" "first_free s < NFRAMES"
    "fte_status (frametable s ! nat (first_free s)) \<noteq> FRAME_STATUS_ALLOCATED"
    using assms(1) unfolding free_frames_def by blast+
  moreover have "0 \<le> first_free s" using calculation(1) assms(3) unfolding frame_inv_def by linarith
  ultimately show ?thesis using c by (auto simp: frame_next_def split: if_splits)
qed

text \<open>Taking the head off the list and marking it allocated.\<close>

lemma free_frames_take:
  assumes "free_frames s xs" "frame_inv s" "first_free s \<noteq> FRAME_INVALID"
    "frametable s' = (frametable s)[nat (first_free s) := f]" "fte_status f = FRAME_STATUS_ALLOCATED"
    "first_free s' = fte_next_free (frametable s ! nat (first_free s))" "frametable_reserved s' = frametable_reserved s"
  shows "free_frames s' (tl xs)"
proof -
  let ?i = "first_free s"
  obtain ys where h: "xs = ?i # ys" "0 \<le> ?i" "?i < NFRAMES"
    "chain (frame_next (frametable s)) FRAME_INVALID (fte_next_free (frametable s ! nat ?i)) ys"
    using free_frames_head [OF assms(1,3,2)] by blast
  have len: "length (frametable s) = 32" and r: "0 \<le> frametable_reserved s" using assms(2) by (simp_all add: frame_inv_def)
  have d: "?i \<notin> set ys" "distinct ys" using assms(1) h(1) by (simp_all add: free_frames_def)
  have "chain (frame_next (frametable s')) FRAME_INVALID (first_free s') ys"
    using h(2-4) d(1) len unfolding assms(4,6) by (subst chain_cong [of _ _ "frame_next (frametable s)"]) (auto simp: frame_next_upd)
  moreover have "set ys = {i. frametable_reserved s' \<le> i \<and> i < NFRAMES \<and> fte_status (frametable s' ! nat i) \<noteq> FRAME_STATUS_ALLOCATED}"
  proof -
    have "set ys = set xs - {?i}" using h(1) d by auto
    also have "set xs = {i. frametable_reserved s \<le> i \<and> i < NFRAMES \<and> fte_status (frametable s ! nat i) \<noteq> FRAME_STATUS_ALLOCATED}"
      using assms(1) by (simp add: free_frames_def)
    finally have xs: "set ys = {i. frametable_reserved s \<le> i \<and> i < NFRAMES \<and> fte_status (frametable s ! nat i) \<noteq> FRAME_STATUS_ALLOCATED} - {?i}" .
    show ?thesis
    proof (rule set_eqI)
      fix j
      have "fte_status (frametable s' ! nat j) = (if j = ?i then fte_status f else fte_status (frametable s ! nat j))" if "0 \<le> j"
        using that h(2,3) len unfolding assms(4) by (simp add: nth_list_update nat_eq_iff)
      then show "j \<in> set ys \<longleftrightarrow> j \<in> {j. frametable_reserved s' \<le> j \<and> j < NFRAMES \<and> fte_status (frametable s' ! nat j) \<noteq> FRAME_STATUS_ALLOCATED}"
        using h(2) assms(5) r unfolding assms(7) by (cases "j = ?i"; cases "0 \<le> j") (simp_all add: xs)
    qed
  qed
  ultimately show ?thesis using h(1) d(2) by (simp add: free_frames_def)
qed

text \<open>Putting an allocated frame back at the head.\<close>

lemma free_frames_put:
  assumes "free_frames s xs" "frame_inv s" "frame_allocated s i" "0 \<le> i"
    "frametable s' = (frametable s)[nat i := f]" "fte_status f \<noteq> FRAME_STATUS_ALLOCATED"
    "fte_next_free f = first_free s" "first_free s' = i" "frametable_reserved s' = frametable_reserved s"
  shows "free_frames s' (i # xs)"
proof -
  have len: "length (frametable s) = 32" and r: "0 \<le> frametable_reserved s" using assms(2) by (simp_all add: frame_inv_def)
  have i: "i < NFRAMES" "frametable_reserved s \<le> i" "fte_status (frametable s ! nat i) = FRAME_STATUS_ALLOCATED"
    using assms(3) by (simp_all add: frame_allocated_def)
  have xs: "set xs = {i. frametable_reserved s \<le> i \<and> i < NFRAMES \<and> fte_status (frametable s ! nat i) \<noteq> FRAME_STATUS_ALLOCATED}"
    using assms(1) by (simp add: free_frames_def)
  then have n: "i \<notin> set xs" using i(3) by simp
  have "chain (frame_next (frametable s')) FRAME_INVALID (first_free s) xs"
    using assms(1,4) n len i(1) unfolding assms(5) free_frames_def
    by (subst chain_cong [of _ _ "frame_next (frametable s)"]) (auto simp: frame_next_upd)
  moreover have "frame_next (frametable s') i = Some (first_free s)"
    using len i(1) assms(4,7) unfolding assms(5) by (simp add: frame_next_upd)
  moreover have "set (i # xs) = {j. frametable_reserved s' \<le> j \<and> j < NFRAMES \<and> fte_status (frametable s' ! nat j) \<noteq> FRAME_STATUS_ALLOCATED}"
  proof (rule set_eqI)
    fix j
    have "fte_status (frametable s' ! nat j) = (if j = i then fte_status f else fte_status (frametable s ! nat j))" if "0 \<le> j"
      using that assms(4) i(1) len unfolding assms(5) by (simp add: nth_list_update nat_eq_iff)
    then show "j \<in> set (i # xs) \<longleftrightarrow> j \<in> {j. frametable_reserved s' \<le> j \<and> j < NFRAMES \<and> fte_status (frametable s' ! nat j) \<noteq> FRAME_STATUS_ALLOCATED}"
      using i assms(4,6) r unfolding assms(9) by (cases "j = i"; cases "0 \<le> j") (simp_all add: xs)
  qed
  ultimately show ?thesis using n assms(1,4,8) by (simp add: free_frames_def)
qed

text \<open>An update of an entry that changes neither its status nor its link.\<close>

lemma free_frames_keep:
  assumes "free_frames s xs" "frametable s' = (frametable s)[nat i := f]"
    "fte_status f = fte_status (frametable s ! nat i)" "fte_next_free f = fte_next_free (frametable s ! nat i)"
    "first_free s' = first_free s" "frametable_reserved s' = frametable_reserved s"
  shows "free_frames s' xs"
proof -
  have "frame_next (frametable s') = frame_next (frametable s)"
    using assms(4) unfolding assms(2) by (auto simp: frame_next_def fun_eq_iff nth_list_update')
  moreover have "fte_status (frametable s' ! j) = fte_status (frametable s ! j)" for j
    using assms(3) unfolding assms(2) by (cases "nat i < length (frametable s)") (auto simp: nth_list_update list_update_beyond)
  ultimately show ?thesis using assms(1) unfolding free_frames_def assms(5,6) by simp
qed

subsection \<open>Taking and releasing a frame\<close>

lemma put_fte_Some:
  "put_fte i f s = Some s' \<longleftrightarrow> 0 \<le> i \<and> i < int (length (frametable s)) \<and> s' = s\<lparr>frametable := (frametable s)[nat i := f]\<rparr>"
  by (auto simp: put_fte_def wr_eq_Some split: bind_splits)

lemma put_fte_in [simp]:
  "0 \<le> i \<Longrightarrow> i < int (length (frametable s)) \<Longrightarrow> put_fte i f s = Some (s\<lparr>frametable := (frametable s)[nat i := f]\<rparr>)"
  by (simp add: put_fte_Some)

lemma fte_Some: "fte i s = Some f \<longleftrightarrow> 0 \<le> i \<and> i < int (length (frametable s)) \<and> f = frametable s ! nat i"
  by (simp add: fte_def rd_eq_Some)

lemma bzero_page_fields [simp]:
  "frametable (bzero_page a s) = frametable s" "first_free (bzero_page a s) = first_free s"
  "frametable_reserved (bzero_page a s) = frametable_reserved s" "frame_initialised (bzero_page a s) = frame_initialised s"
  by (simp_all add: bzero_page_def)

lemma bzero_page_zero: "byte_mem (bzero_page a s) x = (if x - a < 4096 then 0 else byte_mem s x)"
  "pt_mem (bzero_page a s) x = (if x - a < 4096 then 0 else pt_mem s x)"
  by (simp_all add: bzero_page_def)

definition frame_entry_for :: "frame_alloc_cont \<Rightarrow> int \<Rightarrow> frame_entry \<Rightarrow> bool" where
  "frame_entry_for c i f \<longleftrightarrow> fte_status f = FRAME_STATUS_ALLOCATED \<and> fte_kvaddr f = ID_TO_KVADDR i
     \<and> fte_vaddr f = fa_vaddr c \<and> fte_as f = fa_as c \<and> fte_pid f = fa_pid c \<and> fte_noswap f = fa_noswap c
     \<and> fte_referenced f \<and> \<not> fte_locked f"

lemma frame_inv_len: "frame_inv s \<Longrightarrow> length (frametable s) = 32"
  by (simp add: frame_inv_def)

text \<open>The frame that is looked at is never an allocated one, so the assertion holds.\<close>

lemma frame_take_first:
  assumes inv: "frame_inv s" and ff: "first_free s \<noteq> FRAME_INVALID"
  shows "fte (first_free s) s = Some (frametable s ! nat (first_free s)) \<and> 0 \<le> first_free s \<and> first_free s < NFRAMES
    \<and> frametable_reserved s \<le> first_free s
    \<and> fte_status (frametable s ! nat (first_free s)) \<noteq> FRAME_STATUS_ALLOCATED"
proof -
  obtain xs where "free_frames s xs" using inv by (auto simp: frame_inv_def)
  from free_frames_head [OF this ff inv] show ?thesis using frame_inv_len [OF inv] by (auto simp: fte_def)
qed

lemma frame_inv_upd_keep:
  assumes "frame_inv s" "frametable s' = (frametable s)[nat i := f]"
    "fte_status f = fte_status (frametable s ! nat i)" "fte_next_free f = fte_next_free (frametable s ! nat i)"
    "first_free s' = first_free s" "frametable_reserved s' = frametable_reserved s" "frame_initialised s' = frame_initialised s"
  shows "frame_inv s'"
proof -
  obtain xs where "free_frames s xs" using assms(1) by (auto simp: frame_inv_def)
  from free_frames_keep [OF this assms(2-6)] have "free_frames s' xs" .
  then show ?thesis using assms(1,2,6,7) unfolding frame_inv_def by auto
qed

lemma frame_inv_take:
  assumes "frame_inv s" "first_free s \<noteq> FRAME_INVALID" "frametable s' = (frametable s)[nat (first_free s) := f]"
    "fte_status f = FRAME_STATUS_ALLOCATED" "first_free s' = fte_next_free (frametable s ! nat (first_free s))"
    "frametable_reserved s' = frametable_reserved s" "frame_initialised s' = frame_initialised s"
  shows "frame_inv s'"
proof -
  obtain xs where "free_frames s xs" using assms(1) by (auto simp: frame_inv_def)
  from free_frames_take [OF this assms(1-6)] have "free_frames s' (tl xs)" .
  then show ?thesis using assms(1,3,6,7) unfolding frame_inv_def by auto
qed

lemma frame_inv_put:
  assumes "frame_inv s" "frame_allocated s i" "0 \<le> i" "frametable s' = (frametable s)[nat i := f]"
    "fte_status f \<noteq> FRAME_STATUS_ALLOCATED" "fte_next_free f = first_free s" "first_free s' = i"
    "frametable_reserved s' = frametable_reserved s" "frame_initialised s' = frame_initialised s"
  shows "frame_inv s'"
proof -
  obtain xs where "free_frames s xs" using assms(1) by (auto simp: frame_inv_def)
  from free_frames_put [OF this assms(1-8)] have "free_frames s' (i # xs)" .
  then show ?thesis using assms(1,4,8,9) unfolding frame_inv_def by auto
qed

text \<open>
  The outcome of \<open>frame_take\<close>: it fails and every allocated frame is as before, or the first free
  frame becomes the new one, with a cleared page, and every other entry is as before.
\<close>

definition frame_taken :: "frame_alloc_cont \<Rightarrow> 'k sos \<Rightarrow> u32 \<Rightarrow> 'k sos \<Rightarrow> bool" where
  "frame_taken c s kv s' \<longleftrightarrow>
     (let i = first_free s in
      kv = ID_TO_KVADDR i \<and> frametable_reserved s \<le> i \<and> 0 \<le> i \<and> i < NFRAMES
      \<and> fte_status (frametable s ! nat i) \<noteq> FRAME_STATUS_ALLOCATED
      \<and> (\<exists>f. frame_entry_for c i f \<and> frametable s' = (frametable s)[nat i := f])
      \<and> (\<forall>x. byte_mem s' x = (if x - kv < 4096 then 0 else byte_mem s x)))"

definition frame_not_taken :: "'k sos \<Rightarrow> 'k sos \<Rightarrow> bool" where
  "frame_not_taken s s' \<longleftrightarrow> byte_mem s' = byte_mem s \<and> first_free s' = first_free s \<and>
     (\<forall>i. frame_allocated s i \<longrightarrow> frametable s' ! nat i = frametable s ! nat i)
     \<and> (\<forall>i. frame_allocated s' i \<longleftrightarrow> frame_allocated s i)"

lemma frame_take_memory:
  assumes inv: "frame_inv s" and ff: "first_free s \<noteq> FRAME_INVALID"
    and m: "map_to_sel4 pd kv s = Some (err, p, c, s1)"
  shows "\<exists>s2. put_fte (first_free s) ((frametable s ! nat (first_free s))\<lparr>fte_paddr := p, fte_cap := cap\<rparr>) s1 = Some s2
    \<and> frame_inv s2 \<and> first_free s2 = first_free s \<and> frametable_reserved s2 = frametable_reserved s \<and> byte_mem s2 = byte_mem s
    \<and> frametable s2 = (frametable s)[nat (first_free s) := (frametable s ! nat (first_free s))\<lparr>fte_paddr := p, fte_cap := cap\<rparr>]"
proof -
  note f = sos_fields [OF map_to_sel4_more [OF m]]
  have i: "0 \<le> first_free s" "first_free s < NFRAMES" using frame_take_first [OF inv ff] by auto
  have len: "length (frametable s) = 32" using frame_inv_len [OF inv] .
  let ?f = "(frametable s ! nat (first_free s))\<lparr>fte_paddr := p, fte_cap := cap\<rparr>"
  let ?s2 = "s1\<lparr>frametable := (frametable s1)[nat (first_free s) := ?f]\<rparr>"
  have "put_fte (first_free s) ?f s1 = Some ?s2" using i len f(1) by (simp add: put_fte_Some)
  moreover have "frame_inv ?s2"
    by (rule frame_inv_upd_keep [OF inv, of _ "first_free s" ?f]) (simp_all add: f)
  ultimately show ?thesis by (auto simp: f)
qed

lemma frame_take_finish:
  assumes inv: "frame_inv s" and ff: "first_free s \<noteq> FRAME_INVALID"
    and s2: "frame_inv s2" "first_free s2 = first_free s" "frametable_reserved s2 = frametable_reserved s"
      "byte_mem s2 = byte_mem s" "frametable s2 = (frametable s)[nat (first_free s) := f2]"
    and f2: "fte_status f2 = fte_status (frametable s ! nat (first_free s))"
    and s3: "s3 = (bzero_page kv (s2\<lparr>frametable := (frametable s2)[nat (first_free s) := frame_fill c kv f2]\<rparr>))\<lparr>first_free := fte_next_free f2\<rparr>"
    and kv: "kv = ID_TO_KVADDR (first_free s)"
  shows "frame_inv s3 \<and> frametable_reserved s3 = frametable_reserved s \<and> frame_taken c s kv s3"
proof -
  note h = frame_take_first [OF inv ff]
  have "nat (first_free s) < length (frametable s)" using h frame_inv_len [OF inv] by auto
  then have n: "frametable s2 ! nat (first_free s) = f2" unfolding s2(5) by simp
  have "frame_inv s3"
    by (rule frame_inv_take [OF s2(1), of _ "frame_fill c kv f2"]) (use s2 ff n in \<open>simp_all add: frame_fill_def s3\<close>)
  moreover have "frame_taken c s kv s3"
    unfolding frame_taken_def Let_def s3 using h s2(4,5) kv
    by (auto simp: frame_entry_for_def frame_fill_def bzero_page_zero intro!: exI [of _ "frame_fill c kv f2"])
  ultimately show ?thesis using s2(3) s3 by simp
qed

text \<open>A frame that already has memory, and one that is given memory first.\<close>

lemma frame_take_typed:
  assumes inv: "frame_inv s" and ff: "first_free s \<noteq> FRAME_INVALID"
    and st: "fte_status (frametable s ! nat (first_free s)) \<noteq> FRAME_STATUS_UNTYPED"
    and t: "frame_take c s = Some (kv, s')"
  shows "frame_inv s' \<and> frametable_reserved s' = frametable_reserved s \<and> kv \<noteq> 0 \<and> frame_taken c s kv s'"
proof -
  note h = frame_take_first [OF inv ff]
  let ?f = "frametable s ! nat (first_free s)"
  have "kv = ID_TO_KVADDR (first_free s)
    \<and> s' = (bzero_page kv (s\<lparr>frametable := (frametable s)[nat (first_free s) := frame_fill c kv ?f]\<rparr>))\<lparr>first_free := fte_next_free ?f\<rparr>"
    using t ff h st frame_inv_len [OF inv] by (auto simp: frame_take_def Let_def)
  then show ?thesis using frame_take_finish [OF inv ff inv, of ?f s' kv c] h by simp
qed

lemma frame_take_untyped:
  assumes inv: "frame_inv s" and ff: "first_free s \<noteq> FRAME_INVALID"
    and st: "fte_status (frametable s ! nat (first_free s)) = FRAME_STATUS_UNTYPED"
    and t: "frame_take c s = Some (kv, s')"
  shows "frame_inv s' \<and> frametable_reserved s' = frametable_reserved s
    \<and> (if kv = 0 then frame_not_taken s s' else frame_taken c s kv s')"
proof -
  define i where "i = first_free s"
  define f where "f = frametable s ! nat i"
  note h = frame_take_first [OF inv ff, folded i_def, folded f_def]
  have ni: "nat i < length (frametable s)" using h frame_inv_len [OF inv] by auto
  have st': "fte_status f = 0" using st by (simp add: f_def i_def)
  obtain err p cap s1 where m: "map_to_sel4 seL4_CapInitThreadPD (ID_TO_KVADDR i) s = Some (err, p, cap, s1)"
    using t ff h st' by (auto simp: frame_take_def Let_def i_def [symmetric] split: bind_splits)
  define f2 where "f2 = f\<lparr>fte_paddr := p, fte_cap := (case cap of None \<Rightarrow> fte_cap f | Some c \<Rightarrow> c)\<rparr>"
  obtain s2 where s2: "put_fte i f2 s1 = Some s2" "frame_inv s2" "first_free s2 = i"
    "frametable_reserved s2 = frametable_reserved s" "byte_mem s2 = byte_mem s" "frametable s2 = (frametable s)[nat i := f2]"
    using frame_take_memory [OF inv ff m, of "case cap of None \<Rightarrow> fte_cap f | Some c \<Rightarrow> c"]
    unfolding i_def [symmetric] f_def [symmetric] f2_def by auto
  have f2: "fte_status f2 = fte_status f" by (simp add: f2_def)
  have n: "fte i s2 = Some f2" using s2(6) h ni by (simp add: fte_Some nat_less_iff)
  show ?thesis
  proof (cases "err = 0")
    case False
    have "kv = 0 \<and> s' = s2" using t ff h st' m s2(1) False
      by (simp add: frame_take_def Let_def i_def [symmetric] f2_def)
    moreover have "frame_allocated s2 j \<longleftrightarrow> frame_allocated s j"
      "frame_allocated s j \<Longrightarrow> frametable s2 ! nat j = frametable s ! nat j" for j
      using s2(4,6) f2 h ni inv unfolding frame_allocated_def frame_inv_def
      by (cases "nat j = nat i"; auto simp: nth_list_update f_def)+
    ultimately show ?thesis using s2 unfolding frame_not_taken_def i_def by simp
  next
    case err: True
    have "kv = ID_TO_KVADDR i \<and> s' = (bzero_page kv (s2\<lparr>frametable := (frametable s2)[nat i := frame_fill c kv f2]\<rparr>))\<lparr>first_free := fte_next_free f2\<rparr>"
      using t ff h st' m s2(1) err n put_fte_in [of i s2 "frame_fill c (ID_TO_KVADDR i) f2"] s2(6) ni
      by (auto simp: frame_take_def Let_def i_def [symmetric] f2_def [symmetric])
    then show ?thesis using frame_take_finish [OF inv ff s2(2) _ s2(4,5), of f2 s' kv c] s2(3,6) f2 h by (simp add: i_def f_def)
  qed
qed

lemma frame_take_spec:
  assumes inv: "frame_inv s" and t: "frame_take c s = Some (kv, s')"
  shows "frame_inv s' \<and> frametable_reserved s' = frametable_reserved s
    \<and> (if kv = 0 then frame_not_taken s s' else frame_taken c s kv s')"
proof (cases "first_free s = FRAME_INVALID")
  case True
  then show ?thesis using inv t by (simp add: frame_take_def frame_not_taken_def)
next
  case False
  then show ?thesis
    using frame_take_typed [OF inv False _ t] frame_take_untyped [OF inv False _ t] by (cases "fte_status (frametable s ! nat (first_free s)) = FRAME_STATUS_UNTYPED") auto
qed

lemma allocated_fte_ok:
  "frame_inv s \<Longrightarrow> frame_allocated s i \<Longrightarrow> allocated_fte (ID_TO_KVADDR i) s = Some (Inr (frametable s ! nat i)) \<and> 0 \<le> i \<and> i < NFRAMES"
  unfolding frame_allocated_def frame_inv_def allocated_fte_def frame_id_valid_def Let_def by (simp add: fte_def)

lemma allocated_fte_Inr:
  assumes "frame_inv s" "allocated_fte kv s = Some (Inr f)"
  shows "frame_allocated s (KVADDR_TO_ID kv) \<and> f = frametable s ! nat (KVADDR_TO_ID kv) \<and> 0 \<le> KVADDR_TO_ID kv"
  using assms unfolding frame_allocated_def frame_inv_def allocated_fte_def frame_id_valid_def Let_def
  by (auto simp: fte_def split: if_splits bind_splits)

lemma frame_allocated_upd:
  assumes "length (frametable s) = 32" "0 \<le> i" "i < NFRAMES" "frametable s' = (frametable s)[nat i := f]"
    "frametable_reserved s' = frametable_reserved s" "0 \<le> frametable_reserved s"
  shows "frame_allocated s' j \<longleftrightarrow> (if j = i then frametable_reserved s \<le> i \<and> fte_status f = FRAME_STATUS_ALLOCATED else frame_allocated s j)"
  using assms unfolding frame_allocated_def by (cases "0 \<le> j") (auto simp: nth_list_update nat_eq_iff)

lemma frame_free_spec:
  assumes inv: "frame_inv s" and r: "frame_free kv s = Some (err, s')"
  shows "frame_inv s' \<and> frametable_reserved s' = frametable_reserved s \<and> byte_mem s' = byte_mem s \<and> pt_mem s' = pt_mem s
    \<and> (if err = 0 then frame_allocated s (KVADDR_TO_ID kv) \<and> \<not> fte_locked (frametable s ! nat (KVADDR_TO_ID kv))
         \<and> (\<forall>j. frame_allocated s' j \<longleftrightarrow> frame_allocated s j \<and> j \<noteq> KVADDR_TO_ID kv)
         \<and> (\<forall>j. frame_allocated s' j \<longrightarrow> frametable s' ! nat j = frametable s ! nat j)
       else s' = s)"
proof -
  define i where "i = KVADDR_TO_ID kv"
  have init: "frame_initialised s" and len: "length (frametable s) = 32" and res: "0 \<le> frametable_reserved s"
    using inv by (simp_all add: frame_inv_def)
  obtain x where x: "allocated_fte kv s = Some x" using r init by (auto simp: frame_free_def split: bind_splits)
  show ?thesis
  proof (cases x)
    case (Inl e)
    then have "e \<noteq> 0" using x by (auto simp: allocated_fte_def Let_def split: if_splits bind_splits)
    then show ?thesis using r init x Inl inv by (auto simp: frame_free_def)
  next
    case (Inr f)
    with x allocated_fte_Inr [OF inv] have a: "frame_allocated s i" "f = frametable s ! nat i" "0 \<le> i" by (auto simp: i_def)
    have i: "i < NFRAMES" "frametable_reserved s \<le> i" using a(1) by (simp_all add: frame_allocated_def)
    show ?thesis
    proof (cases "fte_locked f")
      case True
      then show ?thesis using r init x Inr inv by (auto simp: frame_free_def)
    next
      case False
      let ?f = "f\<lparr>fte_status := FRAME_STATUS_FREE, fte_locked := False, fte_next_free := first_free s\<rparr>"
      have s': "err = 0" "s' = s\<lparr>frametable := (frametable s)[nat i := ?f], first_free := i\<rparr>"
        using r init x Inr False a(3) i(1) len by (auto simp: frame_free_def i_def [symmetric])
      have "frame_inv s'" by (rule frame_inv_put [OF inv a(1,3), of _ ?f]) (simp_all add: s')
      moreover have al: "frame_allocated s' j \<longleftrightarrow> frame_allocated s j \<and> j \<noteq> i" for j
        using frame_allocated_upd [OF len a(3) i(1), of s' ?f j] res i(2) a(1) s'(2) by simp
      moreover have "frametable s' ! nat j = frametable s ! nat j" if "frame_allocated s' j" for j
      proof -
        have "j \<noteq> i" "0 \<le> j" using that al [of j] res by (auto simp: frame_allocated_def)
        then show ?thesis using a(3) s'(2) by (simp add: nat_eq_iff)
      qed
      ultimately show ?thesis using s' a False by (simp add: i_def)
    qed
  qed
qed

lemma frame_free_succeeds:
  assumes "frame_inv s" "frame_allocated s i" "\<not> fte_locked (frametable s ! nat i)"
  shows "\<exists>s'. frame_free (ID_TO_KVADDR i) s = Some (0, s')"
proof -
  have "allocated_fte (ID_TO_KVADDR i) s = Some (Inr (frametable s ! nat i))" "0 \<le> i" "i < NFRAMES"
    using allocated_fte_ok [OF assms(1,2)] by auto
  then show ?thesis using assms(1,3) by (simp add: frame_free_def frame_inv_def)
qed

subsection \<open>Frames as names\<close>

definition frame_release :: "u32 \<Rightarrow> 'k sos \<Rightarrow> 'k sos option" where
  "frame_release kv s = do { (err, s') \<leftarrow> frame_free kv s; if err = 0 then Some s' else None }"

definition frame_ok :: "'k sos \<Rightarrow> u32 set \<Rightarrow> bool" where
  "frame_ok s H \<longleftrightarrow> frame_inv s \<and> (\<forall>n \<in> H. \<exists>i. n = ID_TO_KVADDR i \<and> frame_allocated s i \<and> \<not> fte_locked (frametable s ! nat i))"

lemma frame_taken_ok:
  assumes ok: "frame_ok s H" and t: "frame_take c s = Some (kv, s')" and nz: "kv \<noteq> 0"
  shows "kv \<notin> H \<and> frame_ok s' (insert kv H)"
proof -
  have inv: "frame_inv s" using ok by (simp add: frame_ok_def)
  define i where "i = first_free s"
  note sp = frame_take_spec [OF inv t]
  obtain f where f: "frame_inv s'" "frametable_reserved s' = frametable_reserved s" "kv = ID_TO_KVADDR i"
    "frametable_reserved s \<le> i" "0 \<le> i" "i < NFRAMES" "fte_status (frametable s ! nat i) \<noteq> FRAME_STATUS_ALLOCATED"
    "frame_entry_for c i f" "frametable s' = (frametable s)[nat i := f]"
    using sp nz unfolding frame_taken_def Let_def i_def by auto
  have len: "length (frametable s) = 32" "0 \<le> frametable_reserved s" using inv by (simp_all add: frame_inv_def)
  have na: "\<not> frame_allocated s i" using f(7) by (simp add: frame_allocated_def)
  have "kv \<notin> H"
  proof
    assume "kv \<in> H"
    then obtain j where j: "kv = ID_TO_KVADDR j" "frame_allocated s j" using ok by (auto simp: frame_ok_def)
    have "j = i" using allocated_fte_ok [OF inv j(2)] j(1) f(3,5,6) KVADDR_TO_ID_TO_KVADDR by metis
    then show False using j(2) na by simp
  qed
  moreover have "\<exists>j. n = ID_TO_KVADDR j \<and> frame_allocated s' j \<and> \<not> fte_locked (frametable s' ! nat j)" if n: "n \<in> insert kv H" for n
  proof (cases "n = kv")
    case True
    have "frame_allocated s' i" "\<not> fte_locked (frametable s' ! nat i)"
      using frame_allocated_upd [OF len(1) f(5,6,9,2) len(2), of i] f(4-6,8,9) len(1) by (auto simp: frame_entry_for_def)
    then show ?thesis using True f(3) by blast
  next
    case False
    then obtain j where j: "n = ID_TO_KVADDR j" "frame_allocated s j" "\<not> fte_locked (frametable s ! nat j)"
      using ok n by (auto simp: frame_ok_def)
    have "j \<noteq> i" "0 \<le> j" using j(2) na len(2) by (auto simp: frame_allocated_def)
    then show ?thesis using j frame_allocated_upd [OF len(1) f(5,6,9,2) len(2), of j] f(5,9)
      by (intro exI [of _ j]) (simp add: nat_eq_iff)
  qed
  ultimately show ?thesis using f(1) by (simp add: frame_ok_def)
qed

lemma frame_not_taken_ok:
  assumes "frame_ok s H" "frame_take c s = Some (0, s')"
  shows "frame_ok s' H"
proof -
  have inv: "frame_inv s" using assms(1) by (simp add: frame_ok_def)
  from frame_take_spec [OF inv assms(2)] have "frame_inv s'" "frame_not_taken s s'" by auto
  then show ?thesis using assms(1) unfolding frame_ok_def frame_not_taken_def by metis
qed

lemma frame_release_ok:
  assumes ok: "frame_ok s H" and n: "n \<in> H"
  shows "\<exists>s'. frame_release n s = Some s' \<and> frame_ok s' (H - {n})"
proof -
  have inv: "frame_inv s" using ok by (simp add: frame_ok_def)
  obtain i where i: "n = ID_TO_KVADDR i" "frame_allocated s i" "\<not> fte_locked (frametable s ! nat i)"
    using ok n by (auto simp: frame_ok_def)
  have r: "0 \<le> i" "i < NFRAMES" using allocated_fte_ok [OF inv i(2)] by auto
  obtain s' where s': "frame_free n s = Some (0, s')" using frame_free_succeeds [OF inv i(2,3)] i(1) by blast
  have sp: "frame_inv s'" "\<And>j. frame_allocated s' j \<longleftrightarrow> frame_allocated s j \<and> j \<noteq> i"
    "\<And>j. frame_allocated s' j \<Longrightarrow> frametable s' ! nat j = frametable s ! nat j"
    using frame_free_spec [OF inv s'] i(1) r by auto
  have "\<exists>j. m = ID_TO_KVADDR j \<and> frame_allocated s' j \<and> \<not> fte_locked (frametable s' ! nat j)" if "m \<in> H - {n}" for m
  proof -
    obtain j where j: "m = ID_TO_KVADDR j" "frame_allocated s j" "\<not> fte_locked (frametable s ! nat j)"
      using ok \<open>m \<in> H - {n}\<close> by (auto simp: frame_ok_def)
    then show ?thesis using sp(2,3) [of j] that i(1) by auto
  qed
  then show ?thesis using s' sp(1) by (auto simp: frame_release_def frame_ok_def)
qed

interpretation frames: name_allocator "frame_take c" frame_release 0 frame_ok for c :: frame_alloc_cont
  by unfold_locales (use frame_taken_ok frame_not_taken_ok frame_release_ok in blast)+

subsection \<open>Initialisation\<close>

lemma frame_reserve_rest:
  assumes "1 \<le> i"
  shows "frame_reserve i (err, s) = Some (err, s)"
  using assms by (simp add: frame_reserve_def)

lemma frame_reserve_loop: "for_up 0 NFRAMES frame_reserve (0, s) = frame_reserve 0 (0, s)"
proof -
  have "for_up k NFRAMES frame_reserve x = Some x" if "1 \<le> k" for k and x :: "int \<times> 'a sos"
    using that
  proof (induction "nat (NFRAMES - k)" arbitrary: k)
    case 0
    then show ?case by simp
  next
    case (Suc m)
    then have "for_up (k + 1) NFRAMES frame_reserve x = Some x" by simp
    then show ?case using Suc by (cases x) (simp add: for_up_step frame_reserve_rest)
  qed
  then show ?thesis by (subst for_up_step) (simp, cases "frame_reserve 0 (0, s)", simp_all)
qed

lemma frame_link_loop:
  assumes len: "length (frametable s) = 32"
  shows "\<exists>t. for_up 1 NFRAMES (\<lambda>i s. do {
           f \<leftarrow> fte i s;
           put_fte i (f\<lparr>fte_status := FRAME_STATUS_UNTYPED,
             fte_next_free := (if i = NFRAMES - 1 then FRAME_INVALID else i + 1)\<rparr>) s }) s = Some (s\<lparr>frametable := t\<rparr>)
    \<and> length t = 32
    \<and> (\<forall>k. 1 \<le> k \<and> k < NFRAMES \<longrightarrow> fte_status (t ! nat k) = FRAME_STATUS_UNTYPED
         \<and> fte_next_free (t ! nat k) = (if k = NFRAMES - 1 then FRAME_INVALID else k + 1))"
proof -
  let ?P = "\<lambda>i u. \<exists>t. u = s\<lparr>frametable := t\<rparr> \<and> length t = 32
    \<and> (\<forall>k. 1 \<le> k \<and> k < i \<longrightarrow> fte_status (t ! nat k) = FRAME_STATUS_UNTYPED
         \<and> fte_next_free (t ! nat k) = (if k = NFRAMES - 1 then FRAME_INVALID else k + 1))"
  have "\<exists>s'. for_up 1 NFRAMES (\<lambda>i s. do {
           f \<leftarrow> fte i s;
           put_fte i (f\<lparr>fte_status := FRAME_STATUS_UNTYPED,
             fte_next_free := (if i = NFRAMES - 1 then FRAME_INVALID else i + 1)\<rparr>) s }) s = Some s' \<and> ?P NFRAMES s'"
  proof (rule for_up_total [where P = ?P])
    show "?P 1 s" using len by (intro exI [of _ "frametable s"]) simp
    fix j u
    assume j: "1 \<le> j" "j < NFRAMES" and "?P j u"
    then obtain t where t: "u = s\<lparr>frametable := t\<rparr>" "length t = 32"
      "\<And>k. 1 \<le> k \<and> k < j \<Longrightarrow> fte_status (t ! nat k) = FRAME_STATUS_UNTYPED
         \<and> fte_next_free (t ! nat k) = (if k = NFRAMES - 1 then FRAME_INVALID else k + 1)" by blast
    let ?f = "(t ! nat j)\<lparr>fte_status := FRAME_STATUS_UNTYPED, fte_next_free := (if j = NFRAMES - 1 then FRAME_INVALID else j + 1)\<rparr>"
    let ?u = "s\<lparr>frametable := t[nat j := ?f]\<rparr>"
    have "do { f \<leftarrow> fte j u; put_fte j (f\<lparr>fte_status := FRAME_STATUS_UNTYPED,
             fte_next_free := (if j = NFRAMES - 1 then FRAME_INVALID else j + 1)\<rparr>) u } = Some ?u"
      using t(1,2) j by (simp add: fte_def)
    moreover have "fte_status (t[nat j := ?f] ! nat k) = FRAME_STATUS_UNTYPED
         \<and> fte_next_free (t[nat j := ?f] ! nat k) = (if k = NFRAMES - 1 then FRAME_INVALID else k + 1)" if "1 \<le> k \<and> k < j + 1" for k
      using t(2) t(3) [of k] that j by (cases "k = j") (simp_all add: nat_eq_iff)
    ultimately show "\<exists>t'. do { f \<leftarrow> fte j u; put_fte j (f\<lparr>fte_status := FRAME_STATUS_UNTYPED,
             fte_next_free := (if j = NFRAMES - 1 then FRAME_INVALID else j + 1)\<rparr>) u } = Some t' \<and> ?P (j + 1) t'"
      using t(2) by (intro exI [of _ ?u] conjI exI [of _ "t[nat j := ?f]"]) simp_all
  qed simp
  then show ?thesis by blast
qed

lemma free_frames_linked:
  assumes "length (frametable s) = 32" "first_free s = 1" "frametable_reserved s = 1"
    "\<And>k. 1 \<le> k \<Longrightarrow> k < NFRAMES \<Longrightarrow> fte_status (frametable s ! nat k) \<noteq> FRAME_STATUS_ALLOCATED
         \<and> fte_next_free (frametable s ! nat k) = (if k = NFRAMES - 1 then FRAME_INVALID else k + 1)"
  shows "free_frames s [1..31]"
proof -
  define f where "f = (\<lambda>n::nat. if n = 32 then - 1 else int n)"
  have "chain (frame_next (frametable s)) FRAME_INVALID (f 1) (map f [1..<32])"
  proof (rule chain_map_upt)
    fix k :: nat
    assume k: "1 \<le> k" "k < 32"
    have "f (Suc k) = (if int k = NFRAMES - 1 then FRAME_INVALID else int k + 1)" by (simp add: f_def)
    then show "f k \<noteq> FRAME_INVALID \<and> frame_next (frametable s) (f k) = Some (f (Suc k))"
      using k assms(1) assms(4) [of "int k"] by (simp add: frame_next_def f_def)
  qed (simp_all add: f_def)
  moreover have "map f [1..<32] = [1..31]" by (simp add: f_def upt_conv_Cons upto_rec_numeral upto.simps numeral_eq_Suc)
  ultimately have "chain (frame_next (frametable s)) FRAME_INVALID 1 [1..31]" by (simp add: f_def)
  moreover have "set [1..31] = {i. frametable_reserved s \<le> i \<and> i < NFRAMES \<and> fte_status (frametable s ! nat i) \<noteq> FRAME_STATUS_ALLOCATED}"
    using assms(3,4) by auto
  ultimately show ?thesis using assms(2) by (simp add: free_frames_def)
qed

lemma frame_init_ok:
  assumes r: "frame_init s = Some (0, s')" and len: "length (frametable s) = 32"
  shows "frame_inv s' \<and> frametable_reserved s' = 1 \<and> (\<forall>i. \<not> frame_allocated s' i)"
proof -
  obtain s1 where s1: "frame_reserve 0 (0, s) = Some (0, s1)"
    using r by (auto simp: frame_init_def frame_reserve_loop split: bind_splits if_splits)
  then have len1: "length (frametable s1) = 32"
    using len by (auto simp: frame_reserve_def Let_def put_fte_Some dest!: map_to_sel4_more sos_fields(1) split: bind_splits if_splits)
  let ?s2 = "s1\<lparr>frametable_reserved := 1, first_free := 1\<rparr>"
  obtain t where t: "s' = (?s2\<lparr>frametable := t\<rparr>)\<lparr>frame_initialised := True\<rparr>" "length t = 32"
    "\<And>k. 1 \<le> k \<Longrightarrow> k < NFRAMES \<Longrightarrow> fte_status (t ! nat k) = FRAME_STATUS_UNTYPED
         \<and> fte_next_free (t ! nat k) = (if k = NFRAMES - 1 then FRAME_INVALID else k + 1)"
    using r s1 frame_link_loop [of ?s2] len1 by (auto simp: frame_init_def frame_reserve_loop)
  have "free_frames s' [1..31]"
    by (rule free_frames_linked) (use t in auto)
  then show ?thesis using t by (auto simp: frame_inv_def frame_allocated_def)
qed

lemma frame_init_returns:
  assumes "frame_reserve 0 (0, s) = Some (0, s1)" "length (frametable s1) = 32"
  shows "\<exists>s'. frame_init s = Some (0, s')"
  using frame_link_loop [of "s1\<lparr>frametable_reserved := 1, first_free := 1\<rparr>"] assms
  by (auto simp: frame_init_def frame_reserve_loop)

end
