(* ===== verification/Frames.thy ===== *)
theory Frames
  imports Frame_Invariant
begin

text \<open>
  Properties of the frame table: frames are never handed out twice, a new frame is cleared and
  belongs to the request, and the clock algorithm finds a frame to evict.
\<close>

subsection \<open>A running system for the examples\<close>

definition frame_demo :: "int \<Rightarrow> frame_entry" where
  "frame_demo i = \<lparr>fte_status = (if i = 0 then FRAME_STATUS_ALLOCATED else FRAME_STATUS_FREE), fte_cap = 100 + word_of_int i,
     fte_paddr = 0, fte_kvaddr = ID_TO_KVADDR i, fte_vaddr = 0, fte_as = None, fte_pid = PROC_NULL,
     fte_next_free = (if i = 0 \<or> i = 31 then FRAME_INVALID else i + 1), fte_locked = False, fte_noswap = (i = 0),
     fte_referenced = True\<rparr>"

definition sos_demo :: "unit sos" where
  "sos_demo = env.extend env_demo (sos.fields (map frame_demo [0..31]) 1 True 1 0 (\<lambda>_. None) (\<lambda>_. 0) (\<lambda>_. 7)
     (replicate 1024 0) (Some 5) False (\<lambda>_. None) (replicate 64 None) None 0
     (map (\<lambda>i. if i = 63 then - 1 else i + 1) [0..63]) (map (\<lambda>i. 2097152 * i) [0..63]) []
     (\<lambda>_. None) [] 9 (\<lambda>_. None) (\<lambda>_. None)
     \<lparr>con_buf = 0x80000, con_buf_size = 0, con_start = 0, con_end = 0, con_serial = False\<rparr>
     \<lparr>opened_for_reading = False, is_blocked = False, cr_buf = 0, cr_nbytes = 0, cr_offset = 0, cr_pid = PROC_NULL,
       cr_callback = None, cr_file = None\<rparr>
     []
     \<lparr>jiffy = 0, ntimers = 0, timers = [], clk_initialised = False, irq_handler1 = 0, irq_handler2 = 0,
       epit1 = \<lparr>cr = 0, sr = 0, lr = 0, cmpr = 0, cnr = 0\<rparr>, epit2 = \<lparr>cr = 0, sr = 0, lr = 0, cmpr = 0, cnr = 0\<rparr>\<rparr>
     DEVICE_START)"

lemmas demo_simps = sos_demo_def env.defs sos.defs

lemma sos_demo_fields [simp]:
  "frametable sos_demo = map frame_demo [0..31]" "first_free sos_demo = 1" "frame_initialised sos_demo"
  "frametable_reserved sos_demo = 1" "victim sos_demo = 0" "byte_mem sos_demo = (\<lambda>_. 7)" "pt_mem sos_demo = (\<lambda>_. 0)"
  "free_slots sos_demo = replicate 1024 0" "processes sos_demo = replicate 64 None" "first_free_pslot sos_demo = 0"
  "next_free_pslot sos_demo = map (\<lambda>i. if i = 63 then - 1 else i + 1) [0..63]"
  "next_free_pid sos_demo = map (\<lambda>i. 2097152 * i) [0..63]" "vnode_table sos_demo = []" "cur_proc_ptr sos_demo = None"
  "proc_store sos_demo = (\<lambda>_. None)" "addrspaces sos_demo = (\<lambda>_. None)" "vnodes sos_demo = (\<lambda>_. None)"
  "swap_fh sos_demo = Some 5" "\<not> starting_first_process sos_demo" "openfiles sos_demo = (\<lambda>_. None)" "filetables sos_demo = (\<lambda>_. None)"
  by (simp_all add: demo_simps)

lemma nth_frame_demo: "0 \<le> k \<Longrightarrow> k < NFRAMES \<Longrightarrow> map frame_demo [0..31] ! nat k = frame_demo k"
  by simp

lemma sos_demo_inv: "frame_inv sos_demo"
proof -
  have "free_frames sos_demo [1..31]"
    by (rule free_frames_linked) (simp_all add: nth_frame_demo frame_demo_def del: nth_map)
  then show ?thesis by (auto simp: frame_inv_def)
qed

subsection \<open>Properties\<close>

text \<open>Any sequence of allocations, for whatever purpose, and releases of frames.\<close>

inductive frame_run :: "'k sos \<Rightarrow> 'k sos \<Rightarrow> u32 list \<Rightarrow> bool" for s0 where
  frun_start: "frame_run s0 s0 []"
| frun_take: "frame_run s0 s hs \<Longrightarrow> frame_take c s = Some (kv, s') \<Longrightarrow> kv \<noteq> 0 \<Longrightarrow> frame_run s0 s' (kv # hs)"
| frun_fail: "frame_run s0 s hs \<Longrightarrow> frame_take c s = Some (0, s') \<Longrightarrow> frame_run s0 s' hs"
| frun_free: "frame_run s0 s hs \<Longrightarrow> kv \<in> set hs \<Longrightarrow> frame_release kv s = Some s' \<Longrightarrow> frame_run s0 s' (remove1 kv hs)"

lemma frame_run_ok:
  assumes "frame_run s0 s hs" "frame_inv s0"
  shows "distinct hs \<and> frame_ok s (set hs)"
  using assms
proof (induction rule: frame_run.induct)
  case frun_start
  then show ?case by (simp add: frame_ok_def)
next
  case (frun_take s hs c kv s')
  then show ?case using frames.alloc_fresh [of s "set hs" c kv s'] by auto
next
  case (frun_fail s hs c s')
  then show ?case using frames.alloc_nil by blast
next
  case (frun_free s hs kv s')
  then obtain s'' where "frame_release kv s = Some s''" "frame_ok s'' (set hs - {kv})"
    using frames.free_held [of s "set hs" kv] by auto
  then show ?case using frun_free by simp
qed

text \<open>
  C20. After any sequence of allocations and releases the frames that are held are pairwise
  different, none of them is the frame table itself, each is marked allocated and is released
  without an error.
\<close>

theorem frames_never_shared:
  assumes "frame_run s0 s hs" "frame_inv s0"
  shows "distinct hs \<and> frame_inv s
    \<and> (\<forall>kv \<in> set hs. frame_allocated s (KVADDR_TO_ID kv) \<and> (\<exists>s'. frame_free kv s = Some (0, s')))"
proof -
  have ok: "distinct hs" "frame_ok s (set hs)" using frame_run_ok [OF assms] by auto
  then have inv: "frame_inv s" by (simp add: frame_ok_def)
  have "frame_allocated s (KVADDR_TO_ID kv) \<and> (\<exists>s'. frame_free kv s = Some (0, s'))" if kv: "kv \<in> set hs" for kv
  proof -
    obtain i where i: "kv = ID_TO_KVADDR i" "frame_allocated s i" "\<not> fte_locked (frametable s ! nat i)"
      using ok(2) kv by (auto simp: frame_ok_def)
    then show ?thesis using frame_free_succeeds [OF inv i(2,3)] allocated_fte_ok [OF inv i(2)] by simp
  qed
  then show ?thesis using ok(1) inv by blast
qed

definition cont_demo :: frame_alloc_cont where
  "cont_demo = \<lparr>fa_vaddr = 0x8000, fa_as = Some 3, fa_pid = 4, fa_noswap = False\<rparr>"

lemma demo_take: "\<exists>s'. frame_take cont_demo sos_demo = Some (0x20001000, s')"
  by (simp add: frame_take_def fte_def rd_def frame_demo_def put_fte_def wr_def ID_TO_KVADDR_def)

theorem frames_never_shared_witness:
  "\<exists>s'. frame_run sos_demo s' [0x20001000] \<and> frame_allocated s' (KVADDR_TO_ID 0x20001000)"
proof -
  obtain s' where s': "frame_take cont_demo sos_demo = Some (0x20001000, s')" using demo_take by blast
  then have r: "frame_run sos_demo s' [0x20001000]" using frun_take [OF frun_start] by fastforce
  from frames_never_shared [OF r sos_demo_inv] r show ?thesis by auto
qed

text \<open>
  C21. Taking a frame: it is marked allocated for exactly the address space, page and process of
  the request, unlocked and referenced; the whole page reads as zero; no other byte of memory
  and no other entry of the frame table changes.
\<close>

theorem frame_take_correct:
  assumes "frame_inv s" "frame_take c s = Some (kv, s')" "kv \<noteq> 0"
  shows "frame_inv s' \<and> frame_entry_for c (KVADDR_TO_ID kv) (frametable s' ! nat (KVADDR_TO_ID kv))
    \<and> \<not> frame_allocated s (KVADDR_TO_ID kv)
    \<and> (\<forall>x. byte_mem s' x = (if x - kv < 4096 then 0 else byte_mem s x))
    \<and> (\<forall>j. 0 \<le> j \<longrightarrow> j \<noteq> KVADDR_TO_ID kv \<longrightarrow> frametable s' ! nat j = frametable s ! nat j)"
proof -
  have t: "frame_inv s'" "frame_taken c s kv s'" using frame_take_spec [OF assms(1,2)] assms(3) by auto
  then obtain i f where f: "kv = ID_TO_KVADDR i" "0 \<le> i" "i < NFRAMES" "fte_status (frametable s ! nat i) \<noteq> FRAME_STATUS_ALLOCATED"
    "frame_entry_for c i f" "frametable s' = (frametable s)[nat i := f]"
    "\<forall>x. byte_mem s' x = (if x - kv < 4096 then 0 else byte_mem s x)"
    by (auto simp: frame_taken_def Let_def)
  have i: "KVADDR_TO_ID kv = i" using f(1-3) by simp
  have "nat i < length (frametable s)" using f(2,3) frame_inv_len [OF assms(1)] by auto
  then show ?thesis using t(1) f(2,4-7) unfolding i by (auto simp: frame_allocated_def nat_eq_iff)
qed

theorem frame_take_correct_witness:
  "\<exists>s'. frame_take cont_demo sos_demo = Some (0x20001000, s') \<and> byte_mem s' 0x20001004 = 0 \<and> byte_mem s' 0x20002000 = 7
     \<and> fte_pid (frametable s' ! 1) = 4"
proof -
  obtain s' where s': "frame_take cont_demo sos_demo = Some (0x20001000, s')" using demo_take by blast
  have "KVADDR_TO_ID 0x20001000 = 1" by (simp add: KVADDR_TO_ID_def)
  with frame_take_correct [OF sos_demo_inv s'] s' show ?thesis by (auto simp: frame_entry_for_def cont_demo_def)
qed


lemma demo_alloc_12: "\<exists>u. ut_alloc m 12 ut_demo = Some (0x10000000, u)"
proof -
  have "map_option fst (ut_alloc (\<lambda>_. None) 12 ut_demo) = Some 0x10000000" by code_simp
  moreover have "ut_alloc m 12 ut_demo = ut_alloc (\<lambda>_. None) 12 ut_demo" by (simp add: ut_alloc_def)
  ultimately show ?thesis by auto
qed

lemma demo_map_to_sel4: "\<exists>s1. map_to_sel4 pd kv sos_demo = Some (0, 0x10000000, Some 1, s1)"
proof -
  have t: "ut_translate tab_example 0x10000000 = Some (Some (11, 0))" by code_simp
  have u: "ut sos_demo = ut_demo" "answers sos_demo = (\<lambda>n. if n = 0 then 1 else 0)" "asked sos_demo = 0" "heap_next sos_demo = 1"
    "ut_tab sos_demo = tab_example" "cur_cspace sos_demo = Some 0" "cspaces sos_demo = [0 \<mapsto> cspace_demo]"
    by (simp_all add: demo_simps env_demo_def)
  obtain u' where u': "env_ut_alloc 12 sos_demo = Some (0x10000000, sos_demo\<lparr>ut := u', asked := 3, heap_next := 4\<rparr>)"
    using demo_alloc_12 [of "\<lambda>k. if answers sos_demo (asked sos_demo + k) = 0 then None else Some (heap_next sos_demo + k)"]
    by (auto simp: env_ut_alloc_def u)
  show ?thesis
    by (simp add: map_to_sel4_def u' cspace_ut_retype_addr_def cspace_alloc_slot_def cspace_alloc_level2_slot_def u get_cspace_def
        put_cspace_def cspace_demo_def rd_def CSPACE_LEAF_OFFSET_def env_ut_translate_def t kernel_def ask_def leaf_table_nth map_page_def)
qed


subsection \<open>Second chance\<close>

definition evictable :: "frame_entry \<Rightarrow> bool" where
  "evictable f \<longleftrightarrow> \<not> fte_noswap f \<and> \<not> fte_locked f"

text \<open>The capability that the page of a frame is mapped with.\<close>

definition mapped_cap :: "'k sos \<Rightarrow> frame_entry \<Rightarrow> u32 option" where
  "mapped_cap s f = do {
     a \<leftarrow> get_as (fte_as f) s;
     let v = PAGE_ALIGN (fte_vaddr f);
     if \<not> pt_ready a then None
     else do {
       caps \<leftarrow> pt_caps a (PT_L1_INDEX v) s;
       regs \<leftarrow> pt_regs a (PT_L1_INDEX v) s;
       if caps = 0 \<or> regs = 0 then None else pt_read caps (PT_L2_INDEX v) s } }"

text \<open>
  What the clock algorithm relies on: the kernel grants the unmap and delete requests, and the
  referenced frames that may be evicted are mapped with different capabilities, each of which
  is held in the CSpace of SOS.
\<close>

definition clock_frame :: "'k sos \<Rightarrow> int \<Rightarrow> bool" where
  "clock_frame s i \<longleftrightarrow> 0 \<le> i \<and> i < NFRAMES \<and> evictable (frametable s ! nat i) \<and> fte_referenced (frametable s ! nat i)"

definition unmap_ready :: "'k sos \<Rightarrow> u32 set \<Rightarrow> bool" where
  "unmap_ready s H \<longleftrightarrow> length (frametable s) = 32 \<and> 0 \<le> victim s \<and> victim s < NFRAMES \<and> (\<forall>n \<ge> asked s. answers s n = 0)
     \<and> cs2_ok (cur_cspace s) s H
     \<and> (\<forall>i. clock_frame s i \<longrightarrow> (\<exists>c \<in> H. mapped_cap s (frametable s ! nat i) = Some c))
     \<and> (\<forall>i j. clock_frame s i \<longrightarrow> clock_frame s j \<longrightarrow> i \<noteq> j \<longrightarrow>
          mapped_cap s (frametable s ! nat i) \<noteq> mapped_cap s (frametable s ! nat j))"

lemma kernel_granted:
  assumes "\<forall>n \<ge> asked e. answers e n = 0"
  shows "kernel k e = (0, e\<lparr>klog := klog e @ [k], asked := asked e + 1\<rparr>)"
  using assms by (simp add: kernel_def ask_def)

lemma cs2_ok_nonzero: "cs2_ok p e H \<Longrightarrow> c \<in> H \<Longrightarrow> c \<noteq> 0"
  by (auto simp: cs2_ok_def)

lemma cspace_free_slot_env:
  "cspace_free_slot p s e = Some (r, e') \<Longrightarrow> answers e' = answers e \<and> asked e' = asked e \<and> cur_cspace e' = cur_cspace e"
  by (auto simp: cspace_free_slot_def cspace_free_level1_index_def cspace_free_level2_slot_def put_cspace_def Let_def
      split: bind_splits if_splits option.splits)

lemma cspace_delete_granted:
  assumes "\<forall>n \<ge> asked e. answers e n = 0" "cs2_ok p e H" "c \<in> H"
  shows "\<exists>e'. cspace_delete_cap p c e = Some (0, e') \<and> cs2_ok p e' (H - {c}) \<and> answers e' = answers e
    \<and> asked e \<le> asked e' \<and> cur_cspace e' = cur_cspace e"
proof -
  obtain d where d: "get_cspace p e = Some d" using assms(2) by (auto simp: cs2_ok_def)
  let ?e1 = "e\<lparr>klog := klog e @ [CNode_Delete (cs_root_cnode d) c CSPACE_DEPTH], asked := asked e + 1\<rparr>"
  have "cs2_ok p ?e1 H" by (rule iffD2 [OF cs2_ok_cong assms(2)]) (simp add: get_cspace_def)
  from level2_slots.free_held [OF this assms(3)] obtain e' where
    e': "map_option snd (cspace_free_slot p c ?e1) = Some e'" "cs2_ok p e' (H - {c})" by blast
  then obtain r where r: "cspace_free_slot p c ?e1 = Some (r, e')" by auto
  have k: "kernel_ok (CNode_Delete (cs_root_cnode d) c CSPACE_DEPTH) e = Some ?e1"
    using kernel_granted [OF assms(1)] by (simp add: kernel_ok_def)
  have del: "cspace_delete_cap p c e = Some (r, e')" using d k r by (simp add: cspace_delete_cap_def)
  then have "r = 0" using cs2_delete [OF _ assms(2,3)] by simp
  then show ?thesis using del e'(2) cspace_free_slot_env [OF r] by simp
qed

lemma unmap_granted:
  assumes ready: "unmap_ready s H" and f: "mapped_cap s f = Some c" "c \<in> H"
  shows "\<exists>s1. sos_page_unmap (fte_as f) (fte_vaddr f) s = Some (0, s1) \<and> env.more s1 = env.more s
    \<and> cs2_ok (cur_cspace s1) s1 (H - {c}) \<and> (\<forall>n \<ge> asked s1. answers s1 n = 0)"
proof -
  obtain a where a: "get_as (fte_as f) s = Some a" using f(1) by (auto simp: mapped_cap_def split: bind_splits)
  have g: "\<forall>n \<ge> asked s. answers s n = 0" and ok: "cs2_ok (cur_cspace s) s H" using ready by (simp_all add: unmap_ready_def)
  let ?s1 = "s\<lparr>klog := klog s @ [Page_Unmap c], asked := asked s + 1\<rparr>"
  have "cs2_ok (cur_cspace s) ?s1 H" by (rule iffD2 [OF cs2_ok_cong ok]) (simp add: get_cspace_def)
  then obtain s2 where s2: "cspace_delete_cap (cur_cspace s) c ?s1 = Some (0, s2)" "cs2_ok (cur_cspace s) s2 (H - {c})"
    "answers s2 = answers s" "asked s \<le> asked s2" "cur_cspace s2 = cur_cspace s"
    using cspace_delete_granted [of ?s1 "cur_cspace s" H c] g f(2) by auto
  have m: "env.more s2 = env.more s" using cspace_delete_cap_more [OF s2(1)] by simp
  have as: "fte_as f \<noteq> None" using a by (cases "fte_as f") (auto simp: get_as_def)
  have "sos_page_unmap (fte_as f) (fte_vaddr f) s = Some (0, s2)"
    using f(1) a as kernel_granted [OF g] s2(1) cs2_ok_nonzero [OF ok f(2)]
    by (auto simp: sos_page_unmap_def mapped_cap_def Let_def split: bind_splits if_splits)
  then show ?thesis using s2 m g by auto
qed

text \<open>One step of the hand: the entry it leaves, and what remains ready.\<close>

lemma mapped_cap_cong:
  "addrspaces s' = addrspaces s \<Longrightarrow> pt_mem s' = pt_mem s \<Longrightarrow> fte_as f' = fte_as f \<Longrightarrow> fte_vaddr f' = fte_vaddr f
   \<Longrightarrow> mapped_cap s' f' = mapped_cap s f"
  by (simp add: mapped_cap_def get_as_def pt_caps_def pt_regs_def pt_read_def Let_def cong: option.case_cong if_cong)

lemma unmap_ready_skip:
  "unmap_ready s H \<Longrightarrow> unmap_ready (s\<lparr>victim := (victim s + 1) mod NFRAMES\<rparr>) H"
  using mapped_cap_cong [of "s\<lparr>victim := (victim s + 1) mod NFRAMES\<rparr>" s]
  unfolding unmap_ready_def clock_frame_def by (simp add: iffD2 [OF cs2_ok_cong] get_cspace_def)

definition second_look :: "'k sos \<Rightarrow> 'k sos \<Rightarrow> 'k sos" where
  "second_look s s1 = s1\<lparr>frametable := (frametable s)[nat (victim s) := (frametable s ! nat (victim s))\<lparr>fte_referenced := False\<rparr>],
     victim := (victim s + 1) mod NFRAMES\<rparr>"

lemma second_chance_referenced:
  assumes ready: "unmap_ready s H" and c: "clock_frame s (victim s)"
  shows "\<exists>s1 H'. unmap_ready (second_look s s1) H' \<and> (\<forall>n. second_chance (Suc n) s = second_chance n (second_look s s1))"
proof -
  define v where "v = victim s"
  define f where "f = frametable s ! nat v"
  have v: "0 \<le> v" "v < NFRAMES" "evictable f" "fte_referenced f" using c by (simp_all add: clock_frame_def v_def f_def)
  have len: "length (frametable s) = 32" using ready by (simp add: unmap_ready_def)
  obtain cap where cap: "mapped_cap s f = Some cap" "cap \<in> H" using ready c by (auto simp: unmap_ready_def v_def f_def)
  obtain s1 where s1: "sos_page_unmap (fte_as f) (fte_vaddr f) s = Some (0, s1)" "env.more s1 = env.more s"
    "cs2_ok (cur_cspace s1) s1 (H - {cap})" "\<forall>n \<ge> asked s1. answers s1 n = 0" using unmap_granted [OF ready cap] by blast
  note m = sos_fields [OF s1(2)]
  let ?s2 = "second_look s s1"
  have ft: "frametable ?s2 ! nat j = (if j = v then f\<lparr>fte_referenced := False\<rparr> else frametable s ! nat j)" if "0 \<le> j" for j
    using that v(1,2) len by (simp add: second_look_def v_def [symmetric] f_def [symmetric] nth_list_update nat_eq_iff)
  have cf: "clock_frame ?s2 j \<longleftrightarrow> clock_frame s j \<and> j \<noteq> v" for j
    using ft [of j] by (cases "j = v") (auto simp: clock_frame_def)
  have mc: "mapped_cap ?s2 (frametable ?s2 ! nat j) = mapped_cap s (frametable s ! nat j)" if "clock_frame ?s2 j" for j
    using that ft [of j] cf [of j] by (intro mapped_cap_cong) (simp_all add: second_look_def m clock_frame_def)
  have inj: "mapped_cap s (frametable s ! nat i) \<noteq> mapped_cap s (frametable s ! nat j)"
    if "clock_frame s i" "clock_frame s j" "i \<noteq> j" for i j
    using ready that unfolding unmap_ready_def by blast
  have "unmap_ready ?s2 (H - {cap})"
    unfolding unmap_ready_def
  proof (intro conjI allI impI)
    show "cs2_ok (cur_cspace ?s2) ?s2 (H - {cap})"
      using iffD2 [OF cs2_ok_cong s1(3), of ?s2] by (simp add: second_look_def get_cspace_def)
    fix i assume i: "clock_frame ?s2 i"
    then have "mapped_cap s (frametable s ! nat i) \<noteq> Some cap" "clock_frame s i"
      using cf [of i] inj [of i v] c cap(1) by (auto simp: v_def f_def)
    then show "\<exists>c \<in> H - {cap}. mapped_cap ?s2 (frametable ?s2 ! nat i) = Some c"
      using mc [OF i] ready by (auto simp: unmap_ready_def)
    fix j assume j: "clock_frame ?s2 j" "i \<noteq> j"
    then show "mapped_cap ?s2 (frametable ?s2 ! nat i) \<noteq> mapped_cap ?s2 (frametable ?s2 ! nat j)"
      using mc [OF i] mc [OF j(1)] cf i inj by auto
  qed (use len s1(4) in \<open>simp_all add: second_look_def\<close>)
  moreover have "second_chance (Suc n) s = second_chance n ?s2" for n
    using v s1(1) len by (simp add: v_def [symmetric] f_def [symmetric] fte_def m evictable_def second_look_def)
  ultimately show ?thesis by blast
qed

text \<open>
  The distance of the hand to a frame. A frame that may be evicted stops the hand when it is
  reached unreferenced, which happens at the second time at the latest.
\<close>

definition hand_distance :: "'k sos \<Rightarrow> int \<Rightarrow> nat" where
  "hand_distance s i = nat (if victim s \<le> i then i - victim s else i + NFRAMES - victim s)"

lemma hand_distance_step:
  assumes "0 \<le> i" "i < NFRAMES" "0 \<le> victim s" "victim s < NFRAMES" "victim s' = (victim s + 1) mod NFRAMES"
  shows "if victim s = i then hand_distance s' i = 31 \<and> hand_distance s i = 0 else Suc (hand_distance s' i) = hand_distance s i"
proof -
  have "victim s' = (if victim s = 31 then 0 else victim s + 1)" using assms by auto
  then show ?thesis using assms(1-4) unfolding hand_distance_def by (auto split: if_splits)
qed

definition victim_ok :: "'k sos \<Rightarrow> u32 \<Rightarrow> bool" where
  "victim_ok s kv \<longleftrightarrow> (\<exists>j. 0 \<le> j \<and> j < NFRAMES \<and> kv = ID_TO_KVADDR j \<and> evictable (frametable s ! nat j)
     \<and> \<not> fte_referenced (frametable s ! nat j))"

lemma second_chance_reaches:
  assumes "unmap_ready s H" "0 \<le> i" "i < NFRAMES" "evictable (frametable s ! nat i)"
    "hand_distance s i + 1 + (if fte_referenced (frametable s ! nat i) then 32 else 0) \<le> n"
  shows "\<exists>kv s'. second_chance n s = Some (kv, s') \<and> victim_ok s' kv"
  using assms
proof (induction n arbitrary: s H)
  case 0
  then show ?case by simp
next
  case (Suc n)
  define f where "f = frametable s ! nat (victim s)"
  have v: "0 \<le> victim s" "victim s < NFRAMES" "length (frametable s) = 32" using Suc.prems(1) by (simp_all add: unmap_ready_def)
  have ft: "fte (victim s) s = Some f" using v by (simp add: fte_def f_def)
  show ?case
  proof (cases "evictable f")
    case False
    let ?s = "s\<lparr>victim := (victim s + 1) mod NFRAMES\<rparr>"
    have "victim s \<noteq> i" using False Suc.prems(4) by (auto simp: f_def)
    then have "hand_distance ?s i + 1 + (if fte_referenced (frametable ?s ! nat i) then 32 else 0) \<le> n"
      using hand_distance_step [OF Suc.prems(2,3) v(1,2), of ?s] Suc.prems(5) by simp
    then have "\<exists>kv s'. second_chance n ?s = Some (kv, s') \<and> victim_ok s' kv"
      using Suc.IH [OF unmap_ready_skip [OF Suc.prems(1)]] Suc.prems(2-4) by simp
    then show ?thesis using False ft by (simp add: evictable_def)
  next
    case ev: True
    show ?thesis
    proof (cases "fte_referenced f")
      case False
      then show ?thesis using ev ft v f_def unfolding victim_ok_def by (auto simp: evictable_def)
    next
      case True
      have "clock_frame s (victim s)" using ev True v by (simp add: clock_frame_def f_def)
      from second_chance_referenced [OF Suc.prems(1) this] obtain s1 H' where
        s1: "unmap_ready (second_look s s1) H'" "\<And>n. second_chance (Suc n) s = second_chance n (second_look s s1)" by blast
      let ?s = "second_look s s1"
      have e: "frametable ?s ! nat i = (if i = victim s then f\<lparr>fte_referenced := False\<rparr> else frametable s ! nat i)"
        using v Suc.prems(2,3) by (simp add: second_look_def f_def nth_list_update nat_eq_iff)
      have "hand_distance ?s i + 1 + (if fte_referenced (frametable ?s ! nat i) then 32 else 0) \<le> n"
        using hand_distance_step [OF Suc.prems(2,3) v(1,2), of ?s] Suc.prems(5) e True
        by (auto simp: second_look_def f_def split: if_splits)
      moreover have "evictable (frametable ?s ! nat i)" using e ev Suc.prems(4) by (simp add: evictable_def)
      ultimately show ?thesis using Suc.IH [OF s1(1) Suc.prems(2,3)] s1(2) by simp
    qed
  qed
qed


definition clock_demo :: "unit sos \<Rightarrow> unit sos" where
  "clock_demo s = s\<lparr>frametable := map (\<lambda>i. (frame_demo i)\<lparr>fte_noswap := (i \<noteq> 5), fte_as := Some 3, fte_vaddr := 0x8000\<rparr>) [0..31],
     addrspaces := [3 \<mapsto> \<lparr>as_pd_caps = 0x20001000, as_pd_regs = 0x20002000, as_rhead = [], as_stack = None, as_heap = None,
       as_sel4_pd = 9, as_pt_head = []\<rparr>],
     pt_mem := (\<lambda>_. 0)(0x20001000 := 0x20003000, 0x20002000 := 0x20004000, 0x20003020 := 1), asked := 1, victim := 0\<rparr>"


end
