(* ===== verification/Swap_Slots.thy ===== *)
theory Swap_Slots
  imports Frames
begin

text \<open>
  The slot map of the swap file satisfies the contract of an allocator of numbered slots.
\<close>

subsection \<open>The slots of the swap file\<close>

definition swap_used :: "u32 list \<Rightarrow> int set" where
  "swap_used fs = {i. 0 \<le> i \<and> i < 32 * int (length fs) \<and> bit (fs ! nat (i div 32)) (nat (i mod 32))}"

definition swap_alloc_slot :: "u32 list \<Rightarrow> (int \<times> u32 list) option" where
  "swap_alloc_slot fs = (let slot = swap_find_free_slot fs in
     if slot < 0 then Some (- 1, fs) else do { fs' \<leftarrow> set_slot slot fs; Some (slot, fs') })"

lemma bit_pow: "bit (2 ^ j :: u32) k \<longleftrightarrow> k = j \<and> j < 32"
  by (auto simp: bit_exp_iff)

lemma and_pow: "((w::u32) AND 2 ^ j = 0) \<longleftrightarrow> j \<ge> 32 \<or> \<not> bit w j"
proof
  assume "w AND 2 ^ j = 0"
  then have "\<not> bit (w AND 2 ^ j) j" by simp
  then show "j \<ge> 32 \<or> \<not> bit w j" by (auto simp: bit_and_iff bit_pow)
next
  assume "j \<ge> 32 \<or> \<not> bit w j"
  then show "w AND 2 ^ j = 0" by (intro bit_word_eqI) (auto simp: bit_and_iff bit_pow)
qed

lemma all_ones: "(\<forall>j < 32. bit w j) \<Longrightarrow> w = (- 1 :: u32)"
  by (rule bit_word_eqI) (simp add: bit_minus_1_iff)

lemma find_upt_None: "find P [0..<n] = None \<longleftrightarrow> (\<forall>j < n. \<not> P j)"
  by (simp add: find_None_iff)

lemma find_upt_Some: "find P [0..<n] = Some j \<Longrightarrow> j < n \<and> P j"
  by (auto simp: find_Some_iff)

lemma chunk_scan: "w \<noteq> - 1 \<Longrightarrow> chunk_free_bit w = find (\<lambda>j. 32 \<le> j \<or> \<not> bit w j) [0..<32]"
  by (simp only: chunk_free_bit_def push_bit_of_1 and_pow if_False)

lemma chunk_free_bit_None: "chunk_free_bit w = None \<longleftrightarrow> w = - 1"
proof (cases "w = - 1")
  case False
  then have "\<not> (\<forall>j < 32. bit w j)" using all_ones by blast
  then show ?thesis using False unfolding chunk_scan [OF False] find_upt_None by blast
qed (simp add: chunk_free_bit_def)

lemma chunk_free_bit_Some:
  assumes "chunk_free_bit w = Some j"
  shows "j < 32 \<and> \<not> bit w j"
proof -
  have "w \<noteq> - 1" using assms chunk_free_bit_None [of w] by auto
  then show ?thesis using assms find_upt_Some [of "\<lambda>j. 32 \<le> j \<or> \<not> bit w j" 32 j] chunk_scan by auto
qed

lemma scan_chunks_spec:
  "if scan_chunks k ws < 0 then scan_chunks k ws = - 1 \<and> (\<forall>w \<in> set ws. w = - 1)
   else (\<exists>i j. i < length ws \<and> j < 32 \<and> scan_chunks k ws = 32 * int (k + i) + int j \<and> \<not> bit (ws ! i) j)"
proof (induction ws arbitrary: k)
  case (Cons w ws)
  show ?case
  proof (cases "chunk_free_bit w")
    case None
    have s: "scan_chunks k (w # ws) = scan_chunks (Suc k) ws" using None by simp
    have w: "w = - 1" using None by (simp only: chunk_free_bit_None)
    show ?thesis
    proof (cases "scan_chunks (Suc k) ws < 0")
      case True
      then show ?thesis using Cons.IH [of "Suc k"] w unfolding s by simp
    next
      case False
      then obtain i j where "i < length ws" "j < 32" "scan_chunks (Suc k) ws = 32 * int (Suc k + i) + int j" "\<not> bit (ws ! i) j"
        using Cons.IH [of "Suc k"] by auto
      then show ?thesis using False unfolding s
        by (simp only: if_False) (intro exI [of _ "Suc i"] exI [of _ j], simp)
    qed
  next
    case (Some j)
    then have "scan_chunks k (w # ws) = 32 * int k + int j" by simp
    then show ?thesis using chunk_free_bit_Some [OF Some] by (simp del: scan_chunks.simps, intro exI [of _ 0] exI [of _ j]) auto
  qed
qed simp

lemma slot_index:
  assumes "0 \<le> i" "i < 32 * int (length fs)"
  shows "cdiv i 32 = i div 32" "0 \<le> i div 32" "i div 32 < int (length fs)" "nat (i div 32) < length fs" "nat (i mod 32) < 32"
  using assms by (auto simp: nat_less_iff)

lemma nth_slot:
  assumes "0 \<le> i" "i < 32 * int (length fs)" "0 \<le> k" "k < 32 * int (length fs)"
  shows "bit (fs[nat (i div 32) := w] ! nat (k div 32)) (nat (k mod 32)) =
    (if i div 32 = k div 32 then bit w (nat (k mod 32)) else bit (fs ! nat (k div 32)) (nat (k mod 32)))"
  using slot_index [OF assms(1,2)] slot_index [OF assms(3,4)] by (auto simp: nth_list_update nat_eq_iff)

lemma same_slot: "i div 32 = k div 32 \<Longrightarrow> nat (i mod 32) = nat (k mod 32) \<longleftrightarrow> i = (k::int)"
  by (metis Euclidean_Rings.pos_mod_sign div_mult_mod_eq eq_nat_nat_iff zero_less_numeral)

lemma swap_used_iff: "0 \<le> k \<Longrightarrow> k < 32 * int (length fs) \<Longrightarrow> k \<in> swap_used fs \<longleftrightarrow> bit (fs ! nat (k div 32)) (nat (k mod 32))"
  by (simp add: swap_used_def)

lemma swap_used_outside: "\<not> (0 \<le> k \<and> k < 32 * int (length fs)) \<Longrightarrow> k \<notin> swap_used fs"
  unfolding swap_used_def by blast

text \<open>A slot is used after the update of one chunk.\<close>

lemma swap_used_upd:
  assumes "0 \<le> i" "i < 32 * int (length fs)" "0 \<le> k" "k < 32 * int (length fs)"
  shows "k \<in> swap_used (fs[nat (i div 32) := w]) \<longleftrightarrow> (if i div 32 = k div 32 then bit w (nat (k mod 32)) else k \<in> swap_used fs)"
  using nth_slot [OF assms, of w] swap_used_iff [OF assms(3,4)] swap_used_iff [of k "fs[nat (i div 32) := w]"] assms(3,4)
  by (simp del: nat_mod_distrib)

lemma set_slot_spec:
  assumes "0 \<le> i" "i < 32 * int (length fs)"
  shows "\<exists>fs'. set_slot i fs = Some fs' \<and> length fs' = length fs \<and> swap_used fs' = insert i (swap_used fs)"
proof -
  note x = slot_index [OF assms]
  let ?w = "fs ! nat (i div 32) OR push_bit (nat (i mod 32)) 1"
  have "set_slot i fs = Some (fs[nat (i div 32) := ?w])" using x by (simp add: set_slot_def)
  moreover have "k \<in> swap_used (fs[nat (i div 32) := ?w]) \<longleftrightarrow> k = i \<or> k \<in> swap_used fs" for k
  proof (cases "0 \<le> k \<and> k < 32 * int (length fs)")
    case True
    then have k: "0 \<le> k" "k < 32 * int (length fs)" by auto
    show ?thesis using same_slot [of i k] x(5) swap_used_iff [OF k]
      unfolding swap_used_upd [OF assms k] by (cases "i div 32 = k div 32") (auto simp: bit_or_iff bit_pow)
  next
    case False
    then have "k \<noteq> i" using assms by blast
    then show ?thesis using False swap_used_outside [of k] by simp
  qed
  ultimately show ?thesis by auto
qed

lemma unset_slot_spec:
  assumes "0 \<le> i" "i < 32 * int (length fs)"
  shows "\<exists>fs'. unset_slot i fs = Some fs' \<and> length fs' = length fs \<and> swap_used fs' = swap_used fs - {i}"
proof -
  note x = slot_index [OF assms]
  let ?w = "fs ! nat (i div 32) AND NOT (push_bit (nat (i mod 32)) 1)"
  have "unset_slot i fs = Some (fs[nat (i div 32) := ?w])" using x by (simp add: unset_slot_def)
  moreover have "k \<in> swap_used (fs[nat (i div 32) := ?w]) \<longleftrightarrow> k \<noteq> i \<and> k \<in> swap_used fs" for k
  proof (cases "0 \<le> k \<and> k < 32 * int (length fs)")
    case True
    then have k: "0 \<le> k" "k < 32 * int (length fs)" by auto
    show ?thesis using same_slot [of i k] x(5) slot_index(5) [OF k] swap_used_iff [OF k]
      unfolding swap_used_upd [OF assms k] by (cases "i div 32 = k div 32") (auto simp: bit_and_iff bit_not_iff bit_pow)
  qed (use swap_used_outside [of k] in simp)
  ultimately show ?thesis by auto
qed

lemma swap_full:
  assumes "\<forall>w \<in> set fs. w = - 1"
  shows "swap_used fs = {0..<32 * int (length fs)}"
proof -
  have "bit (fs ! nat (k div 32)) (nat (k mod 32))" if "0 \<le> k" "k < 32 * int (length fs)" for k
  proof -
    have "fs ! nat (k div 32) = - 1" using assms slot_index(4) [OF that] by simp
    then show ?thesis using slot_index(5) [OF that] by (simp add: bit_simps)
  qed
  then show ?thesis by (auto simp: swap_used_def)
qed

lemma swap_find_spec:
  "if swap_find_free_slot fs < 0 then swap_find_free_slot fs = - 1 \<and> swap_used fs = {0..<32 * int (length fs)}
   else swap_find_free_slot fs \<in> {0..<32 * int (length fs)} - swap_used fs"
proof (cases "swap_find_free_slot fs < 0")
  case True
  then show ?thesis using scan_chunks_spec [of 0 fs] swap_full by (simp add: swap_find_free_slot_def)
next
  case False
  then obtain i j where "i < length fs" "j < 32" "swap_find_free_slot fs = 32 * int i + int j" "\<not> bit (fs ! i) j"
    using scan_chunks_spec [of 0 fs] by (auto simp: swap_find_free_slot_def)
  then show ?thesis using False by (simp add: swap_used_def)
qed

interpretation swap_slots: slot_allocator swap_alloc_slot "\<lambda>fs i. unset_slot i fs" "\<lambda>_. True" swap_used "\<lambda>fs. 32 * int (length fs)"
proof
  fix fs :: "u32 list" and i :: int
  show "swap_used fs \<subseteq> {0..<32 * int (length fs)}" by (auto simp: swap_used_def)
  show "swap_alloc_slot fs = Some (- 1, fs)" if "swap_used fs = {0..<32 * int (length fs)}"
    using that swap_find_spec [of fs] by (auto simp: swap_alloc_slot_def Let_def split: if_splits)
  show "\<exists>i s'. swap_alloc_slot fs = Some (i, s') \<and> i \<in> {0..<32 * int (length fs)} - swap_used fs \<and> True
      \<and> swap_used s' = insert i (swap_used fs) \<and> 32 * int (length s') = 32 * int (length fs)"
    if "swap_used fs \<noteq> {0..<32 * int (length fs)}"
  proof -
    have i: "\<not> swap_find_free_slot fs < 0" "swap_find_free_slot fs \<in> {0..<32 * int (length fs)} - swap_used fs"
      using that swap_find_spec [of fs] by (auto split: if_splits)
    then show ?thesis using set_slot_spec [of "swap_find_free_slot fs" fs] by (auto simp: swap_alloc_slot_def)
  qed
  show "\<exists>s'. unset_slot i fs = Some s' \<and> True \<and> swap_used s' = swap_used fs - {i} \<and> 32 * int (length s') = 32 * int (length fs)"
    if "i \<in> swap_used fs"
    using that unset_slot_spec [of i fs] by (auto simp: swap_used_def)
qed

text \<open>
  C24. The slots of the swap file: \<open>n\<close> pages that are swapped out one after the other, while the
  file has room, get \<open>n\<close> different slots that no other page uses, and releasing them again
  restores the slot map.
\<close>

theorem swap_slots_distinct:
  assumes "int (card (swap_used fs) + n) \<le> 32 * int (length fs)"
  shows "\<exists>is fs' fs''. alloc_many swap_alloc_slot n fs = Some (is, fs') \<and> length is = n \<and> distinct is
    \<and> set is \<inter> swap_used fs = {} \<and> set is \<subseteq> {0..<32 * int (length fs)}
    \<and> free_many (\<lambda>fs i. unset_slot i fs) is fs' = Some fs'' \<and> swap_used fs'' = swap_used fs"
proof -
  obtain "is" fs' where a: "alloc_many swap_alloc_slot n fs = Some (is, fs')" "length is = n" "distinct is"
    "set is \<inter> swap_used fs = {}" "set is \<subseteq> {0..<32 * int (length fs)}" "swap_used fs' = swap_used fs \<union> set is"
    using swap_slots.alloc_many_distinct [OF TrueI assms] by auto
  obtain fs'' where "free_many (\<lambda>fs i. unset_slot i fs) is fs' = Some fs''" "swap_used fs'' = swap_used fs' - set is"
    using swap_slots.free_many_used [OF TrueI, of "is" fs'] a(3,6) by auto
  then show ?thesis using a by (intro exI [of _ "is"] exI [of _ fs'] exI [of _ fs'']) auto
qed

theorem swap_slots_distinct_witness:
  "\<exists>is fs' fs''. alloc_many swap_alloc_slot 40 (replicate 1024 0) = Some (is, fs') \<and> length is = 40 \<and> distinct is
    \<and> free_many (\<lambda>fs i. unset_slot i fs) is fs' = Some fs'' \<and> swap_used fs'' = {}"
proof -
  have e: "swap_used (replicate 1024 0) = {}" by (auto simp: swap_used_def nat_less_iff)
  show ?thesis using swap_slots_distinct [of "replicate 1024 0" 40] unfolding e by fastforce
qed

end
