(* ===== verification/Console.thy ===== *)
theory Console
  imports Swap_Slots
begin

text \<open>
  Reading and writing the console (dev/console.c). Characters from the serial line are kept in a
  ring of 4096 bytes; a read takes at most one line, and copies the part up to the end of the
  ring and the part from its start in two steps.
\<close>

abbreviation (input) MAX_IO_BUF :: int where "MAX_IO_BUF \<equiv> 4096"
abbreviation (input) MAX_SERIAL_SEND :: nat where "MAX_SERIAL_SEND \<equiv> 100"

subsection \<open>Writing\<close>

text \<open>The serial library takes some of the bytes and returns how many.\<close>

definition serial_send :: "u8 list \<Rightarrow> 'k sos \<Rightarrow> int \<times> 'k sos" where
  "serial_send xs s = (let (r, s1) = ask s in (r, s1\<lparr>serial_out := serial_out s1 @ take (nat r) xs\<rparr>))"

fun send_loop :: "nat \<Rightarrow> u32 \<Rightarrow> u32 \<Rightarrow> u32 \<Rightarrow> 'k sos \<Rightarrow> u32 \<times> 'k sos" where
  "send_loop 0 buf nbytes tot_sent s = (tot_sent, s)"
| "send_loop (Suc n) buf nbytes tot_sent s =
     (if tot_sent < nbytes then
        let (r, s1) = serial_send (mem_load (buf + tot_sent) (unat (nbytes - tot_sent)) s) s
        in send_loop n buf nbytes (tot_sent + word_of_int r) s1
      else (tot_sent, s))"

definition con_write :: "nat option \<Rightarrow> u32 \<Rightarrow> u32 \<Rightarrow> (int \<Rightarrow> u32 \<Rightarrow> 'k sos \<Rightarrow> 'k sos res) \<Rightarrow> 'k sos \<Rightarrow> 'k sos res" where
  "con_write file buf nbytes callback s =
     (if \<not> con_serial (con s) then callback EFAULT 0 s
      else let (tot_sent, s1) = send_loop MAX_SERIAL_SEND buf nbytes 0 s in callback 0 tot_sent s1)"

subsection \<open>Reading\<close>

text \<open>
  The number of characters up to the first newline, at most \<open>n\<close>, in the ring from \<open>cur\<close> on.
\<close>

fun line_len :: "(u32 \<Rightarrow> u8) \<Rightarrow> u32 \<Rightarrow> int \<Rightarrow> nat \<Rightarrow> nat" where
  "line_len m base cur 0 = 0"
| "line_len m base cur (Suc n) =
     (if m (base + word_of_int cur) = 10 then 1 else Suc (line_len m base ((cur + 1) mod MAX_IO_BUF) n))"

record con_read_cont =
  rc_len :: nat
  rc_first_half_size :: int
  rc_second_half_size :: int
  rc_buf :: u32

definition unblock :: "'k sos \<Rightarrow> 'k sos" where
  "unblock s = s\<lparr>con_reader := (con_reader s)\<lparr>is_blocked := False\<rparr>\<rparr>"

definition con_read_end :: "con_read_cont \<Rightarrow> (int \<Rightarrow> u32 \<Rightarrow> bool \<Rightarrow> 'k sos \<Rightarrow> 'k sos res) \<Rightarrow> int \<Rightarrow> 'k sos \<Rightarrow> 'k sos res" where
  "con_read_end cont callback err s =
     (if err \<noteq> 0 then callback EFAULT 0 False (unblock s)
      else let c = con s;
               c' = c\<lparr>con_start := (con_start c + (rc_first_half_size cont + rc_second_half_size cont)) mod MAX_IO_BUF,
                      con_buf_size := con_buf_size c - int (rc_len cont)\<rparr>
           in callback 0 (word_of_nat (rc_len cont)) False (unblock (s\<lparr>con := c'\<rparr>)))"

text \<open>The part of the line that is at the start of the ring, or nothing.\<close>

definition second_half :: "con_read_cont \<Rightarrow> con_read_cont" where
  "second_half cont = cont\<lparr>rc_second_half_size := int (rc_len cont) - rc_first_half_size cont\<rparr>"

definition second_start :: "con_read_cont \<Rightarrow> console \<Rightarrow> int" where
  "second_start cont c = (con_start c + rc_first_half_size cont) mod MAX_IO_BUF"

definition con_read_part2 :: "con_read_cont \<Rightarrow> (int \<Rightarrow> u32 \<Rightarrow> bool \<Rightarrow> 'k sos \<Rightarrow> 'k sos res) \<Rightarrow> int \<Rightarrow> 'k sos \<Rightarrow> 'k sos res" where
  "con_read_part2 cont callback err s =
     (if err \<noteq> 0 then callback EFAULT 0 False (unblock s)
      else let cont' = second_half cont in
        if_err (copyout (rc_buf cont' + word_of_int (rc_first_half_size cont'))
            (con_buf (con s) + word_of_int (second_start cont (con s)))
            (word_of_int (rc_second_half_size cont')) (con_read_end cont' callback) s)
          (con_read_end cont' callback))"

text \<open>What a read of at most \<open>nbytes\<close> characters takes from the ring.\<close>

definition con_line :: "u32 \<Rightarrow> u32 \<Rightarrow> 'k sos \<Rightarrow> con_read_cont" where
  "con_line buf nbytes s =
     (let c = con s;
          len = line_len (byte_mem s) (con_buf c) (con_start c) (min (unat nbytes) (nat (con_buf_size c)))
      in \<lparr>rc_len = len, rc_first_half_size = min MAX_IO_BUF (con_start c + int len) - con_start c,
          rc_second_half_size = 0, rc_buf = buf\<rparr>)"

text \<open>
  A reader that finds the buffer empty waits: its callback is kept, as the value \<open>k\<close>, until a
  newline arrives.
\<close>

definition con_read :: "nat option \<Rightarrow> u32 \<Rightarrow> u32 \<Rightarrow> u32 \<Rightarrow> (int \<Rightarrow> u32 \<Rightarrow> bool \<Rightarrow> 'k sos \<Rightarrow> 'k sos res) \<Rightarrow> 'k
    \<Rightarrow> 'k sos \<Rightarrow> 'k sos res" where
  "con_read file buf nbytes offset callback k s =
     (if con_buf_size (con s) > 0 then
        let cont = con_line buf nbytes s; (ok, s1) = malloc_ok s in
        if \<not> ok then callback ENOMEM 0 False (unblock s1)
        else if_err (copyout buf (con_buf (con s) + word_of_int (con_start (con s)))
            (word_of_int (rc_first_half_size cont)) (con_read_part2 cont callback) s1)
          (con_read_end cont callback)
      else finish (s\<lparr>con_reader := (con_reader s)\<lparr>is_blocked := True, cr_buf := buf, cr_nbytes := nbytes,
        cr_offset := offset, cr_callback := Some k, cr_file := file\<rparr>\<rparr>))"

text \<open>
  A character from the serial line. A full buffer drops it; a newline wakes the reader. \<open>run\<close>
  gives the meaning of the kept callback.
\<close>

definition con_store :: "u8 \<Rightarrow> 'k sos \<Rightarrow> 'k sos" where
  "con_store c s =
     (if con_buf_size (con s) < MAX_IO_BUF then
        s\<lparr>byte_mem := (byte_mem s)(con_buf (con s) + word_of_int (con_end (con s)) := c),
          con := (con s)\<lparr>con_end := (con_end (con s) + 1) mod MAX_IO_BUF, con_buf_size := con_buf_size (con s) + 1\<rparr>\<rparr>
      else s)"

definition read_handler :: "('k \<Rightarrow> int \<Rightarrow> u32 \<Rightarrow> bool \<Rightarrow> 'k sos \<Rightarrow> 'k sos res) \<Rightarrow> u8 \<Rightarrow> 'k sos \<Rightarrow> 'k sos res" where
  "read_handler run c s = do {
     let s1 = con_store c s;
     let r = con_reader s1;
     if is_blocked r \<and> c = 10 then do {
       alive \<leftarrow> is_proc_alive (cr_pid r) s1;
       if alive then do {
         s2 \<leftarrow> set_cur_proc (cr_pid r) s1;
         k \<leftarrow> cr_callback r;
         con_read (cr_file r) (cr_buf r) (cr_nbytes r) (cr_offset r) (run k) k s2 }
       else finish (s1\<lparr>con_reader := r\<lparr>cr_pid := PROC_NULL, is_blocked := False\<rparr>\<rparr>) }
     else finish s1 }"

end
