(* ===== verification/Console_Queue.thy ===== *)
theory Console_Queue
  imports Console
begin

text \<open>
  The ring of the console as a queue: a simulation between the code and a bounded queue of
  characters from which lines are taken.
\<close>

subsection \<open>Simulation\<close>

text \<open>
  A machine that takes operations, gives outputs and changes its state, and a run of it. When
  each step of one machine is a step of another under an abstraction function, so is every run.
\<close>

fun run_ops :: "('op \<Rightarrow> 's \<Rightarrow> 'o \<times> 's) \<Rightarrow> 'op list \<Rightarrow> 's \<Rightarrow> 'o list \<times> 's" where
  "run_ops step [] s = ([], s)"
| "run_ops step (x # xs) s = (let (y, s1) = step x s; (ys, s2) = run_ops step xs s1 in (y # ys, s2))"

locale simulation =
  fixes cstep :: "'op \<Rightarrow> 's \<Rightarrow> 'o \<times> 's"
    and astep :: "'op \<Rightarrow> 'a \<Rightarrow> 'o \<times> 'a"
    and inv :: "'s \<Rightarrow> bool"
    and abstr :: "'s \<Rightarrow> 'a"
  assumes step_inv: "inv s \<Longrightarrow> inv (snd (cstep x s))"
    and step_sim: "inv s \<Longrightarrow> astep x (abstr s) = (fst (cstep x s), abstr (snd (cstep x s)))"
begin

lemma run_sim: "inv s \<Longrightarrow> inv (snd (run_ops cstep xs s))
    \<and> run_ops astep xs (abstr s) = (fst (run_ops cstep xs s), abstr (snd (run_ops cstep xs s)))"
proof (induction xs arbitrary: s)
  case (Cons x xs)
  from Cons.IH [OF step_inv [OF Cons.prems]] show ?case
    by (simp add: step_sim [OF Cons.prems] split_beta)
qed simp

end

subsection \<open>The ring\<close>

definition ring :: "(u32 \<Rightarrow> u8) \<Rightarrow> u32 \<Rightarrow> int \<Rightarrow> nat \<Rightarrow> u8 list" where
  "ring m base cur n = map (\<lambda>i. m (base + word_of_int ((cur + int i) mod MAX_IO_BUF))) [0..<n]"

definition con_wf :: "console \<Rightarrow> bool" where
  "con_wf c \<longleftrightarrow> 0 \<le> con_start c \<and> con_start c < MAX_IO_BUF \<and> 0 \<le> con_buf_size c \<and> con_buf_size c \<le> MAX_IO_BUF
     \<and> con_end c = (con_start c + con_buf_size c) mod MAX_IO_BUF"

text \<open>The characters that wait to be read, oldest first.\<close>

definition con_chars :: "'k sos \<Rightarrow> u8 list" where
  "con_chars s = ring (byte_mem s) (con_buf (con s)) (con_start (con s)) (nat (con_buf_size (con s)))"

lemma length_ring [simp]: "length (ring m b cur n) = n"
  by (simp add: ring_def)

lemma ring_0 [simp]: "ring m b cur 0 = []"
  by (simp add: ring_def)

lemma ring_nth: "i < n \<Longrightarrow> ring m b cur n ! i = m (b + word_of_int ((cur + int i) mod MAX_IO_BUF))"
  by (simp add: ring_def)

lemma ring_Suc: "ring m b cur (Suc n) = m (b + word_of_int (cur mod MAX_IO_BUF)) # ring m b (cur + 1) n"
  by (rule nth_equalityI) (auto simp: ring_nth nth_Cons add.assoc split: nat.split)

lemma ring_mod [simp]: "ring m b (cur mod MAX_IO_BUF) n = ring m b cur n"
  by (rule nth_equalityI) (auto simp: ring_nth mod_simps)

lemma ring_snoc: "ring m b cur (Suc n) = ring m b cur n @ [m (b + word_of_int ((cur + int n) mod MAX_IO_BUF))]"
  by (simp add: ring_def)

lemma ring_drop: "k \<le> n \<Longrightarrow> drop k (ring m b cur n) = ring m b (cur + int k) (n - k)"
  by (rule nth_equalityI) (auto simp: ring_nth add.assoc)

lemma ring_take: "k \<le> n \<Longrightarrow> take k (ring m b cur n) = ring m b cur k"
  by (rule nth_equalityI) (auto simp: ring_nth)

lemma ring_append: "ring m b cur j @ ring m b (cur + int j) k = ring m b cur (j + k)"
  by (rule nth_equalityI) (auto simp: ring_nth nth_append)

lemma ring_offset_inj:
  assumes "(0::int) \<le> i" "i < MAX_IO_BUF" "0 \<le> j" "j < MAX_IO_BUF"
  shows "(word_of_int i :: u32) = word_of_int j \<longleftrightarrow> i = j"
  using assms by (simp add: word_of_int_eq_iff take_bit_int_eq_self)

lemma ring_upd_other:
  assumes "\<And>i. i < n \<Longrightarrow> (cur + int i) mod MAX_IO_BUF \<noteq> p" and "0 \<le> p" "p < MAX_IO_BUF"
  shows "ring (m(b + word_of_int p := c)) b cur n = ring m b cur n"
  by (rule nth_equalityI) (use assms in \<open>auto simp: ring_nth ring_offset_inj\<close>)

lemma mem_load_ring:
  assumes "0 \<le> cur" "cur + int n \<le> MAX_IO_BUF"
  shows "mem_load (b + word_of_int cur) n s = ring (byte_mem s) b cur n"
  by (rule nth_equalityI) (use assms in \<open>auto simp: mem_load_def ring_nth add.assoc\<close>)

subsection \<open>One line\<close>

text \<open>The characters up to the first newline, at most \<open>n\<close>.\<close>

fun first_line :: "nat \<Rightarrow> u8 list \<Rightarrow> u8 list" where
  "first_line 0 q = []"
| "first_line (Suc n) [] = []"
| "first_line (Suc n) (c # q) = (if c = 10 then [c] else c # first_line n q)"

lemma first_line_prefix: "first_line n q = take (length (first_line n q)) q"
  by (induction n q rule: first_line.induct) auto

lemma length_first_line: "length (first_line n q) \<le> length q"
  by (induction n q rule: first_line.induct) auto

lemma line_len_first_line: "line_len m b (cur mod MAX_IO_BUF) n = length (first_line n (ring m b cur n))"
proof (induction n arbitrary: cur)
  case (Suc n)
  from Suc [of "cur + 1"] show ?case
    by (simp add: ring_Suc mod_simps)
qed simp

lemma first_line_min: "first_line n q = first_line (min n (length q)) q"
  by (induction n q rule: first_line.induct) auto

lemma first_line_take: "first_line n q = first_line n (take n q)"
  by (induction n q rule: first_line.induct) auto


subsection \<open>The buffer is a queue\<close>

datatype con_op = Key u8 | Line u32

text \<open>The promise: a bounded queue of characters, from which lines are taken.\<close>

fun queue_step :: "con_op \<Rightarrow> u8 list \<Rightarrow> u8 list \<times> u8 list" where
  "queue_step (Key c) q = ([], if length q < 4096 then q @ [c] else q)"
| "queue_step (Line n) q = (first_line (unat n) q, drop (length (first_line (unat n) q)) q)"

text \<open>
  What the code does: a character is stored; a read copies the two pieces of the line and then,
  when both have been copied, moves the start of the ring.
\<close>

definition con_pieces :: "con_read_cont \<Rightarrow> 'k sos \<Rightarrow> u8 list" where
  "con_pieces cont s =
     mem_load (con_buf (con s) + word_of_int (con_start (con s))) (nat (rc_first_half_size cont)) s
     @ mem_load (con_buf (con s) + word_of_int (second_start cont (con s))) (nat (rc_second_half_size cont)) s"

fun con_step :: "con_op \<Rightarrow> 'k sos \<Rightarrow> u8 list \<times> 'k sos" where
  "con_step (Key c) s = ([], con_store c s)"
| "con_step (Line n) s =
     (let cont = second_half (con_line 0 n s)
      in (con_pieces cont s, fst (the (con_read_end cont (\<lambda>err sz more_to_read. finish) 0 s))))"

lemma length_con_chars [simp]: "length (con_chars s) = nat (con_buf_size (con s))"
  by (simp add: con_chars_def)

lemma con_store_wf: "con_wf (con s) \<Longrightarrow> con_wf (con (con_store c s))"
  by (auto simp: con_wf_def con_store_def mod_simps add.assoc)

lemma con_store_chars:
  assumes wf: "con_wf (con s)"
  shows "con_chars (con_store c s) = (if length (con_chars s) < 4096 then con_chars s @ [c] else con_chars s)"
proof (cases "con_buf_size (con s) < 4096")
  case True
  from wf have b: "0 \<le> con_start (con s)" "con_start (con s) < 4096" "0 \<le> con_buf_size (con s)"
      and e: "con_end (con s) = (con_start (con s) + con_buf_size (con s)) mod 4096"
    by (auto simp: con_wf_def)
  let ?n = "nat (con_buf_size (con s))"
  have n: "nat (con_buf_size (con s) + 1) = Suc ?n" "int ?n = con_buf_size (con s)"
    using b by auto
  have other: "(con_start (con s) + int i) mod 4096 \<noteq> con_end (con s)" if "i < ?n" for i
  proof
    assume "(con_start (con s) + int i) mod 4096 = con_end (con s)"
    then have "(con_start (con s) + int i) mod 4096 = (con_start (con s) + con_buf_size (con s)) mod 4096"
      using e by simp
    then have "int i mod 4096 = con_buf_size (con s) mod 4096"
      by (metis mod_add_cong add_diff_cancel_left' mod_diff_cong)
    with that True b show False
      by simp
  qed
  have "ring ((byte_mem s)(con_buf (con s) + word_of_int (con_end (con s)) := c)) (con_buf (con s)) (con_start (con s)) ?n
      = con_chars s"
    unfolding con_chars_def by (rule ring_upd_other) (use other e in auto)
  with True b e n show ?thesis
    by (simp add: con_store_def con_chars_def ring_snoc)
qed (use wf in \<open>auto simp: con_store_def con_wf_def\<close>)

lemma con_line_len:
  assumes wf: "con_wf (con s)"
  shows "rc_len (con_line buf n s) = length (first_line (unat n) (con_chars s))"
proof -
  let ?k = "min (unat n) (nat (con_buf_size (con s)))"
  from wf have st: "con_start (con s) mod 4096 = con_start (con s)"
    by (simp add: con_wf_def)
  have "rc_len (con_line buf n s)
      = length (first_line ?k (ring (byte_mem s) (con_buf (con s)) (con_start (con s)) ?k))"
    using line_len_first_line [of "byte_mem s" "con_buf (con s)" "con_start (con s)" ?k]
    by (simp add: con_line_def Let_def st)
  also have "\<dots> = length (first_line ?k (con_chars s))"
    using first_line_take [of ?k "con_chars s"] by (simp add: con_chars_def ring_take)
  also have "\<dots> = length (first_line (unat n) (con_chars s))"
    using first_line_min [of "unat n" "con_chars s"] by simp
  finally show ?thesis .
qed

text \<open>The state in which the callback of a read that has copied its line is run.\<close>

lemma con_read_end_finish:
  "con_read_end cont (\<lambda>err sz more_to_read. finish) 0 s = Some (unblock (s\<lparr>con := (con s)\<lparr>con_start :=
     (con_start (con s) + (rc_first_half_size cont + rc_second_half_size cont)) mod 4096,
     con_buf_size := con_buf_size (con s) - int (rc_len cont)\<rparr>\<rparr>), [])"
  by (simp add: con_read_end_def finish_def Let_def)

lemma con_line_bound: "con_wf (con s) \<Longrightarrow> int (length (first_line n (con_chars s))) \<le> con_buf_size (con s)"
  using length_first_line [of n "con_chars s"] by (auto simp: con_wf_def)

lemma con_line_halves:
  fixes s :: "'k sos" and buf n :: u32
  assumes "con_wf (con s)"
  defines "cont \<equiv> second_half (con_line buf n s)"
  defines "len \<equiv> length (first_line (unat n) (con_chars s))"
  shows "rc_len cont = len" and "rc_first_half_size cont + rc_second_half_size cont = int len"
    and "0 \<le> rc_first_half_size cont" and "0 \<le> rc_second_half_size cont"
    and "con_start (con s) + rc_first_half_size cont \<le> 4096"
    and "rc_second_half_size cont > 0 \<Longrightarrow> con_start (con s) + rc_first_half_size cont = 4096"
proof -
  have l: "rc_len (con_line buf n s) = len"
    using con_line_len [OF assms(1)] by (simp add: len_def)
  have f: "rc_first_half_size (con_line buf n s) = min 4096 (con_start (con s) + int len) - con_start (con s)"
    using l by (simp add: con_line_def Let_def)
  show "rc_len cont = len" "rc_first_half_size cont + rc_second_half_size cont = int len"
    by (simp_all add: cont_def second_half_def l)
  show "0 \<le> rc_first_half_size cont" "0 \<le> rc_second_half_size cont"
    "con_start (con s) + rc_first_half_size cont \<le> 4096"
    "rc_second_half_size cont > 0 \<Longrightarrow> con_start (con s) + rc_first_half_size cont = 4096"
    using assms(1) by (auto simp: cont_def second_half_def l f con_wf_def min_def split: if_splits)
qed


lemma con_pieces_line:
  assumes wf: "con_wf (con s)"
  shows "con_pieces (second_half (con_line buf n s)) s = first_line (unat n) (con_chars s)"
proof -
  let ?cont = "second_half (con_line buf n s)"
  let ?len = "length (first_line (unat n) (con_chars s))"
  let ?ring = "ring (byte_mem s) (con_buf (con s))"
  note h = con_line_halves [OF wf, of buf n] and h7 = con_line_bound [OF wf, of "unat n"]
  from wf have st: "0 \<le> con_start (con s)" "con_start (con s) < 4096" "con_buf_size (con s) \<le> 4096"
    by (auto simp: con_wf_def)
  have first: "mem_load (con_buf (con s) + word_of_int (con_start (con s))) (nat (rc_first_half_size ?cont)) s
      = ?ring (con_start (con s)) (nat (rc_first_half_size ?cont))"
    using st h(3,5) by (intro mem_load_ring) auto
  have second: "mem_load (con_buf (con s) + word_of_int (second_start ?cont (con s))) (nat (rc_second_half_size ?cont)) s
      = ?ring (con_start (con s) + rc_first_half_size ?cont) (nat (rc_second_half_size ?cont))"
  proof (cases "rc_second_half_size ?cont > 0")
    case True
    with h(6) have z: "second_start ?cont (con s) = 0"
      by (simp add: second_start_def)
    have "mem_load (con_buf (con s) + word_of_int 0) (nat (rc_second_half_size ?cont)) s
        = ?ring 0 (nat (rc_second_half_size ?cont))"
      using True h(2,3) h7 st by (intro mem_load_ring) auto
    moreover have "?ring (con_start (con s) + rc_first_half_size ?cont) k = ?ring 0 k" for k
      using h(6) [OF True] ring_mod [of "byte_mem s" "con_buf (con s)" 4096 k] by simp
    ultimately show ?thesis
      by (simp add: z)
  qed (use h(4) in \<open>simp add: mem_load_def\<close>)
  have "con_pieces ?cont s = ?ring (con_start (con s)) (nat (rc_first_half_size ?cont) + nat (rc_second_half_size ?cont))"
    using h(3) by (simp add: con_pieces_def first second ring_append [symmetric])
  also have "nat (rc_first_half_size ?cont) + nat (rc_second_half_size ?cont) = ?len"
    using h(2,3,4) by linarith
  also have "?ring (con_start (con s)) ?len = take ?len (con_chars s)"
    using h7 by (simp add: con_chars_def ring_take)
  finally show ?thesis
    using first_line_prefix [of "unat n" "con_chars s"] by simp
qed

lemma con_chars_drop: "int k \<le> con_buf_size (con s) \<Longrightarrow> drop k (con_chars s)
    = ring (byte_mem s) (con_buf (con s)) (con_start (con s) + int k) (nat (con_buf_size (con s) - int k))"
  by (simp add: con_chars_def ring_drop nat_diff_distrib)

lemma con_step_line:
  fixes s :: "'k sos" and n :: u32
  assumes wf: "con_wf (con s)"
  defines "s' \<equiv> snd (con_step (Line n) s)"
  shows "con_wf (con s')" and "con_chars s' = drop (length (first_line (unat n) (con_chars s))) (con_chars s)"
proof -
  let ?len = "length (first_line (unat n) (con_chars s))"
  note h = con_line_halves [OF wf, of 0 n] and h7 = con_line_bound [OF wf, of "unat n"]
  have c: "con s' = (con s)\<lparr>con_start := (con_start (con s) + int ?len) mod 4096,
        con_buf_size := con_buf_size (con s) - int ?len\<rparr>"
    and m: "byte_mem s' = byte_mem s"
    by (simp_all add: s'_def con_read_end_finish unblock_def Let_def h(1,2))
  show "con_wf (con s')"
    using wf h7 by (auto simp: c con_wf_def mod_simps)
  show "con_chars s' = drop ?len (con_chars s)"
    unfolding con_chars_def [of s'] c m con_chars_drop [OF h7] by simp
qed

interpretation con_sim: simulation con_step queue_step "\<lambda>s. con_wf (con s)" con_chars
proof
  fix s :: "'k sos" and x
  assume wf: "con_wf (con s)"
  show "con_wf (con (snd (con_step x s)))"
    by (cases x) (use wf con_step_line [OF wf] in \<open>auto simp: con_store_wf simp del: con_step.simps(2)\<close>)
  show "queue_step x (con_chars s) = (fst (con_step x s), con_chars (snd (con_step x s)))"
  proof (cases x)
    case (Key c)
    with con_store_chars [OF wf] show ?thesis by auto
  next
    case (Line n)
    then show ?thesis
      using con_step_line(2) [OF wf, of n] con_pieces_line [OF wf, of 0 n] by (simp add: Let_def)
  qed
qed

text \<open>
  C1. The console buffer is a bounded queue: whatever characters arrive and lines are read, the
  pieces that the reads copy out are, in order, the lines that a queue of at most 4096
  characters would deliver, and the characters left in the ring are those left in the queue.
\<close>

theorem con_refines_queue:
  assumes "con_wf (con s)"
  shows "con_wf (con (snd (run_ops con_step ops s)))
    \<and> run_ops queue_step ops (con_chars s) = (fst (run_ops con_step ops s), con_chars (snd (run_ops con_step ops s)))"
  using assms by (rule con_sim.run_sim)

text \<open>The console of a system that has just been opened, with an empty ring near its end.\<close>

definition con_demo :: "unit sos" where
  "con_demo = sos_demo\<lparr>con := \<lparr>con_buf = 0x40000000, con_buf_size = 0, con_start = 4094, con_end = 4094, con_serial = True\<rparr>\<rparr>"

lemma con_demo_wf: "con_wf (con con_demo)" "con_chars con_demo = []"
  by (simp_all add: con_demo_def con_wf_def con_chars_def)

lemma queue_demo: "run_ops queue_step [Key 72, Key 105, Key 10, Key 33, Line 100] [] = ([[], [], [], [], [72, 105, 10]], [33])"
  by code_simp

theorem con_refines_queue_witness:
  "con_wf (con con_demo) \<and>
   fst (run_ops con_step [Key 72, Key 105, Key 10, Key 33, Line 100] con_demo) = [[], [], [], [], [72, 105, 10]] \<and>
   con_chars (snd (run_ops con_step [Key 72, Key 105, Key 10, Key 33, Line 100] con_demo)) = [33]"
  using con_refines_queue [OF con_demo_wf(1), of "[Key 72, Key 105, Key 10, Key 33, Line 100]"]
  by (simp add: con_demo_wf queue_demo del: run_ops.simps)


lemma ring_shift_neq:
  assumes "(0::int) \<le> a" "a < MAX_IO_BUF" "0 < k" "k < MAX_IO_BUF"
  shows "(a + k) mod MAX_IO_BUF \<noteq> a"
proof (cases "a + k < MAX_IO_BUF")
  case False
  then have "(a + k) mod MAX_IO_BUF = a + k - MAX_IO_BUF"
    using assms mod_pos_pos_trivial [of "a + k - MAX_IO_BUF" MAX_IO_BUF] minus_mod_self2 [of "a + k" MAX_IO_BUF] by simp
  with assms show ?thesis by simp
qed (use assms in simp)

text \<open>
  C1. When the reader closes the console while characters are waiting, the number of characters
  is reset but not the two positions of the ring. The first character typed for the next reader
  is then lost: the buffer shows the first of the old characters in its place.
\<close>

theorem con_close_stale:
  assumes wf: "con_wf (con s)" and chars: "con_chars s = x # xs" and room: "length (x # xs) < 4096"
    and close: "con_eachclose vn 0 s = Some (0, s')"
  shows "con_chars (con_store c s') = [x]"
proof -
  from close have con': "con s' = (con s)\<lparr>con_buf_size := 0\<rparr>" and mem: "byte_mem s' = byte_mem s"
    by (auto simp: con_eachclose_def ask_def split: if_splits)
  from chars have len: "nat (con_buf_size (con s)) = Suc (length xs)"
    using length_con_chars [of s] by simp
  have x: "byte_mem s (con_buf (con s) + word_of_int (con_start (con s))) = x"
    using chars wf unfolding con_chars_def len ring_Suc by (simp add: con_wf_def)
  have "con_end (con s) = (con_start (con s) + int (Suc (length xs))) mod 4096"
    using wf arg_cong [OF len, of int] by (simp add: con_wf_def)
  then have "con_end (con s) \<noteq> con_start (con s)" "0 \<le> con_end (con s)" "con_end (con s) < 4096"
    using ring_shift_neq [of "con_start (con s)" "int (Suc (length xs))"] wf room by (simp_all add: con_wf_def)
  then show ?thesis
    using wf x by (simp add: con_store_def con_chars_def con' mem ring_Suc ring_offset_inj con_wf_def)
qed

theorem con_close_stale_witness:
  "con_chars (con_store 66 (snd (the (con_eachclose (Some 0) 0
      (con_store 65 (con_demo\<lparr>answers := (\<lambda>_. 0)\<rparr>)))))) = [65]"
proof -
  have "con_chars (con_store 65 (con_demo\<lparr>answers := (\<lambda>_. 0)\<rparr>)) = [65]"
    by (simp add: con_demo_def con_chars_def con_store_def ring_def)
  from con_close_stale [OF _ this, of "Some 0" _ 66] show ?thesis
    by (simp add: con_demo_def con_wf_def con_store_def con_eachclose_def ask_def)
qed

end
