(* ===== verification/File_Table.thy ===== *)
theory File_Table
  imports Swap_Slots
begin

text \<open>
  The open files of the processes (syscall/file.c): each process has a table of 16 descriptors,
  which point to reference-counted open files. Opening goes through the virtual file system and
  so may wait for the file server; closing happens at once.
\<close>

abbreviation (input) PROCESS_MAX_FILES :: int where "PROCESS_MAX_FILES \<equiv> 16"
abbreviation (input) STDOUT_FD :: int where "STDOUT_FD \<equiv> 1"
abbreviation (input) STDERR_FD :: int where "STDERR_FD \<equiv> 2"

definition O_ACCMODE :: int where "O_ACCMODE = 3"

subsection \<open>The table of open files\<close>

definition get_openfile :: "nat option \<Rightarrow> 'k sos \<Rightarrow> openfile option" where
  "get_openfile p s = do { q \<leftarrow> p; openfiles s q }"

definition put_openfile :: "nat \<Rightarrow> openfile \<Rightarrow> 'k sos \<Rightarrow> 'k sos" where
  "put_openfile q f s = s\<lparr>openfiles := (openfiles s)(q \<mapsto> f)\<rparr>"

text \<open>The address of the file table of the current process.\<close>

definition cur_filetable :: "'k sos \<Rightarrow> nat option" where
  "cur_filetable s = do { p \<leftarrow> get_proc (cur_proc s) s; p_filetable p }"

definition set_fd :: "nat \<Rightarrow> int \<Rightarrow> nat option \<Rightarrow> 'k sos \<Rightarrow> 'k sos option" where
  "set_fd ft fd file s = do {
     t \<leftarrow> filetables s ft;
     t' \<leftarrow> wr t fd file;
     Some (s\<lparr>filetables := (filetables s)(ft \<mapsto> t')\<rparr>) }"

definition filetable_findfile :: "int \<Rightarrow> 'k sos \<Rightarrow> (int \<times> nat option) option" where
  "filetable_findfile fd s = do {
     p \<leftarrow> get_proc (cur_proc s) s;
     if fd < 0 \<or> fd \<ge> PROCESS_MAX_FILES then Some (EBADF, None)
     else do {
       ft \<leftarrow> p_filetable p;
       t \<leftarrow> filetables s ft;
       file \<leftarrow> rd t fd;
       Some (if file = None then EBADF else 0, file) } }"

text \<open>The loop of \<^verbatim>\<open>filetable_placefile\<close>: the first index from \<open>i\<close> that is free.\<close>

fun first_free_fd :: "int \<Rightarrow> nat option list \<Rightarrow> int option" where
  "first_free_fd i [] = None"
| "first_free_fd i (x # xs) = (if x = None then Some i else first_free_fd (i + 1) xs)"

definition filetable_placefile :: "nat option \<Rightarrow> 'k sos \<Rightarrow> (int \<times> int \<times> 'k sos) option" where
  "filetable_placefile file s = do {
     ft \<leftarrow> cur_filetable s;
     t \<leftarrow> filetables s ft;
     case first_free_fd 0 t of
       None \<Rightarrow> Some (EMFILE, - 1, s)
     | Some fd \<Rightarrow> do { s' \<leftarrow> set_fd ft fd file s; Some (0, fd, s') } }"

subsection \<open>Opening and closing\<close>

text \<open>The permissions of the file do not allow the access mode.\<close>

definition access_denied :: "int \<Rightarrow> vnode \<Rightarrow> bool" where
  "access_denied accmode v =
     (let readable = (st_mode (vn_sattr v) AND S_IRUSR \<noteq> 0);
          writable = (st_mode (vn_sattr v) AND S_IWUSR \<noteq> 0)
      in accmode = O_RDONLY \<and> \<not> readable \<or> accmode = O_WRONLY \<and> \<not> writable
        \<or> accmode = O_RDWR \<and> \<not> (readable \<and> writable))"

definition file_open_end :: "int \<Rightarrow> (int \<Rightarrow> int \<Rightarrow> 'k sos \<Rightarrow> 'k sos res) \<Rightarrow> int \<Rightarrow> nat option \<Rightarrow> 'k sos \<Rightarrow> 'k sos res" where
  "file_open_end flags callback err vn s =
     (if err \<noteq> 0 then callback err (- 1) s
      else do {
        v \<leftarrow> get_vnode vn s;
        let accmode = flags AND O_ACCMODE;
        if access_denied accmode v then do {
          s1 \<leftarrow> vfs_close vn (word_of_int flags) s;
          callback EINVAL (- 1) s1 }
        else do {
          let (file, s1) = malloc s;
          case file of
            None \<Rightarrow> do { s2 \<leftarrow> vfs_close vn (word_of_int flags) s1; callback ENOMEM (- 1) s2 }
          | Some q \<Rightarrow> do {
              let s2 = put_openfile q \<lparr>of_vnode = vn, of_offset = 0, of_accmode = accmode, of_refcount = 1\<rparr> s1;
              (err', fd, s3) \<leftarrow> filetable_placefile file s2;
              if err' \<noteq> 0 then do {
                s4 \<leftarrow> vfs_close vn (word_of_int flags) (s3\<lparr>openfiles := (openfiles s3)(q := None)\<rparr>);
                callback err' (- 1) s4 }
              else callback 0 fd s3 } } })"

definition file_open :: "string \<Rightarrow> int \<Rightarrow> (int \<Rightarrow> int \<Rightarrow> 'k sos \<Rightarrow> 'k sos res) \<Rightarrow> 'k sos \<Rightarrow> 'k sos res" where
  "file_open filename flags callback s =
     (let accmode = flags AND O_ACCMODE in
      if \<not> (accmode = O_RDONLY \<or> accmode = O_WRONLY \<or> accmode = O_RDWR) then callback EINVAL (- 1) s
      else let (ok, s1) = malloc_ok s in
        if \<not> ok then callback ENOMEM (- 1) s1
        else vfs_open filename flags (file_open_end flags callback) s1)"

definition file_doclose :: "nat option \<Rightarrow> u32 \<Rightarrow> 'k sos \<Rightarrow> (int \<times> 'k sos) option" where
  "file_doclose file flags s = (case file of None \<Rightarrow> Some (EINVAL, s)
     | Some q \<Rightarrow> do {
         f \<leftarrow> get_openfile file s;
         if of_refcount f = 1 then do {
           s1 \<leftarrow> vfs_close (of_vnode f) flags s;
           Some (0, s1\<lparr>openfiles := (openfiles s1)(q := None)\<rparr>) }
         else do {
           c_assert (of_refcount f > 1);
           Some (0, put_openfile q (f\<lparr>of_refcount := of_refcount f - 1\<rparr>) s) } })"

definition file_close :: "int \<Rightarrow> 'k sos \<Rightarrow> (int \<times> 'k sos) option" where
  "file_close fd s = do {
     (err, file) \<leftarrow> filetable_findfile fd s;
     if err \<noteq> 0 then Some (err, s)
     else do {
       f \<leftarrow> get_openfile file s;
       (err', s1) \<leftarrow> file_doclose file (word_of_int (of_accmode f)) s;
       if err' \<noteq> 0 then Some (err', s1)
       else do {
         ft \<leftarrow> cur_filetable s1;
         s2 \<leftarrow> set_fd ft fd None s1;
         Some (0, s2) } } }"

subsection \<open>File tables\<close>

definition filetable_init_end :: "nat \<Rightarrow> (int \<Rightarrow> 'k sos \<Rightarrow> 'k sos res) \<Rightarrow> int \<Rightarrow> nat option \<Rightarrow> 'k sos \<Rightarrow> 'k sos res" where
  "filetable_init_end ft callback err vn s =
     (let (file, s1) = malloc s in
      case file of
        None \<Rightarrow> do { s2 \<leftarrow> vfs_close vn 1 s1; callback ENOMEM s2 }
      | Some q \<Rightarrow> do {
          let s2 = put_openfile q \<lparr>of_vnode = vn, of_offset = 0, of_accmode = O_WRONLY, of_refcount = 2\<rparr> s1;
          s3 \<leftarrow> set_fd ft STDOUT_FD file s2;
          s4 \<leftarrow> set_fd ft STDERR_FD file s3;
          callback 0 s4 })"

definition filetable_init :: "nat option \<Rightarrow> (int \<Rightarrow> 'k sos \<Rightarrow> 'k sos res) \<Rightarrow> 'k sos \<Rightarrow> ('k sos, int) res_val" where
  "filetable_init filetable callback s = (case filetable of None \<Rightarrow> Some (EINVAL, s, [])
     | Some ft \<Rightarrow> do {
         let s1 = s\<lparr>filetables := (filetables s)(ft \<mapsto> replicate 16 None)\<rparr>;
         let (ok, s2) = malloc_ok s1;
         if \<not> ok then Some (ENOMEM, s2, [])
         else with_val 0 (vfs_open ''console'' O_WRONLY (filetable_init_end ft callback) s2) })"

definition filetable_destroy :: "nat option \<Rightarrow> 'k sos \<Rightarrow> 'k sos option" where
  "filetable_destroy ft s = do {
     q \<leftarrow> ft;
     s1 \<leftarrow> for_up 0 PROCESS_MAX_FILES (\<lambda>fd s. do {
         t \<leftarrow> filetables s q;
         file \<leftarrow> rd t fd;
         case file of None \<Rightarrow> Some s
         | Some p \<Rightarrow> do {
             f \<leftarrow> get_openfile file s;
             (err, s') \<leftarrow> file_doclose file (word_of_int (of_accmode f)) s;
             c_assert (err = 0);
             Some s' } }) s;
     Some (s1\<lparr>filetables := (filetables s1)(q := None)\<rparr>) }"

end
