(* ===== verification/File_Refs.thy ===== *)
theory File_Refs
  imports File_Table
begin

text \<open>
  The references from file descriptors to open files: an invariant that makes reference counts
  exact, and its preservation by every operation on file tables.
\<close>

subsection \<open>References to open files\<close>

text \<open>A slot is a file table and a descriptor. The references that count are those in \<open>R\<close>.\<close>

definition slot_file :: "'k sos \<Rightarrow> nat \<times> nat \<Rightarrow> nat option" where
  "slot_file s x = (case filetables s (fst x) of None \<Rightarrow> None
     | Some t \<Rightarrow> if snd x < length t then t ! snd x else None)"

definition refs :: "(nat \<times> nat) set \<Rightarrow> 'k sos \<Rightarrow> nat \<Rightarrow> nat" where
  "refs R s q = card {x \<in> R. slot_file s x = Some q}"

definition ref_inv :: "(nat \<times> nat) set \<Rightarrow> 'k sos \<Rightarrow> bool" where
  "ref_inv R s \<longleftrightarrow> finite {x. slot_file s x \<noteq> None}
     \<and> (\<forall>x\<in>R. \<forall>q. slot_file s x = Some q \<longrightarrow> openfiles s q \<noteq> None)
     \<and> (\<forall>q f. openfiles s q = Some f \<longrightarrow> of_refcount f = int (refs R s q) \<and> 0 < refs R s q)
     \<and> (\<forall>q\<ge>heap_next s. openfiles s q = None \<and> filetables s q = None)"

text \<open>
  Every file table has 16 descriptors, every descriptor in use refers to an open file, and the
  reference count of an open file is the number of the descriptors that refer to it.
\<close>

definition files_wf :: "'k sos \<Rightarrow> bool" where
  "files_wf s \<longleftrightarrow> ref_inv UNIV s \<and> (\<forall>ft t. filetables s ft = Some t \<longrightarrow> length t = 16)"

lemma ref_inv_finite: "ref_inv R s \<Longrightarrow> finite {x \<in> R'. slot_file s x = Some q}"
  by (rule finite_subset [of _ "{x. slot_file s x \<noteq> None}"]) (simp_all add: ref_inv_def Collect_mono)

lemma ref_inv_open: "ref_inv R s \<Longrightarrow> x \<in> R \<Longrightarrow> slot_file s x = Some q \<Longrightarrow> \<exists>f. openfiles s q = Some f"
  unfolding ref_inv_def by blast

lemma slot_file_cong: "filetables s' = filetables s \<Longrightarrow> slot_file s' = slot_file s"
  by (rule ext) (simp add: slot_file_def)

lemma refs_cong: "filetables s' = filetables s \<Longrightarrow> refs R s' q = refs R s q"
  by (drule slot_file_cong) (simp add: refs_def)

lemma refs_remove:
  assumes "ref_inv R s" "x \<in> R" "slot_file s x = Some q"
  shows "refs (R - {x}) s q' = (if q' = q then refs R s q - 1 else refs R s q')"
proof (cases "q' = q")
  case True
  have "{y \<in> R - {x}. slot_file s y = Some q} = {y \<in> R. slot_file s y = Some q} - {x}"
    by blast
  then show ?thesis
    using True assms(2,3) by (simp add: refs_def)
next
  case False
  with assms(3) have "{y \<in> R - {x}. slot_file s y = Some q'} = {y \<in> R. slot_file s y = Some q'}"
    by auto
  with False show ?thesis
    by (simp add: refs_def)
qed

lemma refs_0: "ref_inv R s \<Longrightarrow> refs R' s q = 0 \<Longrightarrow> x \<in> R' \<Longrightarrow> slot_file s x \<noteq> Some q"
  using ref_inv_finite [of R s R' q] unfolding refs_def card_eq_0_iff by blast

subsection \<open>Closing\<close>

text \<open>The file system does not touch open files, file tables or processes.\<close>

definition same_files :: "'k sos \<Rightarrow> 'k sos \<Rightarrow> bool" where
  "same_files s s' \<longleftrightarrow> openfiles s' = openfiles s \<and> filetables s' = filetables s \<and> heap_next s' = heap_next s
    \<and> proc_store s' = proc_store s \<and> cur_proc_ptr s' = cur_proc_ptr s"

lemma same_files_trans: "same_files s s1 \<Longrightarrow> same_files s1 s2 \<Longrightarrow> same_files s s2"
  by (simp add: same_files_def)

lemma VOP_EACHCLOSE_files:
  assumes "VOP_EACHCLOSE vn fl s = Some (err, s')"
  shows "same_files s s'"
proof -
  from assms obtain v where "get_vnode vn s = Some v"
    by (auto simp: VOP_EACHCLOSE_def bind_eq_Some_conv)
  with assms show ?thesis
    by (cases "vn_ops v") (auto simp: VOP_EACHCLOSE_def con_eachclose_def nfs_dev_eachclose_def ask_def same_files_def
        split: if_splits)
qed

lemma VOP_LASTCLOSE_files:
  assumes "VOP_LASTCLOSE vn s = Some (err, s')"
  shows "same_files s s'"
proof -
  from assms obtain v where "get_vnode vn s = Some v"
    by (auto simp: VOP_LASTCLOSE_def bind_eq_Some_conv)
  with assms show ?thesis
    by (cases "vn_ops v") (auto simp: VOP_LASTCLOSE_def con_lastclose_def nfs_dev_lastclose_def bind_eq_Some_conv
        same_files_def split: if_splits)
qed

lemma vnode_decopen_files:
  assumes "vnode_decopen vn s = Some s'"
  shows "same_files s s'"
proof -
  obtain v where v: "get_vnode vn s = Some v" and pos: "vn_opencount v > 0"
    using assms by (auto simp: vnode_decopen_def bind_eq_Some_conv split: if_splits)
  show ?thesis
  proof (cases "vn_opencount v > 1")
    case True
    with assms v pos show ?thesis
      by (auto simp: vnode_decopen_def put_vnode_def same_files_def split: option.splits)
  next
    case False
    with assms v pos obtain e s1 s2 where s1: "VOP_LASTCLOSE vn s = Some (e, s1)" and s2: "vfs_vnt_delete (vn_name v) s1 = Some s2"
        and s': "s' = free_vnode vn s2"
      by (auto simp: vnode_decopen_def bind_eq_Some_conv)
    have "same_files s1 s'"
      using s2 by (auto simp: vfs_vnt_delete_def bind_eq_Some_conv s' free_vnode_def same_files_def split: option.splits)
    with VOP_LASTCLOSE_files [OF s1] show ?thesis
      by (rule same_files_trans)
  qed
qed

lemma vfs_close_files: "vfs_close vn fl s = Some s' \<Longrightarrow> same_files s s'"
  by (auto simp: vfs_close_def bind_eq_Some_conv dest!: VOP_EACHCLOSE_files vnode_decopen_files intro: same_files_trans)

lemmas vfs_close_frame = vfs_close_files [unfolded same_files_def]

text \<open>The entry of the open file may change, those of the others stay.\<close>

lemma ref_inv_close:
  assumes inv: "ref_inv R s" and x: "x \<in> R" "slot_file s x = Some q"
    and ft: "filetables s' = filetables s" and others: "\<And>q'. q' \<noteq> q \<Longrightarrow> openfiles s' q' = openfiles s q'"
    and heap: "heap_next s' = heap_next s"
    and gone: "openfiles s' q = None \<Longrightarrow> refs (R - {x}) s q = 0"
    and left: "\<And>f. openfiles s' q = Some f \<Longrightarrow> openfiles s q \<noteq> None
        \<and> of_refcount f = int (refs (R - {x}) s q) \<and> 0 < refs (R - {x}) s q"
  shows "ref_inv (R - {x}) s'"
proof -
  note rr = refs_remove [OF inv x]
  have "openfiles s' q' \<noteq> None" if "y \<in> R - {x}" "slot_file s y = Some q'" for y q'
  proof (cases "q' = q")
    case True
    with that gone refs_0 [OF inv] show ?thesis by blast
  next
    case False
    with that inv others show ?thesis unfolding ref_inv_def by auto
  qed
  moreover have "of_refcount f = int (refs (R - {x}) s q') \<and> 0 < refs (R - {x}) s q'" if "openfiles s' q' = Some f" for q' f
  proof (cases "q' = q")
    case False
    with that others have "openfiles s q' = Some f" by simp
    with False rr [of q'] inv show ?thesis unfolding ref_inv_def by auto
  qed (use that left in blast)
  moreover have "openfiles s' q' = None" if "q' \<ge> heap_next s" for q'
    using that inv others [of q'] left unfolding ref_inv_def by (cases "q' = q"; cases "openfiles s' q'") auto
  ultimately show ?thesis
    using inv unfolding ref_inv_def slot_file_cong [OF ft] refs_cong [OF ft] heap ft by blast
qed

lemma file_doclose_inv:
  assumes inv: "ref_inv R s" and x: "x \<in> R" "slot_file s x = Some q"
    and close: "file_doclose (Some q) fl s = Some (err, s')"
  shows "err = 0 \<and> ref_inv (R - {x}) s' \<and> filetables s' = filetables s
    \<and> proc_store s' = proc_store s \<and> cur_proc_ptr s' = cur_proc_ptr s"
proof -
  note rr = refs_remove [OF inv x]
  obtain f where f: "openfiles s q = Some f"
    using inv x unfolding ref_inv_def by blast
  then have cnt: "of_refcount f = int (refs R s q)" "0 < refs R s q"
    using inv by (auto simp: ref_inv_def)
  show ?thesis
  proof (cases "of_refcount f = 1")
    case True
    then obtain s1 where s1: "vfs_close (of_vnode f) fl s = Some s1" and s': "s' = s1\<lparr>openfiles := (openfiles s1)(q := None)\<rparr>"
        and err: "err = 0"
      using close f by (auto simp: file_doclose_def get_openfile_def bind_eq_Some_conv)
    note fr = vfs_close_frame [OF s1]
    have ft: "filetables s' = filetables s"
      by (simp add: s' fr)
    have none: "refs (R - {x}) s q = 0"
      using rr [of q] cnt True by simp
    have "ref_inv (R - {x}) s'"
      by (rule ref_inv_close [OF inv x ft]) (use refs_0 [OF inv none] none in \<open>simp_all add: s' fr\<close>)
    with err ft show ?thesis
      by (simp add: s' fr)
  next
    case False
    then have s': "s' = put_openfile q (f\<lparr>of_refcount := of_refcount f - 1\<rparr>) s" and err: "err = 0"
      and more: "of_refcount f > 1"
      using close f by (auto simp: file_doclose_def get_openfile_def bind_eq_Some_conv c_assert_def split: if_splits)
    have ft: "filetables s' = filetables s"
      by (simp add: s' put_openfile_def)
    have "ref_inv (R - {x}) s'"
      by (rule ref_inv_close [OF inv x ft]) (use rr [of q] cnt more f in \<open>auto simp: s' put_openfile_def\<close>)
    with err ft show ?thesis
      by (simp add: s' put_openfile_def)
  qed
qed


text \<open>Writing one descriptor.\<close>

lemma set_fd_SomeD:
  assumes "set_fd ft fd v s = Some s'"
  obtains t where "filetables s ft = Some t" "0 \<le> fd" "fd < int (length t)"
    and "filetables s' = (filetables s)(ft \<mapsto> t[nat fd := v])" and "slot_file s' = (slot_file s)((ft, nat fd) := v)"
    and "openfiles s' = openfiles s" "heap_next s' = heap_next s"
    and "proc_store s' = proc_store s" "cur_proc_ptr s' = cur_proc_ptr s"
proof -
  from assms obtain t where t: "filetables s ft = Some t" "0 \<le> fd" "fd < int (length t)"
      and s': "s' = s\<lparr>filetables := (filetables s)(ft \<mapsto> t[nat fd := v])\<rparr>"
    by (auto simp: set_fd_def bind_eq_Some_conv wr_eq_Some)
  have "slot_file s' = (slot_file s)((ft, nat fd) := v)"
    by (rule ext) (use t in \<open>auto simp: slot_file_def s' nth_list_update split: prod.splits\<close>)
  with t s' that show ?thesis by simp
qed

lemma refs_clear: "slot_file s' = (slot_file s)(x := None) \<Longrightarrow> refs R s' q = refs (R - {x}) s q"
  unfolding refs_def by (rule arg_cong [of _ _ card]) auto

lemma ref_inv_clear:
  assumes inv: "ref_inv (UNIV - {x}) s" and slots: "slot_file s' = (slot_file s)(x := None)"
    and same: "openfiles s' = openfiles s" "heap_next s' = heap_next s"
    and new: "\<And>q. q \<ge> heap_next s \<Longrightarrow> filetables s' q = None"
  shows "ref_inv UNIV s'"
proof -
  have "{y. slot_file s' y \<noteq> None} \<subseteq> {y. slot_file s y \<noteq> None}"
    by (auto simp: slots)
  then have "finite {y. slot_file s' y \<noteq> None}"
    using inv finite_subset unfolding ref_inv_def by blast
  moreover have "openfiles s' q \<noteq> None" if "slot_file s' y = Some q" for y q
  proof -
    from that have "y \<in> UNIV - {x}" "slot_file s y = Some q"
      by (auto simp: slots split: if_splits)
    with inv same show ?thesis unfolding ref_inv_def by simp
  qed
  ultimately show ?thesis
    using inv new unfolding ref_inv_def refs_clear [OF slots] same by blast
qed

lemma files_wf_cong:
  assumes "files_wf s" "openfiles s' = openfiles s" "filetables s' = filetables s" "heap_next s \<le> heap_next s'"
  shows "files_wf s'"
  using assms slot_file_cong [OF assms(3)] refs_cong [OF assms(3)] unfolding files_wf_def ref_inv_def
  by (simp add: order_trans [OF assms(4)])

lemma cur_filetable_cong:
  "proc_store s' = proc_store s \<Longrightarrow> cur_proc_ptr s' = cur_proc_ptr s \<Longrightarrow> cur_filetable s' = cur_filetable s"
  by (simp add: cur_filetable_def get_proc_def cur_proc_def)

lemma findfile_ok:
  assumes "filetable_findfile fd s = Some (0, fp)"
  obtains ft q where "cur_filetable s = Some ft" "slot_file s (ft, nat fd) = Some q" "fp = Some q"
    and "0 \<le> fd" "fd < 16"
proof -
  from assms obtain p ft t q where "get_proc (cur_proc s) s = Some p" "p_filetable p = Some ft" "filetables s ft = Some t"
      "0 \<le> fd" "fd < 16" "fd < int (length t)" "t ! nat fd = Some q" "fp = Some q"
    by (auto simp: filetable_findfile_def bind_eq_Some_conv rd_eq_Some split: if_splits)
  then show ?thesis
    by (intro that [of ft q]) (auto simp: cur_filetable_def slot_file_def)
qed

lemma file_close_wf:
  assumes wf: "files_wf s" and close: "file_close fd s = Some (err, s')"
  shows "files_wf s'"
proof -
  from close obtain e fp where find: "filetable_findfile fd s = Some (e, fp)"
    by (auto simp: file_close_def bind_eq_Some_conv)
  show ?thesis
  proof (cases "e = 0")
    case False
    then show ?thesis
      using close wf by (simp add: file_close_def find)
  next
    case True
    from find [unfolded True] obtain ft q where ft: "cur_filetable s = Some ft"
        and q: "slot_file s (ft, nat fd) = Some q" "fp = Some q"
      by (rule findfile_ok)
    from close obtain f e1 s1 where f: "get_openfile (Some q) s = Some f"
        and cl: "file_doclose (Some q) (word_of_int (of_accmode f)) s = Some (e1, s1)"
      by (auto simp: file_close_def find True q bind_eq_Some_conv)
    from wf have inv: "ref_inv UNIV s" by (simp add: files_wf_def)
    from file_doclose_inv [OF inv UNIV_I q(1) cl] have s1: "e1 = 0" "ref_inv (UNIV - {(ft, nat fd)}) s1"
        "filetables s1 = filetables s" "cur_filetable s1 = Some ft"
      using ft cur_filetable_cong [of s1 s] by auto
    with close have "set_fd ft fd None s1 = Some s'"
      by (auto simp: file_close_def find True q f cl bind_eq_Some_conv)
    then show ?thesis
    proof (rule set_fd_SomeD)
      fix t
      assume t: "filetables s1 ft = Some t" "filetables s' = (filetables s1)(ft \<mapsto> t[nat fd := None])"
        and sl: "slot_file s' = (slot_file s1)((ft, nat fd) := None)"
        and same: "openfiles s' = openfiles s1" "heap_next s' = heap_next s1"
      have new: "filetables s' k = None" if "heap_next s1 \<le> k" for k
        using that s1(2) t unfolding ref_inv_def by auto
      have "ref_inv UNIV s'"
        by (rule ref_inv_clear [OF s1(2) sl same new])
      with wf t s1(3) show ?thesis
        by (auto simp: files_wf_def)
    qed
  qed
qed

subsection \<open>Opening\<close>

text \<open>A new open file, with as many references as descriptors that are set to it.\<close>

lemma ref_inv_add:
  assumes inv: "ref_inv UNIV s" and free: "openfiles s q = None" and X: "finite X" "X \<noteq> {}"
    and slots: "slot_file s' = (\<lambda>x. if x \<in> X then Some q else slot_file s x)"
    and files: "openfiles s' = (openfiles s)(q \<mapsto> f)" and cnt: "of_refcount f = int (card X)"
    and was_free: "\<And>x. x \<in> X \<Longrightarrow> slot_file s x = None"
    and heap: "heap_next s \<le> heap_next s'" "q < heap_next s'"
    and new: "\<And>k. k \<ge> heap_next s' \<Longrightarrow> filetables s' k = None"
  shows "ref_inv UNIV s'"
proof -
  have "{x. slot_file s' x \<noteq> None} = {x. slot_file s x \<noteq> None} \<union> X"
    by (auto simp: slots)
  then have fin: "finite {x. slot_file s' x \<noteq> None}"
    using inv X unfolding ref_inv_def by simp
  have refs_q: "refs UNIV s' q = card X"
  proof -
    have "slot_file s x \<noteq> Some q" for x
      using inv free unfolding ref_inv_def by blast
    then have "{x \<in> UNIV. slot_file s' x = Some q} = X"
      by (auto simp: slots)
    then show ?thesis by (simp add: refs_def)
  qed
  have refs_o: "refs UNIV s' q' = refs UNIV s q'" if "q' \<noteq> q" for q'
    unfolding refs_def by (rule arg_cong [of _ _ card]) (use that was_free in \<open>auto simp: slots\<close>)
  have "openfiles s' k \<noteq> None" if "slot_file s' x = Some k" for x k
    using that ref_inv_open [OF inv UNIV_I, of x k] by (auto simp: slots files split: if_splits)
  moreover have "of_refcount g = int (refs UNIV s' k) \<and> 0 < refs UNIV s' k" if "openfiles s' k = Some g" for k g
    using that inv X cnt refs_q refs_o [of k] unfolding ref_inv_def
    by (auto simp: files card_gt_0_iff split: if_splits)
  moreover have "openfiles s' k = None" if "k \<ge> heap_next s'" for k
    using that inv heap unfolding ref_inv_def by (simp add: files)
  ultimately show ?thesis
    using fin new unfolding ref_inv_def by blast
qed


lemma first_free_fd_None: "first_free_fd i t = None \<longleftrightarrow> (\<forall>x\<in>set t. x \<noteq> None)"
  by (induction t arbitrary: i) auto

lemma first_free_fd_Some: "first_free_fd i t = Some fd \<Longrightarrow> i \<le> fd \<and> fd < i + int (length t) \<and> t ! nat (fd - i) = None
    \<and> (\<forall>j < nat (fd - i). t ! j \<noteq> None)"
proof (induction t arbitrary: i)
  case (Cons x t)
  show ?case
  proof (cases "x = None")
    case False
    with Cons.IH [of "i + 1"] Cons.prems have *: "i + 1 \<le> fd" "fd < i + 1 + int (length t)" "t ! nat (fd - (i + 1)) = None"
        "\<forall>j < nat (fd - (i + 1)). t ! j \<noteq> None"
      by auto
    then have n: "nat (fd - i) = Suc (nat (fd - (i + 1)))" by linarith
    have "(x # t) ! j \<noteq> None" if "j < nat (fd - i)" for j
      using that False *(4) unfolding n by (cases j) auto
    with * n show ?thesis by simp
  qed (use Cons.prems in simp)
qed simp

lemma placefile_ok:
  assumes "filetable_placefile fp s = Some (err, fd, s')"
  obtains (full) "err = EMFILE" "fd = - 1" "s' = s"
  | (placed) ft where "err = 0" "cur_filetable s = Some ft" "set_fd ft fd fp s = Some s'" "slot_file s (ft, nat fd) = None"
      "\<And>i. i < nat fd \<Longrightarrow> slot_file s (ft, i) \<noteq> None"
proof -
  from assms obtain ft t where ft: "cur_filetable s = Some ft" and t: "filetables s ft = Some t"
    by (auto simp: filetable_placefile_def bind_eq_Some_conv)
  show ?thesis
  proof (cases "first_free_fd 0 t")
    case None
    with assms ft t full show ?thesis by (simp add: filetable_placefile_def)
  next
    case (Some k)
    with assms ft t have "err = 0" "fd = k" "set_fd ft fd fp s = Some s'"
      by (auto simp: filetable_placefile_def bind_eq_Some_conv)
    with first_free_fd_Some [OF Some] ft t show ?thesis
      by (intro placed [of ft]) (auto simp: slot_file_def)
  qed
qed

lemma malloc_files:
  fixes s s1 :: "'k sos"
  assumes "malloc s = (r, s1)"
  shows "openfiles s1 = openfiles s" "filetables s1 = filetables s" "proc_store s1 = proc_store s"
    "cur_proc_ptr s1 = cur_proc_ptr s" "heap_next s \<le> heap_next s1" "r = Some q \<Longrightarrow> q = heap_next s \<and> heap_next s1 = Suc q"
  using sos_fields [OF malloc_more [OF assms]] assms by (auto simp: malloc_def ask_def Let_def split: if_splits)

text \<open>A new open file in one descriptor, or in the two descriptors for output.\<close>

lemma new_file_wf:
  assumes wf: "files_wf s" and q: "malloc s = (Some q, s1)"
    and slots: "slot_file s' = (\<lambda>x. if x \<in> X then Some q else slot_file s x)"
    and free: "\<And>x. x \<in> X \<Longrightarrow> slot_file s x = None" and X: "finite X" "X \<noteq> {}" "of_refcount f = int (card X)"
    and same: "openfiles s' = (openfiles s)(q \<mapsto> f)" "heap_next s' = heap_next s1"
    and tables: "\<And>k t. filetables s' k = Some t \<Longrightarrow> length t = 16 \<and> filetables s k \<noteq> None"
  shows "files_wf s'"
proof -
  note m = malloc_files [OF q]
  from wf have inv: "ref_inv UNIV s" and fresh: "\<And>k. k \<ge> heap_next s \<Longrightarrow> openfiles s k = None \<and> filetables s k = None"
    by (auto simp: files_wf_def ref_inv_def)
  have "ref_inv UNIV s'"
  proof (rule ref_inv_add [OF inv _ X(1,2) slots same(1) X(3) free])
    show "openfiles s q = None" "heap_next s \<le> heap_next s'" "q < heap_next s'"
      using m(5) m(6) [of q] fresh [of q] by (simp_all add: same)
    show "filetables s' k = None" if "heap_next s' \<le> k" for k
      using that tables [of k] fresh [of k] m(5) by (cases "filetables s' k") (auto simp: same)
  qed
  with tables show ?thesis
    by (auto simp: files_wf_def)
qed

lemma files_wf_close: "files_wf s \<Longrightarrow> vfs_close vn fl s = Some s' \<Longrightarrow> files_wf s'"
  by (erule files_wf_cong) (simp_all add: vfs_close_frame)

lemma placed_wf:
  assumes wf: "files_wf s" and q: "malloc s = (Some q, s1)" and f: "of_refcount f = 1"
    and place: "filetable_placefile (Some q) (put_openfile q f s1) = Some (0, fd, s')"
  shows "files_wf s'"
  using place
proof (cases rule: placefile_ok)
  case (placed ft)
  note m = malloc_files [OF q]
  let ?s2 = "put_openfile q f s1"
  have sl: "slot_file ?s2 = slot_file s"
    by (rule slot_file_cong) (simp add: put_openfile_def m)
  from placed(3) show ?thesis
  proof (rule set_fd_SomeD)
    fix t
    assume t: "filetables ?s2 ft = Some t" "filetables s' = (filetables ?s2)(ft \<mapsto> t[nat fd := Some q])"
      "slot_file s' = (slot_file ?s2)((ft, nat fd) := Some q)"
      "openfiles s' = openfiles ?s2" "heap_next s' = heap_next ?s2"
    show ?thesis
    proof (rule new_file_wf [OF wf q, of _ "{(ft, nat fd)}"])
      show "slot_file s' = (\<lambda>x. if x \<in> {(ft, nat fd)} then Some q else slot_file s x)"
        by (rule ext) (simp add: t sl)
      show "openfiles s' = (openfiles s)(q \<mapsto> f)" "heap_next s' = heap_next s1"
        by (simp_all add: t put_openfile_def m)
      show "length u = 16 \<and> filetables s k \<noteq> None" if "filetables s' k = Some u" for k u
        using that wf t by (auto simp: put_openfile_def m files_wf_def split: if_splits)
      show "slot_file s x = None" if "x \<in> {(ft, nat fd)}" for x
        using that placed(4) sl by simp
    qed (use f in simp_all)
  qed
qed simp

lemma file_open_end_wf:
  assumes wf: "files_wf s" and run: "file_open_end flags cb err vn s = Some r"
  shows "\<exists>err' fd s'. cb err' fd s' = Some r \<and> files_wf s'"
proof (cases "err = 0")
  case False
  with wf run show ?thesis by (auto simp: file_open_end_def)
next
  case True
  have failed: "\<exists>err' fd s'. cb err' fd s' = Some r \<and> files_wf s'"
    if "do { s1 \<leftarrow> vfs_close vn fl t; cb e (- 1) s1 } = Some r" "files_wf t" for fl t e
  proof -
    from that obtain s1 where "vfs_close vn fl t = Some s1" "cb e (- 1) s1 = Some r"
      by (auto simp: bind_eq_Some_conv)
    with files_wf_close [OF that(2)] show ?thesis by blast
  qed
  obtain v where v: "get_vnode vn s = Some v"
    using run True by (auto simp: file_open_end_def bind_eq_Some_conv)
  let ?acc = "flags AND O_ACCMODE"
  show ?thesis
  proof (cases "access_denied ?acc v")
    case d: True
    with run True v have "do { s1 \<leftarrow> vfs_close vn (word_of_int flags) s; cb EINVAL (- 1) s1 } = Some r"
      unfolding file_open_end_def Let_def by simp
    then show ?thesis using wf by (rule failed)
  next
    case d: False
    obtain fp s1 where mal: "malloc s = (fp, s1)" by (cases "malloc s")
    have wf1: "files_wf s1"
      by (rule files_wf_cong [OF wf]) (simp_all add: malloc_files [OF mal])
    show ?thesis
    proof (cases fp)
      case None
      with run True v d mal have "do { s2 \<leftarrow> vfs_close vn (word_of_int flags) s1; cb ENOMEM (- 1) s2 } = Some r"
        unfolding file_open_end_def Let_def by simp
      then show ?thesis using wf1 by (rule failed)
    next
      case (Some q)
      let ?f = "\<lparr>of_vnode = vn, of_offset = 0, of_accmode = ?acc, of_refcount = 1\<rparr>"
      obtain e fd s3 where pl: "filetable_placefile (Some q) (put_openfile q ?f s1) = Some (e, fd, s3)"
          and rest: "(if e \<noteq> 0 then do { s4 \<leftarrow> vfs_close vn (word_of_int flags) (s3\<lparr>openfiles := (openfiles s3)(q := None)\<rparr>);
            cb e (- 1) s4 } else cb 0 fd s3) = Some r"
        using run True v d mal Some unfolding file_open_end_def Let_def by (auto simp: bind_eq_Some_conv simp del: if_split)
      show ?thesis
      proof (cases "e = 0")
        case True
        with placed_wf [OF wf mal [unfolded Some], of ?f fd s3] pl rest show ?thesis by auto
      next
        case False
        with pl have s3: "s3 = put_openfile q ?f s1"
          by (cases rule: placefile_ok) simp_all
        have "openfiles s1 q = None"
          using wf malloc_files [OF mal] malloc_files(6) [OF mal, of q] Some by (simp add: files_wf_def ref_inv_def)
        then have "files_wf (s3\<lparr>openfiles := (openfiles s3)(q := None)\<rparr>)"
          by (intro files_wf_cong [OF wf1]) (auto simp: s3 put_openfile_def fun_upd_idem)
        with False rest show ?thesis
          by (intro failed) simp_all
      qed
    qed
  qed
qed

subsection \<open>File tables\<close>

lemma filetable_init_end_wf:
  assumes wf: "files_wf s" and ft: "filetables s ft = Some t" "t ! 1 = None" "t ! 2 = None"
    and run: "filetable_init_end ft cb err vn s = Some r"
  shows "\<exists>err' s'. cb err' s' = Some r \<and> files_wf s'"
proof -
  obtain fp s1 where mal: "malloc s = (fp, s1)" by (cases "malloc s")
  note m = malloc_files [OF mal]
  show ?thesis
  proof (cases fp)
    case None
    with run mal obtain s2 where "vfs_close vn 1 s1 = Some s2" "cb ENOMEM s2 = Some r"
      by (auto simp: filetable_init_end_def bind_eq_Some_conv)
    moreover have "files_wf s1"
      by (rule files_wf_cong [OF wf]) (simp_all add: m)
    ultimately show ?thesis using files_wf_close by blast
  next
    case (Some q)
    let ?f = "\<lparr>of_vnode = vn, of_offset = 0, of_accmode = O_WRONLY, of_refcount = 2\<rparr>"
    from wf ft have len: "length t = 16" by (simp add: files_wf_def)
    define s4 where "s4 = (put_openfile q ?f s1)\<lparr>filetables := (filetables s)(ft \<mapsto> t[1 := Some q, 2 := Some q])\<rparr>"
    have "cb 0 s4 = Some r"
      using run mal Some ft len
      by (simp add: filetable_init_end_def set_fd_def put_openfile_def m s4_def Let_def)
    moreover have "files_wf s4"
    proof (rule new_file_wf [OF wf mal [unfolded Some], of _ "{(ft, 1), (ft, 2)}" ?f])
      show "slot_file s4 = (\<lambda>x. if x \<in> {(ft, 1), (ft, 2)} then Some q else slot_file s x)"
        by (rule ext) (use ft len in \<open>auto simp: slot_file_def s4_def nth_list_update split: prod.splits\<close>)
      show "length u = 16 \<and> filetables s k \<noteq> None" if "filetables s4 k = Some u" for k u
        using that wf ft len by (auto simp: s4_def files_wf_def split: if_splits)
    qed (use ft len in \<open>auto simp: s4_def put_openfile_def m slot_file_def\<close>)
    ultimately show ?thesis by blast
  qed
qed

lemma ref_inv_skip: "ref_inv R s \<Longrightarrow> slot_file s x = None \<Longrightarrow> ref_inv (R - {x}) s"
proof -
  assume "ref_inv R s" "slot_file s x = None"
  moreover from this(2) have "refs (R - {x}) s q = refs R s q" for q
    unfolding refs_def by (intro arg_cong [of _ _ card]) auto
  ultimately show ?thesis
    unfolding ref_inv_def by auto
qed

lemma filetable_destroy_wf:
  assumes wf: "files_wf s" and run: "filetable_destroy (Some ft) s = Some s'"
  shows "files_wf s'"
proof -
  let ?R = "\<lambda>k. UNIV - {(ft, i) | i. int i < k}"
  obtain s1 where loop: "for_up 0 PROCESS_MAX_FILES (\<lambda>fd s. do {
         t \<leftarrow> filetables s ft;
         fp \<leftarrow> rd t fd;
         case fp of None \<Rightarrow> Some s
         | Some p \<Rightarrow> do {
             f \<leftarrow> get_openfile fp s;
             (err, s') \<leftarrow> file_doclose fp (word_of_int (of_accmode f)) s;
             c_assert (err = 0);
             Some s' } }) s = Some s1" and s': "s' = s1\<lparr>filetables := (filetables s1)(ft := None)\<rparr>"
    using run by (auto simp: filetable_destroy_def bind_eq_Some_conv)
  have "ref_inv (?R 16) s1 \<and> filetables s1 = filetables s"
    using loop
  proof (rule for_up_inv [where P = "\<lambda>k u. ref_inv (?R k) u \<and> filetables u = filetables s"])
    show "ref_inv (?R 0) s \<and> filetables s = filetables s"
      using wf by (simp add: files_wf_def)
  next
    fix k u u'
    assume k: "(0::int) \<le> k" "k < 16" and u: "ref_inv (?R k) u \<and> filetables u = filetables s"
      and step: "do { t \<leftarrow> filetables u ft;
         fp \<leftarrow> rd t k;
         case fp of None \<Rightarrow> Some u
         | Some p \<Rightarrow> do {
             f \<leftarrow> get_openfile fp u;
             (err, s') \<leftarrow> file_doclose fp (word_of_int (of_accmode f)) u;
             c_assert (err = 0);
             Some s' } } = Some u'"
    have R: "?R (k + 1) = ?R k - {(ft, nat k)}"
      using k by auto
    from step obtain t where t: "filetables u ft = Some t" "k < int (length t)"
      by (auto simp: bind_eq_Some_conv rd_eq_Some)
    show "ref_inv (?R (k + 1)) u' \<and> filetables u' = filetables s"
    proof (cases "t ! nat k")
      case None
      with step t k have "u' = u" by simp
      moreover from None t k have "slot_file u (ft, nat k) = None" by (simp add: slot_file_def)
      ultimately show ?thesis
        using u ref_inv_skip [of "?R k" u "(ft, nat k)"] unfolding R by simp
    next
      case (Some q)
      with step t k obtain f :: openfile and err where cl: "file_doclose (Some q) (word_of_int (of_accmode f)) u = Some (err, u')"
        by (auto simp: bind_eq_Some_conv split: if_splits)
      have "(ft, nat k) \<in> ?R k" "slot_file u (ft, nat k) = Some q"
        using t k Some by (auto simp: slot_file_def)
      from file_doclose_inv [OF conjunct1 [OF u] this cl] u show ?thesis
        unfolding R by simp
    qed
  qed simp
  then have inv: "ref_inv (?R 16) s1" and ft1: "filetables s1 = filetables s" by auto
  have len: "length t = 16" if "filetables s1 k = Some t" for k t
    using that wf ft1 by (simp add: files_wf_def)
  have slots: "slot_file s' x = (if fst x = ft then None else slot_file s1 x)" for x
    by (simp add: slot_file_def s')
  have "ref_inv UNIV s'"
  proof -
    have R: "(x \<in> ?R 16 \<and> slot_file s1 x = Some q) \<longleftrightarrow> slot_file s' x = Some q" for x q
      using len by (cases x) (auto simp: slot_file_def s' split: option.splits if_splits)
    then have r: "refs UNIV s' q = refs (?R 16) s1 q" for q
      by (simp add: refs_def)
    have "{x. slot_file s' x \<noteq> None} \<subseteq> {x. slot_file s1 x \<noteq> None}"
      by (auto simp: slots)
    then have fin: "finite {x. slot_file s' x \<noteq> None}"
      using inv finite_subset unfolding ref_inv_def by blast
    have op: "openfiles s1 q \<noteq> None" if "slot_file s' x = Some q" for x q
      using that ref_inv_open [OF inv, of x q] R [of x q] by blast
    have same: "openfiles s' = openfiles s1" "heap_next s' = heap_next s1"
      by (simp_all add: s')
    show ?thesis
      using fin op inv unfolding ref_inv_def same r by (simp add: s')
  qed
  with len show ?thesis
    by (auto simp: files_wf_def s' split: if_splits)
qed


subsection \<open>Properties\<close>

text \<open>
  C1. Reference counts are exact. In a state where every file table has 16 entries and every open
  file counts the descriptors that refer to it, closing a file, finishing the opening of one,
  giving a new process its output and destroying a file table lead to such a state again, also
  on every error path: no open file is freed while a descriptor refers to it, and none is left
  without a descriptor.
\<close>

theorem files_wf_preserved:
  assumes "files_wf s"
  shows "(file_close fd s = Some (err, s1) \<longrightarrow> files_wf s1)
    \<and> (file_open_end flags cb1 err1 vn s = Some r1 \<longrightarrow> (\<exists>e fd' s2. cb1 e fd' s2 = Some r1 \<and> files_wf s2))
    \<and> (filetables s ft = Some t \<and> t ! 1 = None \<and> t ! 2 = None \<and> filetable_init_end ft cb2 err2 vn s = Some r2
        \<longrightarrow> (\<exists>e s3. cb2 e s3 = Some r2 \<and> files_wf s3))
    \<and> (filetable_destroy (Some ft) s = Some s4 \<longrightarrow> files_wf s4)"
  using assms file_close_wf [of s fd err s1] file_open_end_wf [of s flags cb1 err1 vn r1]
    filetable_init_end_wf [of s ft t cb2 err2 vn r2] filetable_destroy_wf [of s ft s4] by blast

text \<open>A process with an empty file table, and a file on the server that it may read and write.\<close>

definition file_demo :: "unit sos" where
  "file_demo = sos_demo\<lparr>cur_proc_ptr := Some 0, heap_next := 3, answers := (\<lambda>_. 1),
     filetables := [1 \<mapsto> replicate 16 None],
     proc_store := [0 \<mapsto> \<lparr>tcb_addr = 0, tcb_cap = 0, vroot_addr = 0, vroot = 0, ipc_buffer_addr = 0, ipc_buffer_cap = 0,
       croot = None, proc_as = None, proc_pid = 0, proc_size = 0, proc_stime = 0, proc_name = None,
       proc_name_len = 0, p_filetable = Some 1, p_wait_queue = [], p_initialised = True\<rparr>],
     vnodes := [2 \<mapsto> \<lparr>vn_initialised = True, vn_opencount = 1, vn_name = ''a'', vn_data = Some (7, None),
       vn_sattr = \<lparr>st_type = 1, st_mode = 384, st_size = 0, st_mtime = (0, 0)\<rparr>, vn_ops = Ops_NFS\<rparr>]\<rparr>"

lemma file_demo_wf: "files_wf file_demo"
proof -
  have "slot_file file_demo x = None" for x
    by (auto simp: slot_file_def file_demo_def)
  then show ?thesis
    by (auto simp: files_wf_def ref_inv_def file_demo_def)
qed

lemma first_free_demo: "first_free_fd 0 (replicate 16 None) = Some 0"
  by (simp add: numeral_eq_Suc)

lemma file_demo_open:
  "file_open_end 2 (\<lambda>e fd. finish) 0 (Some 2) file_demo
    = Some (file_demo\<lparr>asked := asked file_demo + 1, heap_next := 4,
        openfiles := [3 \<mapsto> \<lparr>of_vnode = Some 2, of_offset = 0, of_accmode = 2, of_refcount = 1\<rparr>],
        filetables := [1 \<mapsto> (replicate 16 None)[0 := Some 3]]\<rparr>, [])"
  by (simp add: file_open_end_def file_demo_def get_vnode_def access_denied_def O_ACCMODE_def malloc_def ask_def Let_def
      put_openfile_def filetable_placefile_def cur_filetable_def get_proc_def cur_proc_def set_fd_def finish_def first_free_demo)

theorem files_wf_preserved_witness:
  "\<exists>s. file_open_end 2 (\<lambda>e fd. finish) 0 (Some 2) file_demo = Some (s, []) \<and> files_wf s
     \<and> slot_file s (1, 0) = Some 3"
proof -
  let ?s = "file_demo\<lparr>asked := asked file_demo + 1, heap_next := 4,
        openfiles := [3 \<mapsto> \<lparr>of_vnode = Some 2, of_offset = 0, of_accmode = 2, of_refcount = 1\<rparr>],
        filetables := [1 \<mapsto> (replicate 16 None)[0 := Some 3]]\<rparr>"
  from files_wf_preserved [OF file_demo_wf, where flags = 2 and vn = "Some 2" and ?cb1.0 = "\<lambda>e fd. finish" and ?err1.0 = 0]
  have "files_wf ?s"
    using file_demo_open by (auto simp: finish_def)
  then show ?thesis
    by (intro exI [of _ ?s]) (simp add: file_demo_open slot_file_def)
qed


text \<open>
  C1. A new open file gets the lowest free descriptor, and looking the descriptor up finds the
  file again; when all 16 descriptors are in use the result is EMFILE and nothing changes.
\<close>

theorem filetable_placefile_lowest:
  assumes wf: "files_wf s" and place: "filetable_placefile (Some q) s = Some (err, fd, s')"
  shows "\<exists>ft. cur_filetable s = Some ft \<and>
    (if err = 0 then slot_file s (ft, nat fd) = None \<and> (\<forall>i < nat fd. slot_file s (ft, i) \<noteq> None)
        \<and> filetable_findfile fd s' = Some (0, Some q)
     else err = EMFILE \<and> s' = s \<and> (\<forall>i < 16. slot_file s (ft, i) \<noteq> None))"
proof -
  from place obtain ft t where ft: "cur_filetable s = Some ft" and t: "filetables s ft = Some t"
    by (auto simp: filetable_placefile_def bind_eq_Some_conv)
  with wf have len: "length t = 16" by (simp add: files_wf_def)
  show ?thesis
  proof (cases "first_free_fd 0 t")
    case None
    then have "slot_file s (ft, i) \<noteq> None" if "i < 16" for i
      using that t len by (auto simp: first_free_fd_None slot_file_def)
    with place ft t None show ?thesis
      by (auto simp: filetable_placefile_def)
  next
    case (Some k)
    note k = first_free_fd_Some [OF Some]
    from place ft t Some k len have "err = 0" "fd = k"
        and s': "s' = s\<lparr>filetables := (filetables s)(ft \<mapsto> t[nat k := Some q])\<rparr>"
      by (auto simp: filetable_placefile_def set_fd_def)
    from ft obtain p where p: "get_proc (cur_proc s) s = Some p" "p_filetable p = Some ft"
      by (auto simp: cur_filetable_def bind_eq_Some_conv)
    then have "get_proc (cur_proc s') s' = Some p"
      by (simp add: s' get_proc_def cur_proc_def)
    moreover have "t[nat k := Some q] ! nat k = Some q"
      using k len by (intro nth_list_update_eq) linarith
    ultimately have "filetable_findfile k s' = Some (0, Some q)"
      using p k len
      by (simp add: filetable_findfile_def s')
    then show ?thesis
      using ft t k len \<open>err = 0\<close> \<open>fd = k\<close> by (auto simp: slot_file_def)
  qed
qed

theorem filetable_placefile_lowest_witness:
  "\<exists>s. filetable_placefile (Some 5) file_demo = Some (0, 0, s) \<and> filetable_findfile 0 s = Some (0, Some 5)"
proof -
  have "\<exists>s. filetable_placefile (Some 5) file_demo = Some (0, 0, s)"
    by (simp add: filetable_placefile_def file_demo_def cur_filetable_def get_proc_def cur_proc_def set_fd_def first_free_demo)
  then show ?thesis
    using filetable_placefile_lowest [OF file_demo_wf, of 5 0 0] by auto
qed

end
