(* ===== verification/Nfs_Dev.thy ===== *)
theory Nfs_Dev
  imports Console
begin

text \<open>
  Reading, writing, listing and inspecting files on the server (dev/nfs_dev.c), the operations of
  a vnode that need it (vfs/vnode.h) and vfs_stat (vfs/vfs.c). Every operation sends a request
  and is continued by the handler of the answer.
\<close>

subsection \<open>Writing\<close>

definition nfs_dev_write :: "nat option \<Rightarrow> u32 \<Rightarrow> u32 \<Rightarrow> u32 \<Rightarrow> (int \<Rightarrow> u32 \<Rightarrow> 'k sos \<Rightarrow> 'k sos res) \<Rightarrow> 'k sos \<Rightarrow> 'k sos res" where
  "nfs_dev_write file buf nbytes offset callback s =
     (let (ok, s1) = malloc_ok s in
      if \<not> ok then callback ENOMEM 0 s1
      else do {
        pid \<leftarrow> proc_get_id s1;
        v \<leftarrow> get_vnode file s1;
        d \<leftarrow> vn_data v;
        nfs_call (NFS_Write (fst d) offset (mem_load buf (unat nbytes) s1)) (H_write \<lparr>nw_file = file, nw_pid = pid\<rparr> callback)
          (callback EFAULT 0) s1 })"

text \<open>
  The answer carries the new attributes of the file, which are stored before the status is
  looked at; a vnode without attributes, or an answer without, is a NULL access.
\<close>

definition set_fattr :: "nat option \<Rightarrow> fattr option \<Rightarrow> 'k sos \<Rightarrow> 'k sos option" where
  "set_fattr file fattr s = do {
     v \<leftarrow> get_vnode file s;
     (fh, old) \<leftarrow> vn_data v;
     _ \<leftarrow> old;
     a \<leftarrow> fattr;
     Some (put_vnode file (v\<lparr>vn_data := Some (fh, Some a)\<rparr>) s) }"

definition nfs_dev_write_handler :: "nfs_write_state \<Rightarrow> (int \<Rightarrow> u32 \<Rightarrow> 'k sos \<Rightarrow> 'k sos res) \<Rightarrow> nfs_reply
    \<Rightarrow> 'k sos \<Rightarrow> 'k sos res" where
  "nfs_dev_write_handler cont callback r s = do {
     wanted \<leftarrow> still_wanted (nw_pid cont) s;
     if wanted then do {
       s1 \<leftarrow> set_cur_proc (nw_pid cont) s;
       s2 \<leftarrow> set_fattr (nw_file cont) (nr_fattr r) s1;
       callback (if \<not> nr_ok r then EFAULT else 0) (word_of_int (nr_count r)) s2 }
     else callback EFAULT (word_of_int (nr_count r)) s }"

subsection \<open>Reading\<close>

definition nfs_dev_read_end :: "u32 \<Rightarrow> (int \<Rightarrow> u32 \<Rightarrow> bool \<Rightarrow> 'k sos \<Rightarrow> 'k sos res) \<Rightarrow> int \<Rightarrow> 'k sos \<Rightarrow> 'k sos res" where
  "nfs_dev_read_end cnt callback err s =
     (if err \<noteq> 0 then callback err 0 False s else callback 0 cnt (cnt \<noteq> 0) s)"

definition nfs_dev_read_handler :: "nfs_read_state \<Rightarrow> (int \<Rightarrow> u32 \<Rightarrow> bool \<Rightarrow> 'k sos \<Rightarrow> 'k sos res) \<Rightarrow> nfs_reply
    \<Rightarrow> 'k sos \<Rightarrow> 'k sos res" where
  "nfs_dev_read_handler cont callback r s = do {
     wanted \<leftarrow> still_wanted (nrd_pid cont) s;
     if \<not> wanted then nfs_dev_read_end 0 callback EFAULT s
     else do {
       s1 \<leftarrow> set_cur_proc (nrd_pid cont) s;
       if nr_ok r then do {
         s2 \<leftarrow> set_fattr (nrd_file cont) (nr_fattr r) s1;
         let (backup, s3) = malloc_buf s2;
         if backup = 0 then nfs_dev_read_end 0 callback ENOMEM s3
         else do {
           let cnt = (word_of_int (nr_count r) :: u32);
           let s4 = mem_store backup (take (unat cnt) (nr_data r)) s3;
           if_err (copyout (nrd_app_buf cont) backup cnt (nfs_dev_read_end cnt callback) s4)
             (nfs_dev_read_end cnt callback) } }
       else nfs_dev_read_end 0 callback EFAULT s1 } }"

definition nfs_dev_read :: "nat option \<Rightarrow> u32 \<Rightarrow> u32 \<Rightarrow> u32 \<Rightarrow> (int \<Rightarrow> u32 \<Rightarrow> bool \<Rightarrow> 'k sos \<Rightarrow> 'k sos res) \<Rightarrow> 'k sos
    \<Rightarrow> 'k sos res" where
  "nfs_dev_read file buf nbytes offset callback s =
     (let (ok, s1) = malloc_ok s in
      if \<not> ok then callback ENOMEM 0 False s1
      else do {
        pid \<leftarrow> proc_get_id s1;
        v \<leftarrow> get_vnode file s1;
        d \<leftarrow> vn_data v;
        nfs_call (NFS_Read (fst d) offset nbytes) (H_read \<lparr>nrd_file = file, nrd_app_buf = buf, nrd_pid = pid\<rparr> callback)
          (callback EFAULT 0 False) s1 })"

subsection \<open>Directories\<close>

text \<open>The length of the name, limited to \<open>n\<close>: the loop compares after it has read the character.\<close>

definition dirent_size :: "string \<Rightarrow> u32 \<Rightarrow> nat" where
  "dirent_size name nbyte = min (length name) (unat (nbyte - 1))"

definition nfs_dev_getdirent_done_copyout :: "int \<Rightarrow> u32 \<Rightarrow> (int \<Rightarrow> u32 \<Rightarrow> 'k sos \<Rightarrow> 'k sos res) \<Rightarrow> int
    \<Rightarrow> 'k sos \<Rightarrow> 'k sos res" where
  "nfs_dev_getdirent_done_copyout pid sz callback err s = do {
     wanted \<leftarrow> still_wanted pid s;
     s1 \<leftarrow> (if wanted then set_cur_proc pid s else Some s);
     let err' = (if wanted then err else EFAULT);
     if err' \<noteq> 0 then callback err' 0 s1 else callback 0 sz s1 }"

definition string_bytes :: "string \<Rightarrow> u8 list" where
  "string_bytes xs = map (\<lambda>c. word_of_nat (of_char c)) xs"

definition nfs_dev_getdirent_handler :: "nfs_getdirent_state \<Rightarrow> (int \<Rightarrow> u32 \<Rightarrow> 'k sos \<Rightarrow> 'k sos res) \<Rightarrow> nfs_reply
    \<Rightarrow> 'k sos \<Rightarrow> 'k sos res" where
  "nfs_dev_getdirent_handler cont callback r s = do {
     wanted \<leftarrow> still_wanted (ng_pid cont) s;
     if \<not> wanted then callback EFAULT 0 s
     else do {
       s1 \<leftarrow> set_cur_proc (ng_pid cont) s;
       let num_files = int (length (nr_names r));
       if \<not> nr_ok r then callback EFAULT 0 s1
       else if num_files > ng_pos cont then do {
         name \<leftarrow> rd (nr_names r) (ng_pos cont);
         let n = dirent_size name (ng_nbyte cont);
         let (buf, s2) = malloc_buf s1;
         if buf = 0 then callback ENOMEM (word_of_nat n) s2
         else do {
           let s3 = mem_store buf (string_bytes (take n name) @ [0]) s2;
           let sz = (word_of_nat (n + 1) :: u32);
           if_err (copyout (ng_app_buf cont) buf sz (nfs_dev_getdirent_done_copyout (ng_pid cont) sz callback) s3)
             (\<lambda>err. callback err sz) } }
       else if nr_cookie r = 0 then
         (if ng_pos cont = num_files + 1 then callback 0 0 s1 else callback EINVAL 0 s1)
       else do {
         let cont' = cont\<lparr>ng_pos := ng_pos cont - num_files\<rparr>;
         c_assert (ng_pos cont' \<ge> 0);
         nfs_call (NFS_Readdir (mnt_point s1) (nr_cookie r)) (H_getdirent cont' callback) (callback 0 0) s1 } } }"

definition nfs_dev_getdirent :: "nat option \<Rightarrow> u32 \<Rightarrow> u32 \<Rightarrow> int \<Rightarrow> (int \<Rightarrow> u32 \<Rightarrow> 'k sos \<Rightarrow> 'k sos res) \<Rightarrow> 'k sos
    \<Rightarrow> 'k sos res" where
  "nfs_dev_getdirent dir buf nbyte pos callback s =
     (let (ok, s1) = malloc_ok s in
      if \<not> ok then callback ENOMEM 0 s1
      else do {
        pid \<leftarrow> proc_get_id s1;
        nfs_call (NFS_Readdir (mnt_point s1) 0)
          (H_getdirent \<lparr>ng_pos = pos, ng_nbyte = nbyte, ng_app_buf = buf, ng_pid = pid\<rparr> callback)
          (callback EFAULT 0) s1 })"

subsection \<open>Attributes\<close>

text \<open>The bytes of a \<^verbatim>\<open>sos_stat_t\<close>: five words, least significant byte first.\<close>

abbreviation (input) SIZEOF_SOS_STAT :: u32 where "SIZEOF_SOS_STAT \<equiv> 20"

definition word_bytes :: "u32 \<Rightarrow> u8 list" where
  "word_bytes w = [ucast w, ucast (drop_bit 8 w), ucast (drop_bit 16 w), ucast (drop_bit 24 w)]"

definition stat_bytes :: "sos_stat \<Rightarrow> u8 list" where
  "stat_bytes t = word_bytes (word_of_int (st_type t)) @ word_bytes (st_mode t) @ word_bytes (st_size t)
     @ word_bytes (fst (st_mtime t)) @ word_bytes (snd (st_mtime t))"

definition fattr_stat :: "fattr \<Rightarrow> sos_stat" where
  "fattr_stat a = \<lparr>st_type = ST_FILE, st_mode = fa_mode a, st_size = fa_size a, st_mtime = fa_mtime a\<rparr>"

definition nfs_dev_stat_copyout_cb :: "int \<Rightarrow> (int \<Rightarrow> 'k sos \<Rightarrow> 'k sos res) \<Rightarrow> int \<Rightarrow> 'k sos \<Rightarrow> 'k sos res" where
  "nfs_dev_stat_copyout_cb pid callback err s = do {
     wanted \<leftarrow> still_wanted pid s;
     s1 \<leftarrow> (if wanted then set_cur_proc pid s else Some s);
     callback (if wanted then err else EFAULT) s1 }"

text \<open>
  The code passes the address of its pointer, not of the structure: what is copied to the
  process are the 20 bytes of the stack at that address.
\<close>

definition nfs_dev_stat :: "u32 \<Rightarrow> nat option \<Rightarrow> u32 \<Rightarrow> (int \<Rightarrow> 'k sos \<Rightarrow> 'k sos res) \<Rightarrow> 'k sos \<Rightarrow> ('k sos, int) res_val" where
  "nfs_dev_stat stack_slot file buf callback s =
     (if file = None then Some (EFAULT, s, [])
      else do {
        v \<leftarrow> get_vnode file s;
        case vn_data v of None \<Rightarrow> Some (EFAULT, s, [])
        | Some (fh, fattr) \<Rightarrow> do {
            let (stat, s1) = malloc_buf s;
            if stat = 0 then Some (ENOMEM, s1, [])
            else do {
              a \<leftarrow> fattr;
              let s2 = mem_store stack_slot (word_bytes stat) (mem_store stat (stat_bytes (fattr_stat a)) s1);
              let (ok, s3) = malloc_ok s2;
              if \<not> ok then Some (ENOMEM, s3, [])
              else do {
                pid \<leftarrow> proc_get_id s3;
                copyout buf stack_slot SIZEOF_SOS_STAT (nfs_dev_stat_copyout_cb pid callback) s3 } } } })"

definition nfs_dev_getstat_lookup_end :: "nfs_getstat_state \<Rightarrow> (int \<Rightarrow> 'k sos \<Rightarrow> 'k sos res) \<Rightarrow> int \<Rightarrow> 'k sos \<Rightarrow> 'k sos res" where
  "nfs_dev_getstat_lookup_end cont callback err s = nfs_dev_stat_copyout_cb (ns_pid cont) callback err s"

definition nfs_dev_getstat_lookup_cb :: "nfs_getstat_state \<Rightarrow> (int \<Rightarrow> 'k sos \<Rightarrow> 'k sos res) \<Rightarrow> nfs_reply
    \<Rightarrow> 'k sos \<Rightarrow> 'k sos res" where
  "nfs_dev_getstat_lookup_cb cont callback r s = do {
     wanted \<leftarrow> still_wanted (ns_pid cont) s;
     if \<not> wanted then nfs_dev_getstat_lookup_end cont callback EFAULT s
     else do {
       s1 \<leftarrow> set_cur_proc (ns_pid cont) s;
       if \<not> nr_ok r then nfs_dev_getstat_lookup_end cont callback EFAULT s1
       else do {
         let (stat, s2) = malloc_buf s1;
         if stat = 0 then nfs_dev_getstat_lookup_end cont callback ENOMEM s2
         else do {
           a \<leftarrow> nr_fattr r;
           let st = fattr_stat a;
           let st' = (if ns_path cont = ''swap'' then st\<lparr>st_mode := 0\<rparr> else st);
           (_, s3, ts) \<leftarrow> copyout (ns_stat_buf cont) stat SIZEOF_SOS_STAT (nfs_dev_getstat_lookup_end cont callback)
             (mem_store stat (stat_bytes st') s2);
           Some (s3, ts) } } } }"

text \<open>A refused request is reported through the same handler, as an answer that is not good.\<close>

definition nfs_refused :: nfs_reply where
  "nfs_refused = \<lparr>nr_ok = False, nr_fh = 0, nr_fattr = None, nr_count = 0, nr_data = [], nr_names = [], nr_cookie = 0\<rparr>"

definition nfs_dev_getstat :: "string \<Rightarrow> u32 \<Rightarrow> (int \<Rightarrow> 'k sos \<Rightarrow> 'k sos res) \<Rightarrow> 'k sos \<Rightarrow> 'k sos res" where
  "nfs_dev_getstat path buf callback s = do {
     c_assert (buf \<noteq> 0);
     let (ok, s1) = malloc_ok s;
     if \<not> ok then callback ENOMEM s1
     else do {
       pid \<leftarrow> proc_get_id s1;
       let cont = \<lparr>ns_stat_buf = buf, ns_path = path, ns_pid = pid\<rparr>;
       nfs_call (NFS_Lookup (mnt_point s1) path) (H_getstat_lookup cont callback)
         (nfs_dev_getstat_lookup_cb cont callback nfs_refused) s1 } }"

subsection \<open>Operations of a vnode\<close>

definition VOP_READ :: "nat option \<Rightarrow> u32 \<Rightarrow> u32 \<Rightarrow> u32 \<Rightarrow> (int \<Rightarrow> u32 \<Rightarrow> bool \<Rightarrow> 'k sos \<Rightarrow> 'k sos res) \<Rightarrow> 'k
    \<Rightarrow> 'k sos \<Rightarrow> 'k sos res" where
  "VOP_READ vn buf nbytes offset callback k s = do {
     v \<leftarrow> get_vnode vn s;
     case vn_ops v of Ops_None \<Rightarrow> None
     | Ops_Console \<Rightarrow> con_read vn buf nbytes offset callback k s
     | Ops_NFS \<Rightarrow> nfs_dev_read vn buf nbytes offset callback s }"

definition VOP_WRITE :: "nat option \<Rightarrow> u32 \<Rightarrow> u32 \<Rightarrow> u32 \<Rightarrow> (int \<Rightarrow> u32 \<Rightarrow> 'k sos \<Rightarrow> 'k sos res)
    \<Rightarrow> 'k sos \<Rightarrow> 'k sos res" where
  "VOP_WRITE vn buf nbytes offset callback s = do {
     v \<leftarrow> get_vnode vn s;
     case vn_ops v of Ops_None \<Rightarrow> None
     | Ops_Console \<Rightarrow> con_write vn buf nbytes callback s
     | Ops_NFS \<Rightarrow> nfs_dev_write vn buf nbytes offset callback s }"

text \<open>The console has no \<^verbatim>\<open>getdirent\<close> and no \<^verbatim>\<open>stat\<close>: its entries are NULL and a call aborts.\<close>

definition VOP_GETDIRENT :: "nat option \<Rightarrow> u32 \<Rightarrow> u32 \<Rightarrow> int \<Rightarrow> (int \<Rightarrow> u32 \<Rightarrow> 'k sos \<Rightarrow> 'k sos res)
    \<Rightarrow> 'k sos \<Rightarrow> 'k sos res" where
  "VOP_GETDIRENT vn buf nbyte pos callback s = do {
     v \<leftarrow> get_vnode vn s;
     case vn_ops v of Ops_None \<Rightarrow> None
     | Ops_Console \<Rightarrow> None
     | Ops_NFS \<Rightarrow> nfs_dev_getdirent vn buf nbyte pos callback s }"

definition VOP_STAT :: "u32 \<Rightarrow> nat option \<Rightarrow> u32 \<Rightarrow> (int \<Rightarrow> 'k sos \<Rightarrow> 'k sos res) \<Rightarrow> 'k sos \<Rightarrow> ('k sos, int) res_val" where
  "VOP_STAT stack_slot vn buf callback s = do {
     v \<leftarrow> get_vnode vn s;
     case vn_ops v of Ops_None \<Rightarrow> None
     | Ops_Console \<Rightarrow> None
     | Ops_NFS \<Rightarrow> nfs_dev_stat stack_slot vn buf callback s }"

definition vfs_stat :: "u32 \<Rightarrow> string \<Rightarrow> u32 \<Rightarrow> (int \<Rightarrow> 'k sos \<Rightarrow> 'k sos res) \<Rightarrow> 'k sos \<Rightarrow> 'k sos res" where
  "vfs_stat stack_slot path buf callback s =
     (let (ok, s1) = malloc_ok s in
      if \<not> ok then callback ENOMEM s1
      else do {
        vn \<leftarrow> vfs_vnt_lookup path s1;
        if vn \<noteq> None then if_err (VOP_STAT stack_slot vn buf callback s1) callback
        else nfs_dev_getstat path buf callback s1 })"

end
