(* ===== verification/Elf_Load.thy ===== *)
theory Elf_Load
  imports Nfs_Dev
begin

text \<open>
  Loading a program (vm/elf.c): the file is looked up on the server, its ELF header and its program
  headers are read and checked, and each loadable segment becomes a region whose contents are
  read page by page. All of this is a chain of requests to the file server.
\<close>

abbreviation (input) PT_LOAD :: u32 where "PT_LOAD \<equiv> 1"
abbreviation (input) SIZEOF_ELF32_HEADER :: int where "SIZEOF_ELF32_HEADER \<equiv> 52"
abbreviation (input) SIZEOF_ELF32_PHDR :: nat where "SIZEOF_ELF32_PHDR \<equiv> 32"

subsection \<open>Headers\<close>

text \<open>Numbers in memory, least significant byte first. Reading past the end aborts.\<close>

definition le16 :: "u8 list \<Rightarrow> nat \<Rightarrow> u32 option" where
  "le16 d i = (if i + 2 \<le> length d then Some (ucast (d ! i) OR push_bit 8 (ucast (d ! (i + 1)))) else None)"

definition le32 :: "u8 list \<Rightarrow> nat \<Rightarrow> u32 option" where
  "le32 d i = (if i + 4 \<le> length d
     then Some (ucast (d ! i) OR push_bit 8 (ucast (d ! (i + 1))) OR push_bit 16 (ucast (d ! (i + 2)))
       OR push_bit 24 (ucast (d ! (i + 3)))) else None)"

definition elf_magic :: "u8 list \<Rightarrow> bool" where
  "elf_magic d \<longleftrightarrow> take 4 d = [0x7f, 0x45, 0x4c, 0x46]"

definition elf32_checkFile :: "u8 list \<Rightarrow> int" where
  "elf32_checkFile d = (if \<not> elf_magic d then - 1 else if d ! 4 \<noteq> 1 then - 2 else 0)"

definition elf64_checkFile :: "u8 list \<Rightarrow> int" where
  "elf64_checkFile d = (if \<not> elf_magic d then - 1 else if d ! 4 \<noteq> 2 then - 2 else 0)"

definition elf_checkFile :: "u8 list \<Rightarrow> int" where
  "elf_checkFile d = (if d ! 4 = 1 then elf32_checkFile d else elf64_checkFile d)"

record elf32_phdr =
  p_type :: u32
  p_offset :: u32
  p_vaddr :: u32
  p_filesz :: u32
  p_memsz :: u32
  p_flags :: u32

definition prog_hdr :: "u8 list \<Rightarrow> int \<Rightarrow> elf32_phdr option" where
  "prog_hdr d i = do {
     c_assert (i \<ge> 0);
     let at = SIZEOF_ELF32_PHDR * nat i;
     t \<leftarrow> le32 d at;
     off \<leftarrow> le32 d (at + 4);
     va \<leftarrow> le32 d (at + 8);
     fsz \<leftarrow> le32 d (at + 16);
     msz \<leftarrow> le32 d (at + 20);
     fl \<leftarrow> le32 d (at + 24);
     Some \<lparr>p_type = t, p_offset = off, p_vaddr = va, p_filesz = fsz, p_memsz = msz, p_flags = fl\<rparr> }"

definition get_sel4_rights_from_elf :: "u32 \<Rightarrow> u32" where
  "get_sel4_rights_from_elf permissions =
     (let r1 = (if permissions AND 4 \<noteq> 0 then 2 else 0);
          r2 = (if permissions AND 1 \<noteq> 0 then r1 OR 2 else r1)
      in if permissions AND 2 \<noteq> 0 then r2 OR 1 else r2)"

subsection \<open>Loading one segment\<close>

text \<open>
  The segment is read piece by piece. A page that is not there yet is mapped first, and the
  function continues as the callback of the mapping; the page is there when that callback is
  run without an error, so two rounds are enough. The result of the mapping call itself is not
  looked at.
\<close>

fun load_segment2 :: "nat \<Rightarrow> load_segment_cont \<Rightarrow> (int \<Rightarrow> 'k sos \<Rightarrow> 'k sos res) \<Rightarrow> int \<Rightarrow> 'k sos \<Rightarrow> 'k sos res" where
  "load_segment2 0 cont callback err s = None"
| "load_segment2 (Suc n) cont callback err s =
     (if err \<noteq> 0 then callback err s
      else if ls_pos cont < ls_file_size cont then do {
        let vpage = PAGE_ALIGN (ls_dst cont);
        inuse \<leftarrow> sos_page_is_inuse (ls_as cont) vpage s;
        if \<not> inuse then do {
          s1 \<leftarrow> inc_proc_size_proc (ls_proc cont) s;
          (_, s2, ts) \<leftarrow> sos_page_map (ls_pid cont) (ls_as cont) vpage (ls_permissions cont)
            (load_segment2 n cont callback) False s1;
          Some (s2, ts) }
        else do {
          (err', kdst) \<leftarrow> sos_get_kvaddr (ls_as cont) (ls_dst cont) s;
          if err' \<noteq> 0 then callback err' s
          else do {
            (_, s1) \<leftarrow> frame_lock_frame kdst s;
            let wanna = min (min NFS_SEND_SIZE (ls_file_size cont - ls_pos cont)) (PAGE_SIZE - PAGE_OFFSET (ls_dst cont));
            nfs_call (NFS_Read (ls_fh cont) (ls_file_offset cont + ls_pos cont) wanna)
              (H_load_segment (cont\<lparr>ls_wanna_read := wanna\<rparr>) callback) (callback EFAULT) s1 } } }
      else callback 0 s)"

abbreviation (input) SEGMENT_ROUNDS :: nat where "SEGMENT_ROUNDS \<equiv> 2"

definition load_segment3 :: "load_segment_cont \<Rightarrow> (int \<Rightarrow> 'k sos \<Rightarrow> 'k sos res) \<Rightarrow> nfs_reply \<Rightarrow> 'k sos \<Rightarrow> 'k sos res" where
  "load_segment3 cont callback r s =
     (if \<not> nr_ok r then callback EFAULT s
      else do {
        (err, kdst) \<leftarrow> sos_get_kvaddr (ls_as cont) (ls_dst cont) s;
        if err \<noteq> 0 then callback err s
        else do {
          let cnt = (word_of_int (nr_count r) :: u32);
          let s1 = (if ls_pos cont < ls_file_size cont then mem_store kdst (take (unat cnt) (nr_data r)) s else s);
          let cont' = cont\<lparr>ls_pos := ls_pos cont + cnt, ls_dst := ls_dst cont + cnt\<rparr>;
          if PAGE_ALIGN kdst \<noteq> PAGE_ALIGN (kdst + cnt) \<or> ls_dst cont + ls_pos cont \<ge> ls_file_size cont then do {
            (_, s2) \<leftarrow> frame_unlock_frame kdst s1;
            (err', sos_cap) \<leftarrow> sos_get_kframe_cap (ls_as cont) (PAGE_ALIGN (ls_dst cont)) s2;
            if err' \<noteq> 0 then callback err' s2
            else let (_, s3) = kernel (Page_Unify_Instruction sos_cap) s2
              in load_segment2 SEGMENT_ROUNDS cont' callback 0 s3 }
          else load_segment2 SEGMENT_ROUNDS cont' callback 0 s1 } })"

definition load_segment :: "int \<Rightarrow> nat option \<Rightarrow> u32 \<Rightarrow> u32 \<Rightarrow> u32 \<Rightarrow> u32 \<Rightarrow> u32 \<Rightarrow> nat option \<Rightarrow> u32
    \<Rightarrow> (int \<Rightarrow> 'k sos \<Rightarrow> 'k sos res) \<Rightarrow> 'k sos \<Rightarrow> ('k sos, int) res_val" where
  "load_segment pid as file_offset segment_size file_size dst permissions proc fh callback s =
     (let (ok, s1) = malloc_ok s in
      if \<not> ok then Some (ENOMEM, s1, [])
      else with_val 0 (load_segment2 SEGMENT_ROUNDS
        \<lparr>ls_pid = pid, ls_as = as, ls_file_offset = file_offset, ls_segment_size = segment_size,
         ls_file_size = file_size, ls_dst = dst, ls_permissions = permissions, ls_pos = 0, ls_wanna_read = 0,
         ls_proc = proc, ls_fh = fh\<rparr> callback 0 s1))"

subsection \<open>Loading a program\<close>

definition elf_load_end :: "elf_load_cont \<Rightarrow> (int \<Rightarrow> u32 \<Rightarrow> 'k sos \<Rightarrow> 'k sos res) \<Rightarrow> int \<Rightarrow> 'k sos \<Rightarrow> 'k sos res" where
  "elf_load_end cont callback err s = callback err (if err \<noteq> 0 then 0 else el_elf_entry cont) s"

text \<open>Each round uses up one program header, so one round more than there are headers is enough.\<close>

fun elf_load_load_segments :: "nat \<Rightarrow> elf_load_cont \<Rightarrow> (int \<Rightarrow> u32 \<Rightarrow> 'k sos \<Rightarrow> 'k sos res) \<Rightarrow> int
    \<Rightarrow> 'k sos \<Rightarrow> 'k sos res" where
  "elf_load_load_segments 0 cont callback err s = None"
| "elf_load_load_segments (Suc n) cont callback err s =
     (if err \<noteq> 0 then elf_load_end cont callback err s
      else if el_i cont < el_ph_num cont then do {
        h \<leftarrow> prog_hdr (el_prog_hdrs cont) (el_i cont);
        let cont' = cont\<lparr>el_i := el_i cont + 1\<rparr>;
        if p_type h \<noteq> PT_LOAD then elf_load_load_segments n cont' callback 0 s
        else do {
          let rights = get_sel4_rights_from_elf (p_flags h) AND seL4_AllRights;
          (err', s1) \<leftarrow> as_define_region (el_as cont) (p_vaddr h) (p_memsz h) rights s;
          if err' \<noteq> 0 then elf_load_end cont callback err' s1
          else if_err (load_segment (el_pid cont) (el_as cont) (p_offset h) (p_memsz h) (p_filesz h) (p_vaddr h) rights
              (el_proc cont) (el_fh cont) (elf_load_load_segments n cont' callback) s1)
            (elf_load_end cont' callback) } }
      else elf_load_end cont callback 0 s)"

definition elf_load_read_progheaders_cb :: "elf_load_cont \<Rightarrow> (int \<Rightarrow> u32 \<Rightarrow> 'k sos \<Rightarrow> 'k sos res) \<Rightarrow> nfs_reply
    \<Rightarrow> 'k sos \<Rightarrow> 'k sos res" where
  "elf_load_read_progheaders_cb cont callback r s =
     (if \<not> nr_ok r \<or> nr_count r \<noteq> el_ph_size cont * el_ph_num cont then elf_load_end cont callback EFAULT s
      else let (ok, s1) = malloc_ok s in
        if \<not> ok then elf_load_end cont callback ENOMEM s1
        else elf_load_load_segments (nat (el_ph_num cont) + 1)
          (cont\<lparr>el_prog_hdrs := take (nat (el_ph_num cont * el_ph_size cont)) (nr_data r)\<rparr>) callback 0 s1)"

definition elf_load_read_elfheader_cb :: "elf_load_cont \<Rightarrow> (int \<Rightarrow> u32 \<Rightarrow> 'k sos \<Rightarrow> 'k sos res) \<Rightarrow> nfs_reply
    \<Rightarrow> 'k sos \<Rightarrow> 'k sos res" where
  "elf_load_read_elfheader_cb cont callback r s =
     (if \<not> nr_ok r \<or> nr_count r \<noteq> SIZEOF_ELF32_HEADER then elf_load_end cont callback EFAULT s
      else if elf_checkFile (nr_data r) \<noteq> 0 then elf_load_end cont callback EINVAL s
      else do {
        ph_off \<leftarrow> le32 (nr_data r) 28;
        ph_num \<leftarrow> le16 (nr_data r) 44;
        ph_size \<leftarrow> le16 (nr_data r) 42;
        entry \<leftarrow> le32 (nr_data r) 24;
        let cont' = cont\<lparr>el_ph_num := uint ph_num, el_ph_size := uint ph_size, el_elf_entry := entry\<rparr>;
        nfs_call (NFS_Read (el_fh cont) ph_off (ph_size * ph_num)) (H_elf_progheaders cont' callback)
          (elf_load_end cont' callback EFAULT) s })"

definition elf_load_lookup_cb :: "elf_load_cont \<Rightarrow> (int \<Rightarrow> u32 \<Rightarrow> 'k sos \<Rightarrow> 'k sos res) \<Rightarrow> nfs_reply
    \<Rightarrow> 'k sos \<Rightarrow> 'k sos res" where
  "elf_load_lookup_cb cont callback r s =
     (if \<not> nr_ok r then elf_load_end cont callback EFAULT s
      else let (ok, s1) = malloc_ok s in
        if \<not> ok then elf_load_end cont callback ENOMEM s1
        else let cont' = cont\<lparr>el_fh := nr_fh r\<rparr> in
          nfs_call (NFS_Read (nr_fh r) 0 (word_of_int SIZEOF_ELF32_HEADER)) (H_elf_header cont' callback)
            (elf_load_end cont' callback EFAULT) s1)"

definition elf_load :: "int \<Rightarrow> nat option \<Rightarrow> string \<Rightarrow> nat option \<Rightarrow> (int \<Rightarrow> u32 \<Rightarrow> 'k sos \<Rightarrow> 'k sos res)
    \<Rightarrow> 'k sos \<Rightarrow> 'k sos res" where
  "elf_load pid as file_name proc callback s =
     (let (ok, s1) = malloc_ok s in
      if \<not> ok then callback ENOMEM 0 s1
      else let cont = \<lparr>el_i = 0, el_pid = pid, el_as = as, el_file_name = file_name, el_proc = proc, el_fh = 0,
             el_elf_entry = 0, el_prog_hdrs = [], el_ph_num = 0, el_ph_size = 0\<rparr>
        in nfs_call (NFS_Lookup (mnt_point s1) file_name) (H_elf_lookup cont callback)
             (elf_load_end cont callback EFAULT) s1)"

end
