(* ===== verification/Process.thy ===== *)
theory Process
  imports Elf_Load File_Table
begin

text \<open>
  Creating, destroying and waiting for processes (proc/proc.c). A process gets a slot, its kernel
  objects, an address space, its program, a stack, a heap and a file table, in this order; every
  failure on the way gives back what the process has got so far.
\<close>

abbreviation (input) USER_PRIORITY :: u32 where "USER_PRIORITY \<equiv> 0"
abbreviation (input) USER_EP_BADGE :: u32 where "USER_EP_BADGE \<equiv> 0x4000000"
abbreviation (input) PROCESS_STACK_TOP :: u32 where "PROCESS_STACK_TOP \<equiv> 0x90000000"
abbreviation (input) PROCESS_STACK_SIZE :: int where "PROCESS_STACK_SIZE \<equiv> 16777216"
abbreviation (input) PROCESS_IPC_BUFFER :: u32 where "PROCESS_IPC_BUFFER \<equiv> 0xA0000000"

subsection \<open>Freeing what a process has\<close>

definition del_cap :: "u32 \<Rightarrow> 'k sos \<Rightarrow> 'k sos option" where
  "del_cap cap s = (if cap \<noteq> 0 then do { (_, s1) \<leftarrow> cspace_delete_cap (cur_cspace s) cap s; Some s1 } else Some s)"

definition free_ut :: "u32 \<Rightarrow> nat \<Rightarrow> 'k sos \<Rightarrow> 'k sos option" where
  "free_ut a sb s = (if a \<noteq> 0 then env_ut_free a sb s else Some s)"

definition free_proc_data :: "'k process \<Rightarrow> 'k sos \<Rightarrow> 'k sos option" where
  "free_proc_data p s = do {
     s1 \<leftarrow> (if p_filetable p \<noteq> None then filetable_destroy (p_filetable p) s else Some s);
     s2 \<leftarrow> (if proc_as p \<noteq> None then as_destroy (proc_as p) s1 else Some s1);
     s3 \<leftarrow> del_cap (tcb_cap p) s2;
     s4 \<leftarrow> free_ut (tcb_addr p) seL4_TCBBits s3;
     s5 \<leftarrow> del_cap (ipc_buffer_cap p) s4;
     s6 \<leftarrow> free_ut (ipc_buffer_addr p) seL4_PageBits s5;
     s7 \<leftarrow> del_cap (vroot p) s6;
     s8 \<leftarrow> free_ut (vroot_addr p) seL4_PageDirBits s7;
     if croot p \<noteq> None then do { (_, s9) \<leftarrow> cspace_destroy (croot p) s8; Some s9 } else Some s8 }"

definition free_proc :: "nat option \<Rightarrow> 'k sos \<Rightarrow> 'k sos" where
  "free_proc p s = (case p of None \<Rightarrow> s | Some q \<Rightarrow> s\<lparr>proc_store := (proc_store s)(q := None)\<rparr>)"

subsection \<open>Creating a process\<close>

definition proc_create_end :: "nat option \<Rightarrow> (int \<Rightarrow> int \<Rightarrow> 'k sos \<Rightarrow> 'k sos res) \<Rightarrow> int \<Rightarrow> 'k sos \<Rightarrow> 'k sos res" where
  "proc_create_end proc callback err s =
     (if err \<noteq> 0 then
        if proc \<noteq> None then do {
          p \<leftarrow> get_proc proc s;
          s1 \<leftarrow> free_proc_slot (proc_pid p) s;
          s2 \<leftarrow> free_proc_data p s1;
          callback err (- 1) (free_proc proc s2) }
        else callback err (- 1) s
      else do {
        p \<leftarrow> get_proc proc s;
        callback err (proc_pid p) (put_proc proc (p\<lparr>p_initialised := True\<rparr>) s) })"

definition proc_create_part4 :: "nat option \<Rightarrow> u32 \<Rightarrow> (int \<Rightarrow> int \<Rightarrow> 'k sos \<Rightarrow> 'k sos res) \<Rightarrow> int \<Rightarrow> 'k sos \<Rightarrow> 'k sos res" where
  "proc_create_part4 proc elf_entry callback err s =
     (if err \<noteq> 0 then proc_create_end proc callback err s
      else do {
        p \<leftarrow> get_proc proc s;
        let (_, s1) = kernel (TCB_WriteRegisters (tcb_cap p) elf_entry PROCESS_STACK_TOP) s;
        proc_create_end proc callback 0 s1 })"

definition proc_create_part3 :: "nat option \<Rightarrow> (int \<Rightarrow> int \<Rightarrow> 'k sos \<Rightarrow> 'k sos res) \<Rightarrow> int \<Rightarrow> u32 \<Rightarrow> 'k sos \<Rightarrow> 'k sos res" where
  "proc_create_part3 proc callback err elf_entry s =
     (if err \<noteq> 0 then proc_create_end proc callback err s
      else do {
        p \<leftarrow> get_proc proc s;
        (_, s1) \<leftarrow> as_define_stack (proc_as p) PROCESS_STACK_TOP PROCESS_STACK_SIZE s;
        a1 \<leftarrow> get_as (proc_as p) s1;
        if as_stack a1 = None then proc_create_end proc callback EFAULT s1
        else do {
          (_, s2) \<leftarrow> as_define_heap (proc_as p) s1;
          a2 \<leftarrow> get_as (proc_as p) s2;
          if as_heap a2 = None then proc_create_end proc callback EFAULT s2
          else do {
            (err', s3) \<leftarrow> map_page (ipc_buffer_cap p) (vroot p) PROCESS_IPC_BUFFER seL4_AllRights s2;
            if err' \<noteq> 0 then proc_create_end proc callback EFAULT s3
            else do {
              s4 \<leftarrow> inc_proc_size_proc proc s3;
              let (ft, s5) = malloc s4;
              p' \<leftarrow> get_proc proc s5;
              let s6 = put_proc proc (p'\<lparr>p_filetable := ft\<rparr>) s5;
              if ft = None then proc_create_end proc callback ENOMEM s6
              else if_err (filetable_init ft (proc_create_part4 proc elf_entry callback) s6)
                (proc_create_end proc callback) } } } })"

definition proc_create_part2 :: "nat option \<Rightarrow> (int \<Rightarrow> int \<Rightarrow> 'k sos \<Rightarrow> 'k sos res) \<Rightarrow> nat option \<Rightarrow> 'k sos \<Rightarrow> 'k sos res" where
  "proc_create_part2 proc callback as s =
     (if as = None then proc_create_end proc callback EFAULT s
      else do {
        p \<leftarrow> get_proc proc s;
        nm \<leftarrow> proc_name p;
        elf_load (proc_pid p) as nm proc (proc_create_part3 proc callback) (put_proc proc (p\<lparr>proc_as := as\<rparr>) s) })"

text \<open>
  The kernel objects of a new process, one after the other: each step stores what it has got in
  the process structure, so that the error path can give it back.
\<close>

definition set_proc :: "nat option \<Rightarrow> ('k process \<Rightarrow> 'k process) \<Rightarrow> 'k sos \<Rightarrow> 'k sos option" where
  "set_proc proc f s = do { p \<leftarrow> get_proc proc s; Some (put_proc proc (f p) s) }"

text \<open>
  Memory of the given size for a kernel object, and the capability to the object. The value is
  0, or the error that \<^verbatim>\<open>proc_create\<close> reports; \<open>fa\<close> and \<open>fc\<close> store the address and the
  capability.
\<close>

definition proc_object :: "nat option \<Rightarrow> kobject \<Rightarrow> nat \<Rightarrow> (u32 \<Rightarrow> 'k process \<Rightarrow> 'k process)
    \<Rightarrow> (u32 \<Rightarrow> 'k process \<Rightarrow> 'k process) \<Rightarrow> 'k sos \<Rightarrow> (int \<times> 'k sos) option" where
  "proc_object proc ty sb fa fc s = do {
     (addr, s1) \<leftarrow> env_ut_alloc sb s;
     s2 \<leftarrow> set_proc proc (fa addr) s1;
     if addr = 0 then Some (ENOMEM, s2)
     else do {
       (err, cap, s3) \<leftarrow> cspace_ut_retype_addr addr ty sb (cur_cspace s2) s2;
       s4 \<leftarrow> (case cap of None \<Rightarrow> Some s3 | Some c \<Rightarrow> set_proc proc (fc c) s3);
       Some (if err \<noteq> 0 then EFAULT else 0, s4) } }"

definition proc_objects :: "nat option \<Rightarrow> u32 \<Rightarrow> 'k sos \<Rightarrow> (int \<times> 'k sos) option" where
  "proc_objects proc fault_ep s = do {
     (err1, s1) \<leftarrow> proc_object proc PageDirectoryObject seL4_PageDirBits
       (\<lambda>a p. p\<lparr>vroot_addr := a\<rparr>) (\<lambda>c p. p\<lparr>vroot := c\<rparr>) s;
     if err1 \<noteq> 0 then Some (err1, s1)
     else do {
       (cr, s2) \<leftarrow> cspace_create 1 s1;
       s3 \<leftarrow> set_proc proc (\<lambda>p. p\<lparr>croot := cr\<rparr>) s2;
       if cr = None then Some (EFAULT, s3)
       else do {
         (err2, s4) \<leftarrow> proc_object proc SmallPageObject seL4_PageBits
           (\<lambda>a p. p\<lparr>ipc_buffer_addr := a\<rparr>) (\<lambda>c p. p\<lparr>ipc_buffer_cap := c\<rparr>) s3;
         if err2 \<noteq> 0 then Some (err2, s4)
         else do {
           p4 \<leftarrow> get_proc proc s4;
           (user_ep_cap, s5) \<leftarrow> cspace_mint_cap cr (cur_cspace s4) fault_ep seL4_AllRights
             (CapBadge (USER_EP_BADGE OR word_of_int (proc_pid p4))) s4;
           (err3, s6) \<leftarrow> proc_object proc TCBObject seL4_TCBBits
             (\<lambda>a p. p\<lparr>tcb_addr := a\<rparr>) (\<lambda>c p. p\<lparr>tcb_cap := c\<rparr>) s5;
           if err3 \<noteq> 0 then Some (err3, s6)
           else do {
             p \<leftarrow> get_proc proc s6;
             c \<leftarrow> get_cspace cr s6;
             let (err4, s7) = kernel (TCB_Configure (tcb_cap p) user_ep_cap USER_PRIORITY (cs_root_cnode c) (vroot p)
               PROCESS_IPC_BUFFER (ipc_buffer_cap p)) s6;
             Some (if err4 \<noteq> 0 then EFAULT else 0, s7) } } } } }"

definition new_process :: "u32 \<Rightarrow> u32 \<Rightarrow> 'k process" where
  "new_process len stime = \<lparr>tcb_addr = 0, tcb_cap = 0, vroot_addr = 0, vroot = 0, ipc_buffer_addr = 0, ipc_buffer_cap = 0,
     croot = None, proc_as = None, proc_pid = - 1, proc_size = 0, proc_stime = stime, proc_name = None,
     proc_name_len = len, p_filetable = None, p_wait_queue = [], p_initialised = False\<rparr>"

text \<open>The slot of a new process is taken from the head of the free list.\<close>

definition take_proc_slot :: "nat \<Rightarrow> 'k sos \<Rightarrow> 'k sos option" where
  "take_proc_slot q s = do {
     let i = first_free_pslot s;
     ps \<leftarrow> wr (processes s) i (Some q);
     pid \<leftarrow> rd (next_free_pid s) i;
     np \<leftarrow> wr (next_free_pid s) i (cal_next_free_pid pid i);
     nxt \<leftarrow> rd (next_free_pslot s) i;
     nf \<leftarrow> wr (next_free_pslot s) i (- 1);
     set_proc (Some q) (\<lambda>p. p\<lparr>proc_pid := pid\<rparr>)
       (s\<lparr>processes := ps, next_free_pid := np, first_free_pslot := nxt, next_free_pslot := nf\<rparr>) }"

definition proc_create :: "string \<Rightarrow> u32 \<Rightarrow> u32 \<Rightarrow> (int \<Rightarrow> int \<Rightarrow> 'k sos \<Rightarrow> 'k sos res) \<Rightarrow> 'k sos \<Rightarrow> 'k sos res" where
  "proc_create path len fault_ep callback s =
     (let (ok, s1) = malloc_ok s in
      if \<not> ok then callback ENOMEM (- 1) s1
      else let (proc, s2) = malloc s1 in
        case proc of None \<Rightarrow> proc_create_end None callback ENOMEM s2
        | Some q \<Rightarrow> do {
            let s3 = put_proc proc (new_process len (ucast (time_stamp (sos_clock s2)) div 1000)) s2;
            if first_free_pslot s3 = - 1 then proc_create_end proc callback EFAULT s3
            else do {
              s4 \<leftarrow> take_proc_slot q s3;
              let (ok2, s5) = malloc_ok s4;
              if \<not> ok2 then proc_create_end proc callback ENOMEM s5
              else do {
                s6 \<leftarrow> set_proc proc (\<lambda>p. p\<lparr>proc_name := Some (take (unat len) path), proc_name_len := len\<rparr>) s5;
                (err, s7) \<leftarrow> proc_objects proc fault_ep s6;
                if err \<noteq> 0 then proc_create_end proc callback err s7
                else do {
                  p \<leftarrow> get_proc proc s7;
                  (_, s8, ts) \<leftarrow> as_create (vroot p) (proc_create_part2 proc callback) s7;
                  Some (s8, ts) } } } })"

subsection \<open>Destroying a process and waiting for one\<close>

text \<open>\<open>run\<close> gives the meaning of the callbacks that wait for the end of a process.\<close>

fun wake_up :: "('k \<Rightarrow> int \<Rightarrow> 'k sos \<Rightarrow> 'k sos option) \<Rightarrow> int \<Rightarrow> 'k list \<Rightarrow> 'k sos \<Rightarrow> 'k sos option" where
  "wake_up run pid [] s = Some s"
| "wake_up run pid (k # ks) s = do { s1 \<leftarrow> run k pid s; wake_up run pid ks s1 }"

definition proc_destroy :: "('k \<Rightarrow> int \<Rightarrow> 'k sos \<Rightarrow> 'k sos option) \<Rightarrow> int \<Rightarrow> 'k sos \<Rightarrow> (int \<times> 'k sos) option" where
  "proc_destroy run pid s = do {
     proc \<leftarrow> proc_getproc pid s;
     if proc = None then Some (EINVAL, s)
     else do {
       p \<leftarrow> get_proc proc s;
       if \<not> p_initialised p then Some (EFAULT, s)
       else do {
         s1 \<leftarrow> free_proc_slot (proc_pid p) s;
         s2 \<leftarrow> free_proc_data p s1;
         s3 \<leftarrow> wake_up run pid (wait_queue s2) s2;
         let s4 = s3\<lparr>wait_queue := []\<rparr>;
         p' \<leftarrow> get_proc proc s4;
         s5 \<leftarrow> wake_up run pid (p_wait_queue p') s4;
         Some (0, free_proc proc s5) } } }"

text \<open>The loop of \<^verbatim>\<open>proc_wait\<close>: the first slot from \<open>i\<close> whose process has the identifier.\<close>

fun find_pid :: "int \<Rightarrow> nat option list \<Rightarrow> 'k sos \<Rightarrow> nat option option" where
  "find_pid pid [] s = Some None"
| "find_pid pid (x # xs) s = (case x of None \<Rightarrow> find_pid pid xs s
     | Some q \<Rightarrow> do { p \<leftarrow> get_proc x s; if proc_pid p = pid then Some x else find_pid pid xs s })"

definition proc_wait :: "int \<Rightarrow> 'k \<Rightarrow> 'k sos \<Rightarrow> (int \<times> 'k sos) option" where
  "proc_wait pid k s =
     (if pid = - 1 then
        let (ok, s1) = malloc_ok s in
        if \<not> ok then Some (ENOMEM, s1) else Some (0, s1\<lparr>wait_queue := k # wait_queue s1\<rparr>)
      else do {
        proc \<leftarrow> find_pid pid (processes s) s;
        if proc = None then Some (EINVAL, s)
        else let (ok, s1) = malloc_ok s in
          if \<not> ok then Some (ENOMEM, s1)
          else do {
            s2 \<leftarrow> set_proc proc (\<lambda>p. p\<lparr>p_wait_queue := k # p_wait_queue p\<rparr>) s1;
            Some (0, s2) } })"

end
