(* ===== verification/Proc_Syscalls.thy ===== *)
theory Proc_Syscalls
  imports Process
begin

text \<open>
  The system calls for processes, time and the break (syscall/proc_syscalls.c, time_syscalls.c,
  vm_syscalls.c), and the callbacks that stay in the kernel between two events: a blocked reader
  of the console, a process waiting for another, a sleeping process, the timeout of NFS.
\<close>

subsection \<open>Callbacks that are kept\<close>

record cont_read =
  rd_reply_cap :: u32
  rd_file :: "nat option"
  rd_bytes_read :: u32
  rd_bytes_wanted :: u32
  rd_buf :: u32
  rd_pid :: int

record wait_cont =
  wt_reply_cap :: u32
  wt_pid :: int

record sleep_state =
  sl_reply_cap :: u32
  sl_pid :: int

datatype kcb = K_read cont_read | K_wait wait_cont | K_sleep sleep_state | K_nfs_timeout

type_synonym st = "kcb sos"

subsection \<open>Replies\<close>

text \<open>
  The label of a message is a field of 20 bits. The message is recorded with its label and its
  registers.
\<close>

definition message_label :: "u32 \<Rightarrow> u32" where
  "message_label w = w AND 0xfffff"

definition seL4_Send :: "u32 \<Rightarrow> u32 \<Rightarrow> u32 list \<Rightarrow> st \<Rightarrow> st" where
  "seL4_Send cap label mrs s = s\<lparr>klog := klog s @ [K_Send cap (message_label label # mrs)]\<rparr>"

definition free_reply_cap :: "u32 \<Rightarrow> st \<Rightarrow> st option" where
  "free_reply_cap cap s = do { (_, s1) \<leftarrow> cspace_free_slot (cur_cspace s) cap s; Some s1 }"

text \<open>The end of a system call: no process is current any more, the caller gets its reply.\<close>

definition reply_app :: "u32 \<Rightarrow> int \<Rightarrow> u32 list \<Rightarrow> st \<Rightarrow> st option" where
  "reply_app cap err mrs s = do {
     s1 \<leftarrow> set_cur_proc PROC_NULL s;
     free_reply_cap cap (seL4_Send cap (word_of_int err) mrs s1) }"

text \<open>The same at the end of an operation that was waiting: the caller may have been destroyed.\<close>

definition reply_alive :: "int \<Rightarrow> u32 \<Rightarrow> int \<Rightarrow> u32 list \<Rightarrow> st \<Rightarrow> st option" where
  "reply_alive pid cap err mrs s = do {
     alive \<leftarrow> is_proc_alive pid s;
     if alive then reply_app cap err mrs s else free_reply_cap cap s }"

definition done_with :: "st option \<Rightarrow> st res" where
  "done_with r = do { s \<leftarrow> r; finish s }"

subsection \<open>Waiting, destroying, identifiers\<close>

definition serv_proc_wait_cb :: "wait_cont \<Rightarrow> int \<Rightarrow> st \<Rightarrow> st option" where
  "serv_proc_wait_cb cont pid s = reply_alive (wt_pid cont) (wt_reply_cap cont) 0 [word_of_int pid] s"

definition run_wait :: "kcb \<Rightarrow> int \<Rightarrow> st \<Rightarrow> st option" where
  "run_wait k pid s = (case k of K_wait cont \<Rightarrow> serv_proc_wait_cb cont pid s | _ \<Rightarrow> None)"

definition serv_proc_wait :: "int \<Rightarrow> u32 \<Rightarrow> st \<Rightarrow> st option" where
  "serv_proc_wait pid reply_cap s = do {
     cur_pid \<leftarrow> proc_get_id s;
     let (ok, s1) = malloc_ok s;
     if \<not> ok then do {
       s2 \<leftarrow> free_reply_cap reply_cap (seL4_Send reply_cap 0 [- 1] s1);
       set_cur_proc PROC_NULL s2 }
     else do {
       let cont = \<lparr>wt_reply_cap = reply_cap, wt_pid = cur_pid\<rparr>;
       (err, s2) \<leftarrow> proc_wait pid (K_wait cont) s1;
       if err \<noteq> 0 then serv_proc_wait_cb cont (- 1) s2 else Some s2 } }"

definition serv_proc_destroy :: "int \<Rightarrow> u32 \<Rightarrow> st \<Rightarrow> st option" where
  "serv_proc_destroy pid reply_cap s = do {
     cur_pid \<leftarrow> proc_get_id s;
     (err, s1) \<leftarrow> proc_destroy run_wait pid s;
     s2 \<leftarrow> (if pid \<noteq> cur_pid
       then free_reply_cap reply_cap (seL4_Send reply_cap (word_of_int err) [word_of_int err] s1) else Some s1);
     set_cur_proc PROC_NULL s2 }"

definition serv_proc_get_id :: "u32 \<Rightarrow> st \<Rightarrow> st option" where
  "serv_proc_get_id reply_cap s = do {
     pid \<leftarrow> proc_get_id s;
     reply_app reply_cap 0 [word_of_int pid] s }"

subsection \<open>Creating a process\<close>

text \<open>The characters of a buffer of the kernel up to the terminator.\<close>

definition load_string :: "u32 \<Rightarrow> u32 \<Rightarrow> st \<Rightarrow> string" where
  "load_string a n s = map (\<lambda>b. char_of (unat b)) (takeWhile (\<lambda>b. b \<noteq> 0) (mem_load a (unat n) s))"

definition serv_proc_create_end :: "u32 \<Rightarrow> int \<Rightarrow> int \<Rightarrow> st \<Rightarrow> st res" where
  "serv_proc_create_end reply_cap err pid s = done_with (reply_app reply_cap err [word_of_int pid] s)"

definition serv_proc_create_part2 :: "u32 \<Rightarrow> u32 \<Rightarrow> u32 \<Rightarrow> u32 \<Rightarrow> int \<Rightarrow> st \<Rightarrow> st res" where
  "serv_proc_create_part2 kpath len fault_ep reply_cap err s =
     (if err \<noteq> 0 then serv_proc_create_end reply_cap err (- 1) s
      else let s1 = mem_store (kpath + len) [0] s
        in proc_create (load_string kpath len s1) len fault_ep (serv_proc_create_end reply_cap) s1)"

definition valid_with :: "u32 \<Rightarrow> u32 \<Rightarrow> u32 \<Rightarrow> st \<Rightarrow> bool option" where
  "valid_with right vaddr sz s = do {
     as \<leftarrow> proc_getas s;
     (ok, perm) \<leftarrow> as_is_valid_memory as vaddr sz s;
     Some (ok \<and> (case perm of None \<Rightarrow> False | Some p \<Rightarrow> p AND right \<noteq> 0)) }"

definition serv_proc_create :: "u32 \<Rightarrow> u32 \<Rightarrow> u32 \<Rightarrow> u32 \<Rightarrow> st \<Rightarrow> st res" where
  "serv_proc_create path len fault_ep reply_cap s =
     (let (ok, s1) = malloc_ok s in
      if \<not> ok then done_with (reply_app reply_cap ENOMEM [- 1] s1)
      else do {
        valid \<leftarrow> valid_with seL4_CanRead path len s1;
        if \<not> valid then serv_proc_create_end reply_cap EINVAL (- 1) s1
        else let (kpath, s2) = malloc_buf s1 in
          if kpath = 0 then serv_proc_create_end reply_cap ENOMEM (- 1) s2
          else if_err (copyin kpath path len (serv_proc_create_part2 kpath len fault_ep reply_cap) s2)
            (\<lambda>err. serv_proc_create_end reply_cap err (- 1)) })"

subsection \<open>The list of processes\<close>

abbreviation (input) SIZEOF_SOS_PROCESS :: u32 where "SIZEOF_SOS_PROCESS \<equiv> 44"
abbreviation (input) N_NAME :: u32 where "N_NAME \<equiv> 32"

text \<open>
  One round of the loop that fills the buffer; \<open>cap\<close> is the number of entries it has room for.
  Writing behind the buffer, or a name behind its field, aborts.
\<close>

fun status_loop :: "nat option list \<Rightarrow> u32 \<Rightarrow> u32 \<Rightarrow> u32 \<Rightarrow> u32 \<Rightarrow> st \<Rightarrow> (u32 \<times> st) option" where
  "status_loop [] kbuf room mx num s = Some (num, s)"
| "status_loop (x # xs) kbuf room mx num s = (case x of None \<Rightarrow> status_loop xs kbuf room mx num s
     | Some q \<Rightarrow> do {
         p \<leftarrow> get_proc x s;
         c_assert (num < room);
         c_assert (proc_name_len p < N_NAME);
         nm \<leftarrow> proc_name p;
         let at = kbuf + SIZEOF_SOS_PROCESS * num;
         let s1 = mem_store at (word_bytes (word_of_int (proc_pid p)) @ word_bytes (proc_size p)
           @ word_bytes (ucast (time_stamp (sos_clock s)) div 1000 - proc_stime p)
           @ string_bytes (take (unat (proc_name_len p)) nm) @ [0]) s;
         if num + 1 \<ge> mx then Some (num + 1, s1) else status_loop xs kbuf room mx (num + 1) s1 })"

definition serv_proc_status_end :: "u32 \<Rightarrow> int \<Rightarrow> u32 \<Rightarrow> int \<Rightarrow> st \<Rightarrow> st res" where
  "serv_proc_status_end reply_cap pid num err s = done_with (reply_alive pid reply_cap err [num] s)"

definition serv_proc_status :: "u32 \<Rightarrow> u32 \<Rightarrow> u32 \<Rightarrow> st \<Rightarrow> st res" where
  "serv_proc_status buf mx reply_cap s =
     (let (ok, s1) = malloc_ok s in
      if \<not> ok then done_with (reply_app reply_cap ENOMEM [] s1)
      else do {
        pid \<leftarrow> proc_get_id s1;
        let room = min 64 mx;
        valid \<leftarrow> valid_with seL4_CanWrite buf (SIZEOF_SOS_PROCESS * room) s1;
        if \<not> valid then serv_proc_status_end reply_cap pid 0 EINVAL s1
        else let (kbuf, s2) = malloc_buf s1 in
          if kbuf = 0 then serv_proc_status_end reply_cap pid 0 ENOMEM s2
          else do {
            (num, s3) \<leftarrow> status_loop (processes s2) kbuf room mx 0 s2;
            if_err (copyout buf kbuf (SIZEOF_SOS_PROCESS * min num mx) (serv_proc_status_end reply_cap pid num) s3)
              (serv_proc_status_end reply_cap pid num) } })"

subsection \<open>Time\<close>

definition serv_sys_timestamp :: "u32 \<Rightarrow> st \<Rightarrow> st option" where
  "serv_sys_timestamp reply_cap s =
     (let ts = time_stamp (sos_clock s) in reply_app reply_cap 0 [ucast ts, ucast (drop_bit 32 ts)] s)"

definition sys_sleep :: "u32 \<Rightarrow> int \<Rightarrow> st \<Rightarrow> (int \<times> st) option" where
  "sys_sleep reply_cap msec s = do {
     let delay = (word_of_int msec * 1000 :: u64);
     let (ok, s1) = malloc_ok s;
     if \<not> ok then Some (ENOMEM, s1)
     else do {
       pid \<leftarrow> proc_get_id s1;
       (_, c) \<leftarrow> register_timer delay (K_sleep \<lparr>sl_reply_cap = reply_cap, sl_pid = pid\<rparr>) (sos_clock s1);
       Some (0, s1\<lparr>sos_clock := c\<rparr>) } }"

definition serv_sys_sleep :: "u32 \<Rightarrow> int \<Rightarrow> st \<Rightarrow> st option" where
  "serv_sys_sleep reply_cap msec s = do {
     (err, s1) \<leftarrow> sys_sleep reply_cap msec s;
     if err \<noteq> 0 then reply_app reply_cap err [] s1 else Some s1 }"

definition sleep_callback :: "sleep_state \<Rightarrow> st \<Rightarrow> st option" where
  "sleep_callback state s = reply_alive (sl_pid state) (sl_reply_cap state) 0 [] s"

subsection \<open>The break\<close>

text \<open>The new break is returned in the label of the reply.\<close>

definition serv_sys_sbrk :: "u32 \<Rightarrow> u32 \<Rightarrow> st \<Rightarrow> st option" where
  "serv_sys_sbrk reply_cap newbrk s = do {
     as \<leftarrow> proc_getas s;
     (brk, s1) \<leftarrow> sos_sys_brk as newbrk s;
     reply_app reply_cap (uint brk) [] s1 }"

end
