(* ===== verification/Vm_Fault.thy ===== *)
theory Vm_Fault
  imports Proc_Syscalls
begin

text \<open>
  Page faults (vm/vm.c): an access outside the regions or against their rights destroys the
  process; a page that was swapped out is read back, one that was unmapped to see whether it is
  used is mapped again, and one that was never there is mapped for the first time.
\<close>

abbreviation (input) RW_BIT :: u32 where "RW_BIT \<equiv> 2048"

text \<open>The region of a fault that is not the fault of the process, or \<^term>\<open>None\<close> for a segmentation fault.\<close>

definition check_segfault :: "nat option \<Rightarrow> u32 \<Rightarrow> u32 \<Rightarrow> st \<Rightarrow> region option option" where
  "check_segfault as fault_addr fsr s =
     (if fault_addr = 0 then Some None
      else do {
        reg \<leftarrow> region_probe as fault_addr s;
        Some (case reg of None \<Rightarrow> None
          | Some r \<Rightarrow>
              if fsr AND RW_BIT \<noteq> 0 \<and> r_rights r AND seL4_CanWrite = 0 then None
              else if fsr AND RW_BIT = 0 \<and> r_rights r AND seL4_CanRead = 0 then None
              else Some r) })"

definition set_page_reference :: "nat option \<Rightarrow> u32 \<Rightarrow> u32 \<Rightarrow> st \<Rightarrow> (int \<times> st) option" where
  "set_page_reference as vaddr rights s = do {
     let vpage = PAGE_ALIGN vaddr;
     a \<leftarrow> get_as as s;
     regs \<leftarrow> pt_regs a (PT_L1_INDEX vpage) s;
     if regs = 0 then Some (EINVAL, s)
     else do {
       e \<leftarrow> pte a vpage s;
       let kvaddr = e AND PTE_KVADDR_MASK;
       (_, kframe_cap) \<leftarrow> frame_get_cap kvaddr s;
       (frame_cap, s1) \<leftarrow> cspace_copy_cap (cur_cspace s) (cur_cspace s) kframe_cap rights s;
       if frame_cap = CSPACE_NULL then Some (EFAULT, s1)
       else do {
         let (err, s2) = kernel (Page_Map frame_cap (as_sel4_pd a) vpage rights) s1;
         if err = seL4_FailedLookup then Some (EFAULT, s2)
         else do {
           caps \<leftarrow> pt_caps a (PT_L1_INDEX vpage) s2;
           s3 \<leftarrow> pt_write caps (PT_L2_INDEX vpage) frame_cap s2;
           frame_set_referenced kvaddr s3 } } } }"

record vmf_cont =
  vf_reply_cap :: u32
  vf_as :: "nat option"
  vf_vaddr :: u32
  vf_pid :: int

definition sos_VMFaultHandler_reply :: "vmf_cont \<Rightarrow> int \<Rightarrow> st \<Rightarrow> st res" where
  "sos_VMFaultHandler_reply cont err s = do {
     alive \<leftarrow> is_proc_alive (vf_pid cont) s;
     if \<not> alive then done_with (free_reply_cap (vf_reply_cap cont) s)
     else do {
       s1 \<leftarrow> (if err = 0 then do {
           a \<leftarrow> get_as (vf_as cont) s;
           e \<leftarrow> pte a (PAGE_ALIGN (vf_vaddr cont)) s;
           (_, kframe_cap) \<leftarrow> frame_get_cap (e AND PTE_KVADDR_MASK) s;
           Some (snd (kernel (Page_Unify_Instruction kframe_cap) s)) }
         else Some s);
       s2 \<leftarrow> free_reply_cap (vf_reply_cap cont) (seL4_Send (vf_reply_cap cont) 0 [] s1);
       done_with (set_cur_proc PROC_NULL s2) } }"

text \<open>A page that cannot be brought in is not reported: the process runs on and faults again.\<close>

definition sos_VMFaultHandler :: "u32 \<Rightarrow> u32 \<Rightarrow> u32 \<Rightarrow> bool \<Rightarrow> st \<Rightarrow> st res" where
  "sos_VMFaultHandler reply_cap fault_addr fsr is_code s = do {
     as \<leftarrow> proc_getas s;
     if as = None then do {
       s1 \<leftarrow> set_cur_proc PROC_NULL s;
       done_with (free_reply_cap reply_cap s1) }
     else do {
       seg \<leftarrow> check_segfault as fault_addr fsr s;
       case seg of None \<Rightarrow> do {
           pid \<leftarrow> proc_get_id s;
           (_, s1) \<leftarrow> proc_destroy run_wait pid s;
           s2 \<leftarrow> set_cur_proc PROC_NULL s1;
           done_with (free_reply_cap reply_cap s2) }
       | Some reg \<Rightarrow> do {
           let (ok, s1) = malloc_ok s;
           if \<not> ok then done_with (reply_app reply_cap 0 [] s1)
           else do {
             pid \<leftarrow> proc_get_id s1;
             let reply = sos_VMFaultHandler_reply
               \<lparr>vf_reply_cap = reply_cap, vf_as = as, vf_vaddr = fault_addr, vf_pid = pid\<rparr>;
             inuse \<leftarrow> sos_page_is_inuse as fault_addr s1;
             if inuse then do {
               swapped \<leftarrow> sos_page_is_swapped as fault_addr s1;
               if swapped then if_err (swap_in as (r_rights reg) fault_addr is_code reply s1) reply
               else do {
                 locked \<leftarrow> sos_page_is_locked as fault_addr s1;
                 if locked then reply EFAULT s1
                 else do {
                   (err, s2) \<leftarrow> set_page_reference as fault_addr (r_rights reg) s1;
                   reply err s2 } } }
             else do {
               s2 \<leftarrow> inc_proc_size_proc (cur_proc s1) s1;
               if_err (sos_page_map pid as fault_addr (r_rights reg) reply False s2)
                 (\<lambda>err s3. do {
                    s4 \<leftarrow> dec_proc_size_proc (cur_proc s3) s3;
                    reply err s4 }) } } } } }"

end
