(* ===== verification/File_Syscalls.thy ===== *)
theory File_Syscalls
  imports Vm_Fault
begin

text \<open>
  The system calls for files (syscall/file_syscalls.c). Reads and writes of more than a page are
  repeated until they are complete, each step possibly waiting for the file server.
\<close>

abbreviation (input) MAX_SERIAL_TRY :: nat where "MAX_SERIAL_TRY \<equiv> 256"
abbreviation (input) MAX_NAME_LEN :: u32 where "MAX_NAME_LEN \<equiv> 255"

subsection \<open>Printing\<close>

fun print_loop :: "nat \<Rightarrow> u8 list \<Rightarrow> u32 \<Rightarrow> st \<Rightarrow> u32 \<times> st" where
  "print_loop 0 message sent s = (sent, s)"
| "print_loop (Suc n) message sent s =
     (if unat sent < length message then
        let (r, s1) = serial_send (drop (unat sent) message) s in print_loop n message (sent + word_of_int r) s1
      else (sent, s))"

definition serv_sys_print :: "u32 \<Rightarrow> u8 list \<Rightarrow> st \<Rightarrow> st option" where
  "serv_sys_print reply_cap message s =
     (let (_, s1) = ask s;
          (sent, s2) = print_loop MAX_SERIAL_TRY message 0 s1
      in reply_app reply_cap 0 [sent] s2)"

subsection \<open>Opening and closing\<close>

definition serv_sys_open_end :: "u32 \<Rightarrow> int \<Rightarrow> int \<Rightarrow> int \<Rightarrow> st \<Rightarrow> st res" where
  "serv_sys_open_end reply_cap pid err fd s = done_with (reply_alive pid reply_cap err [word_of_int fd] s)"

definition serv_sys_open_copyin_cb :: "u32 \<Rightarrow> u32 \<Rightarrow> u32 \<Rightarrow> u32 \<Rightarrow> int \<Rightarrow> int \<Rightarrow> st \<Rightarrow> st res" where
  "serv_sys_open_copyin_cb reply_cap kbuf nbyte flags pid err s =
     (if err \<noteq> 0 then serv_sys_open_end reply_cap pid err (- 1) s
      else let s1 = mem_store (kbuf + nbyte) [0] s;
               path = load_string kbuf nbyte s1
           in if path = ''swap'' then serv_sys_open_end reply_cap pid EINVAL (- 1) s1
              else file_open path (sint flags) (serv_sys_open_end reply_cap pid) s1)"

definition serv_sys_open :: "u32 \<Rightarrow> u32 \<Rightarrow> u32 \<Rightarrow> u32 \<Rightarrow> st \<Rightarrow> st res" where
  "serv_sys_open reply_cap path nbyte flags s =
     (let (ok, s1) = malloc_ok s in
      if \<not> ok then done_with (reply_app reply_cap ENOMEM [- 1] s1)
      else do {
        pid \<leftarrow> proc_get_id s1;
        as \<leftarrow> proc_getas s1;
        valid \<leftarrow> (if nbyte > MAX_NAME_LEN then Some False
          else do { (v, _) \<leftarrow> as_is_valid_memory as path nbyte s1; Some v });
        if \<not> valid then serv_sys_open_end reply_cap pid EINVAL (- 1) s1
        else let (kbuf, s2) = malloc_buf s1 in
          if kbuf = 0 then serv_sys_open_end reply_cap pid ENOMEM (- 1) s2
          else if_err (copyin kbuf path nbyte (serv_sys_open_copyin_cb reply_cap kbuf nbyte flags pid) s2)
            (\<lambda>err. serv_sys_open_end reply_cap pid err (- 1)) })"

text \<open>The error code is turned into 1 by the logical or.\<close>

definition serv_sys_close :: "u32 \<Rightarrow> int \<Rightarrow> st \<Rightarrow> st option" where
  "serv_sys_close reply_cap fd s = do {
     (err, s1) \<leftarrow> (if fd < 0 \<or> fd \<ge> PROCESS_MAX_FILES then Some (1, s)
       else do { (e, s') \<leftarrow> file_close fd s; Some (if e \<noteq> 0 then 1 else 0, s') });
     reply_app reply_cap err [] s1 }"

subsection \<open>Reading\<close>

text \<open>
  A read is repeated until the file has no more or the wanted number of bytes has been read.
  Every repetition has read at least one byte, so one round per wanted byte is enough.
\<close>

fun serv_sys_read_end :: "nat \<Rightarrow> cont_read \<Rightarrow> int \<Rightarrow> u32 \<Rightarrow> bool \<Rightarrow> st \<Rightarrow> st res" where
  "serv_sys_read_end 0 cont err sz more_to_read s = None"
| "serv_sys_read_end (Suc n) cont err sz more_to_read s = do {
     alive \<leftarrow> is_proc_alive (rd_pid cont) s;
     if \<not> alive then done_with (free_reply_cap (rd_reply_cap cont) s)
     else do {
       (cont', s1) \<leftarrow> (if err = 0 then do {
           q \<leftarrow> rd_file cont;
           f \<leftarrow> get_openfile (rd_file cont) s;
           Some (cont\<lparr>rd_bytes_read := rd_bytes_read cont + sz\<rparr>,
             put_openfile q (f\<lparr>of_offset := of_offset f + ucast sz\<rparr>) s) }
         else Some (cont, s));
       if err \<noteq> 0 \<or> \<not> more_to_read \<or> rd_bytes_read cont' \<ge> rd_bytes_wanted cont'
       then done_with (reply_app (rd_reply_cap cont') err [rd_bytes_read cont'] s1)
       else do {
         f \<leftarrow> get_openfile (rd_file cont') s1;
         VOP_READ (of_vnode f) (rd_buf cont' + rd_bytes_read cont')
           (min (rd_bytes_wanted cont' - rd_bytes_read cont') (word_of_int MAX_IO_BUF)) (ucast (of_offset f))
           (serv_sys_read_end n cont') (K_read cont') s1 } } }"

definition read_rounds :: "u32 \<Rightarrow> nat" where
  "read_rounds nbyte = unat nbyte + 1"

definition serv_sys_read :: "u32 \<Rightarrow> int \<Rightarrow> u32 \<Rightarrow> u32 \<Rightarrow> st \<Rightarrow> st res" where
  "serv_sys_read reply_cap fd buf nbyte s =
     (let (ok, s1) = malloc_ok s in
      if \<not> ok then done_with (reply_app reply_cap ENOMEM [0] s1)
      else do {
        pid \<leftarrow> proc_get_id s1;
        let cont = \<lparr>rd_reply_cap = reply_cap, rd_file = None, rd_bytes_read = 0, rd_bytes_wanted = nbyte,
          rd_buf = buf, rd_pid = pid\<rparr>;
        let n = read_rounds nbyte;
        valid \<leftarrow> (if fd < 0 \<or> fd \<ge> PROCESS_MAX_FILES then Some False else valid_with seL4_CanWrite buf nbyte s1);
        if \<not> valid then serv_sys_read_end n cont EINVAL 0 False s1
        else do {
          (err, file) \<leftarrow> filetable_findfile fd s1;
          if err \<noteq> 0 then serv_sys_read_end n cont EINVAL 0 False s1
          else do {
            f \<leftarrow> get_openfile file s1;
            let cont' = cont\<lparr>rd_file := file\<rparr>;
            if of_accmode f \<noteq> O_RDWR \<and> of_accmode f \<noteq> O_RDONLY then serv_sys_read_end n cont' EACCES 0 False s1
            else VOP_READ (of_vnode f) buf (min nbyte (word_of_int MAX_IO_BUF)) (ucast (of_offset f))
              (serv_sys_read_end n cont') (K_read cont') s1 } } })"

text \<open>A console read that was waiting ends with one line and is never repeated.\<close>

definition run_read :: "kcb \<Rightarrow> int \<Rightarrow> u32 \<Rightarrow> bool \<Rightarrow> st \<Rightarrow> st res" where
  "run_read k err sz more_to_read s = (case k of K_read cont \<Rightarrow> serv_sys_read_end 1 cont err sz more_to_read s | _ \<Rightarrow> None)"

subsection \<open>Writing\<close>

record cont_write =
  wr_reply_cap :: u32
  wr_file :: "nat option"
  wr_buf :: u32
  wr_kbuf :: u32
  wr_nbyte :: u32
  wr_byte_written :: u32
  wr_wanna_send :: u32
  wr_pid :: int

definition free_kbuf :: "cont_write \<Rightarrow> st \<Rightarrow> st option" where
  "free_kbuf cont s = (if wr_kbuf cont \<noteq> 0 then do { (_, s1) \<leftarrow> frame_free (wr_kbuf cont) s; Some s1 } else Some s)"

definition serv_sys_write_end :: "cont_write \<Rightarrow> int \<Rightarrow> st \<Rightarrow> st res" where
  "serv_sys_write_end cont err s = do {
     alive \<leftarrow> is_proc_alive (wr_pid cont) s;
     if \<not> alive then do {
       s1 \<leftarrow> free_kbuf cont s;
       done_with (free_reply_cap (wr_reply_cap cont) s1) }
     else do {
       s1 \<leftarrow> reply_app (wr_reply_cap cont) err [wr_byte_written cont] s;
       done_with (free_kbuf cont s1) } }"

definition serv_sys_write_do_write :: "cont_write \<Rightarrow> (int \<Rightarrow> u32 \<Rightarrow> st \<Rightarrow> st res) \<Rightarrow> int \<Rightarrow> st \<Rightarrow> st res" where
  "serv_sys_write_do_write cont next err s =
     (if err \<noteq> 0 then serv_sys_write_end cont err s
      else do {
        f \<leftarrow> get_openfile (wr_file cont) s;
        VOP_WRITE (of_vnode f) (wr_kbuf cont) (wr_wanna_send cont) (ucast (of_offset f)) next s })"

text \<open>
  The data is written page by page; the loop goes on with what the device has accepted. The
  number of rounds allows for one byte per round; a device that accepts nothing for that many
  rounds is not followed further.
\<close>

fun serv_sys_write_copyin :: "nat \<Rightarrow> cont_write \<Rightarrow> int \<Rightarrow> u32 \<Rightarrow> st \<Rightarrow> st res" where
  "serv_sys_write_copyin 0 cont err sz s = None"
| "serv_sys_write_copyin (Suc n) cont err sz s =
     (if err \<noteq> 0 then serv_sys_write_end cont err s
      else do {
        q \<leftarrow> wr_file cont;
        f \<leftarrow> get_openfile (wr_file cont) s;
        let s1 = put_openfile q (f\<lparr>of_offset := of_offset f + ucast sz\<rparr>) s;
        let written = wr_byte_written cont + sz;
        if written < wr_nbyte cont then do {
          let vaddr = wr_buf cont + written;
          let wanna = min (PAGE_SIZE - (vaddr - PAGE_ALIGN vaddr)) (wr_nbyte cont - written);
          let cont' = cont\<lparr>wr_byte_written := written, wr_wanna_send := wanna\<rparr>;
          if_err (copyin (wr_kbuf cont) vaddr wanna (serv_sys_write_do_write cont' (serv_sys_write_copyin n cont')) s1)
            (\<lambda>_. serv_sys_write_end cont' EINVAL) }
        else serv_sys_write_end (cont\<lparr>wr_byte_written := written\<rparr>) 0 s1 })"

definition write_rounds :: "u32 \<Rightarrow> nat" where
  "write_rounds nbyte = unat nbyte + 2"

definition serv_sys_write_get_kbuf :: "cont_write \<Rightarrow> u32 \<Rightarrow> st \<Rightarrow> st res" where
  "serv_sys_write_get_kbuf cont kvaddr s =
     (if kvaddr = 0 then serv_sys_write_end cont ENOMEM s
      else serv_sys_write_copyin (write_rounds (wr_nbyte cont)) (cont\<lparr>wr_kbuf := kvaddr\<rparr>) 0 0 s)"

definition serv_sys_write :: "u32 \<Rightarrow> int \<Rightarrow> u32 \<Rightarrow> u32 \<Rightarrow> st \<Rightarrow> st res" where
  "serv_sys_write reply_cap fd buf nbyte s =
     (let (ok, s1) = malloc_ok s in
      if \<not> ok then done_with (reply_app reply_cap ENOMEM [0] s1)
      else do {
        pid \<leftarrow> proc_get_id s1;
        as \<leftarrow> proc_getas s1;
        let cont = \<lparr>wr_reply_cap = reply_cap, wr_file = None, wr_buf = buf, wr_kbuf = 0, wr_nbyte = nbyte,
          wr_byte_written = 0, wr_wanna_send = 0, wr_pid = pid\<rparr>;
        valid \<leftarrow> (if fd < 0 \<or> fd \<ge> PROCESS_MAX_FILES then Some False
          else do { (v, _) \<leftarrow> as_is_valid_memory as buf nbyte s1; Some v });
        if \<not> valid then serv_sys_write_end cont EINVAL s1
        else do {
          (err, file) \<leftarrow> filetable_findfile fd s1;
          if err \<noteq> 0 then serv_sys_write_end cont EINVAL s1
          else do {
            f \<leftarrow> get_openfile file s1;
            let cont' = cont\<lparr>wr_file := file\<rparr>;
            if of_accmode f \<noteq> O_RDWR \<and> of_accmode f \<noteq> O_WRONLY then serv_sys_write_end cont' EACCES s1
            else if_err (frame_alloc 0 None PROC_NULL True (serv_sys_write_get_kbuf cont') s1)
              (\<lambda>_. serv_sys_write_end cont' EFAULT) } } })"

subsection \<open>Directories and attributes\<close>

definition serv_sys_getdirent_end :: "u32 \<Rightarrow> int \<Rightarrow> int \<Rightarrow> u32 \<Rightarrow> st \<Rightarrow> st res" where
  "serv_sys_getdirent_end reply_cap pid err sz s = done_with (reply_alive pid reply_cap err [sz] s)"

definition serv_sys_getdirent :: "u32 \<Rightarrow> int \<Rightarrow> u32 \<Rightarrow> u32 \<Rightarrow> st \<Rightarrow> st res" where
  "serv_sys_getdirent reply_cap pos name nbyte s =
     (let (ok, s1) = malloc_ok s in
      if \<not> ok then done_with (reply_app reply_cap ENOMEM [0] s1)
      else do {
        pid \<leftarrow> proc_get_id s1;
        valid \<leftarrow> valid_with seL4_CanWrite name SIZEOF_SOS_STAT s1;
        if \<not> valid then serv_sys_getdirent_end reply_cap pid EINVAL 0 s1
        else do {
          vn \<leftarrow> vfs_vnt_lookup ''/'' s1;
          if vn = None then serv_sys_getdirent_end reply_cap pid ENOMEM 0 s1
          else VOP_GETDIRENT vn name nbyte pos (serv_sys_getdirent_end reply_cap pid) s1 } })"

definition serv_sys_stat_end :: "u32 \<Rightarrow> int \<Rightarrow> int \<Rightarrow> st \<Rightarrow> st res" where
  "serv_sys_stat_end reply_cap pid err s = done_with (reply_alive pid reply_cap err [] s)"

definition serv_sys_stat_copyin_cb :: "u32 \<Rightarrow> u32 \<Rightarrow> u32 \<Rightarrow> u32 \<Rightarrow> u32 \<Rightarrow> int \<Rightarrow> int \<Rightarrow> st \<Rightarrow> st res" where
  "serv_sys_stat_copyin_cb stack_slot reply_cap kbuf path_len buf pid err s =
     (if err \<noteq> 0 then serv_sys_stat_end reply_cap pid err s
      else let s1 = mem_store (kbuf + path_len) [0] s
           in vfs_stat stack_slot (load_string kbuf path_len s1) buf (serv_sys_stat_end reply_cap pid) s1)"

text \<open>The length of the path is not compared with the size of the buffer; writing behind it aborts.\<close>

definition serv_sys_stat :: "u32 \<Rightarrow> u32 \<Rightarrow> u32 \<Rightarrow> u32 \<Rightarrow> u32 \<Rightarrow> st \<Rightarrow> st res" where
  "serv_sys_stat stack_slot reply_cap path path_len buf s =
     (let (ok, s1) = malloc_ok s in
      if \<not> ok then done_with (reply_app reply_cap ENOMEM [] s1)
      else do {
        pid \<leftarrow> proc_get_id s1;
        valid \<leftarrow> valid_with seL4_CanWrite buf SIZEOF_SOS_STAT s1;
        if \<not> valid then serv_sys_stat_end reply_cap pid EINVAL s1
        else do {
          valid' \<leftarrow> valid_with seL4_CanRead path path_len s1;
          if \<not> valid' then serv_sys_stat_end reply_cap pid EINVAL s1
          else let (kbuf, s2) = malloc_buf s1 in
            if kbuf = 0 then serv_sys_stat_end reply_cap pid ENOMEM s2
            else do {
              c_assert (path_len \<le> MAX_NAME_LEN);
              if_err (copyin kbuf path path_len (serv_sys_stat_copyin_cb stack_slot reply_cap kbuf path_len buf pid) s2)
                (serv_sys_stat_end reply_cap pid) } } })"

end
