(* ===== verification/Dma.thy ===== *)
theory Dma
  imports Nfs_Dev
begin

text \<open>
  Memory for the network device (dev/dma.c): blocks are cut from one range of physical memory,
  mapped page by page when they are first used, and never freed.
\<close>

record dma_state =
  dma_caps :: "u32 list option"
  dma_pstart :: u32
  dma_pend :: u32
  dma_pnext :: u32
  dma_alloc_cached :: int

abbreviation (input) DMA_VSTART :: u32 where "DMA_VSTART \<equiv> 0x10000000"
abbreviation (input) DMA_SIZE_BITS :: nat where "DMA_SIZE_BITS \<equiv> 22"
abbreviation (input) DMA_ALIGN_BITS :: u32 where "DMA_ALIGN_BITS \<equiv> 7"
abbreviation (input) CLEAN_INVALIDATE :: nat where "CLEAN_INVALIDATE \<equiv> 2"

text \<open>\<^verbatim>\<open>ROUND_UP\<close> of the utility library rounds to a multiple of its second argument.\<close>

definition ROUND_UP :: "u32 \<Rightarrow> u32 \<Rightarrow> u32" where
  "ROUND_UP n b = n + (if n mod b = 0 then 0 else b - n mod b)"

definition DMA_ALIGN :: "u32 \<Rightarrow> u32" where
  "DMA_ALIGN a = ROUND_UP a DMA_ALIGN_BITS"

definition VIRT :: "dma_state \<Rightarrow> u32 \<Rightarrow> u32" where
  "VIRT d paddr = paddr + DMA_VSTART - dma_pstart d"

definition PHYS :: "dma_state \<Rightarrow> u32 \<Rightarrow> u32" where
  "PHYS d vaddr = vaddr - DMA_VSTART + dma_pstart d"

definition dma_init :: "u32 \<Rightarrow> nat \<Rightarrow> dma_state \<Rightarrow> 'a env_scheme \<Rightarrow> (int \<times> dma_state \<times> 'a env_scheme) option" where
  "dma_init start sizebits d e = do {
     c_assert (dma_pstart d = 0);
     let (ok, e1) = malloc_ok e;
     c_assert ok;
     let pend = start + push_bit sizebits 1;
     let n = unat (drop_bit 12 (pend - start));
     Some (0, d\<lparr>dma_pstart := start, dma_pnext := start, dma_pend := pend, dma_caps := Some (replicate n 0)\<rparr>, e1) }"

text \<open>
  Mapping the pages of a range that are not mapped yet. \<open>i\<close> is the position of the pointer into
  the array of capabilities.
\<close>

partial_function (option) dma_fill_loop :: "u32 \<Rightarrow> u32 \<Rightarrow> int \<Rightarrow> dma_state \<times> 'a env_scheme
    \<Rightarrow> (dma_state \<times> 'a env_scheme) option" where
  "dma_fill_loop pstart pend i de =
     (if pstart < pend then do {
        caps \<leftarrow> dma_caps (fst de);
        c \<leftarrow> rd caps i;
        de' \<leftarrow> (if c = 0 then do {
            (err, cap, e1) \<leftarrow> cspace_ut_retype_addr pstart SmallPageObject seL4_PageBits (cur_cspace (snd de)) (snd de);
            c_assert (err = 0);
            frame \<leftarrow> cap;
            caps' \<leftarrow> wr caps i frame;
            (err', e2) \<leftarrow> map_page frame seL4_CapInitThreadPD (VIRT (fst de) pstart) seL4_AllRights e1;
            c_assert (err' = 0);
            Some ((fst de)\<lparr>dma_caps := Some caps'\<rparr>, e2) }
          else Some de);
        dma_fill_loop (pstart + 4096) pend (i + 1) de' }
      else Some de)"

definition dma_fill :: "u32 \<Rightarrow> u32 \<Rightarrow> dma_state \<Rightarrow> 'a env_scheme \<Rightarrow> (dma_state \<times> 'a env_scheme) option" where
  "dma_fill pstart pend d e =
     dma_fill_loop (pstart - PAGE_OFFSET pstart) pend (uint (drop_bit 12 (pstart - dma_pstart d))) (d, e)"

partial_function (option) cache_foreach :: "u32 \<Rightarrow> u32 \<Rightarrow> nat \<Rightarrow> 'a env_scheme \<Rightarrow> 'a env_scheme option" where
  "cache_foreach addr end_addr op e =
     (if addr < end_addr then do {
        let next = min ((addr + 4096) AND NOT 0xfff) end_addr;
        let (err, e1) = kernel (PageDirectory_Cache_Op op seL4_CapInitThreadPD addr next) e;
        c_assert (err = 0);
        cache_foreach next end_addr op e1 }
      else Some e)"

definition sos_dma_cache_op :: "u32 \<Rightarrow> u32 \<Rightarrow> nat \<Rightarrow> 'a env_scheme \<Rightarrow> 'a env_scheme option" where
  "sos_dma_cache_op addr sz op e = cache_foreach addr (addr + sz) op e"

definition sos_dma_malloc :: "u32 \<Rightarrow> int \<Rightarrow> int \<Rightarrow> dma_state \<Rightarrow> 'a env_scheme
    \<Rightarrow> (u32 \<times> dma_state \<times> 'a env_scheme) option" where
  "sos_dma_malloc sz align cached d0 e = do {
     c_assert (dma_pstart d0 \<noteq> 0);
     c_assert (align \<noteq> 0);
     let d = d0\<lparr>dma_pnext := DMA_ALIGN (dma_pnext d0)\<rparr>;
     (addr, d2, e2) \<leftarrow> (if dma_pnext d < dma_pend d then do {
         let p1 = (if dma_alloc_cached d \<noteq> cached \<and> PAGE_OFFSET (dma_pnext d) \<noteq> 0
           then ROUND_UP (dma_pnext d) 4096 else dma_pnext d);
         let p2 = ROUND_UP p1 (word_of_int align);
         (d1, e1) \<leftarrow> dma_fill p2 (p2 + sz) (d\<lparr>dma_pnext := p2, dma_alloc_cached := cached\<rparr>) e;
         Some (VIRT d1 p2, d1\<lparr>dma_pnext := p2 + sz\<rparr>, e1) }
       else Some (0, d, e));
     e3 \<leftarrow> sos_dma_cache_op addr sz CLEAN_INVALIDATE e2;
     Some (addr, d2, e3) }"

definition sos_dma_pin :: "u32 \<Rightarrow> dma_state \<Rightarrow> u32" where
  "sos_dma_pin addr d = (if addr < DMA_VSTART \<or> addr \<ge> DMA_VSTART + push_bit DMA_SIZE_BITS 1 then 0 else PHYS d addr)"

end
