(* ===== verification/Sos_Main.thy ===== *)
theory Sos_Main
  imports File_Syscalls Dma
begin

text \<open>
  The event loop (main.c): the meaning of the answers of the file server, of system calls, page
  faults and interrupts, one round of the loop as a function on the state and the list of
  pending requests, and the start of the system.
\<close>

subsection \<open>Answers of the file server\<close>

text \<open>The handler of an answer; these are all the functions that SOS passes to NFS.\<close>

definition nfs_dispatch :: "st handler \<Rightarrow> nfs_reply \<Rightarrow> st \<Rightarrow> st res" where
  "nfs_dispatch h r s = (case h of
       H_swap_in_read c cb \<Rightarrow> swap_in_nfs_read_handler c cb r s
     | H_swap_out_write c cb \<Rightarrow> swap_out_4_nfs_write_cb c cb r s
     | H_create c cb \<Rightarrow> nfs_dev_create_handler c cb r s
     | H_lookup c cb \<Rightarrow> nfs_dev_lookup_handler c cb r s
     | H_write c cb \<Rightarrow> nfs_dev_write_handler c cb r s
     | H_read c cb \<Rightarrow> nfs_dev_read_handler c cb r s
     | H_getdirent c cb \<Rightarrow> nfs_dev_getdirent_handler c cb r s
     | H_getstat_lookup c cb \<Rightarrow> nfs_dev_getstat_lookup_cb c cb r s
     | H_load_segment c cb \<Rightarrow> load_segment3 c cb r s
     | H_elf_lookup c cb \<Rightarrow> elf_load_lookup_cb c cb r s
     | H_elf_header c cb \<Rightarrow> elf_load_read_elfheader_cb c cb r s
     | H_elf_progheaders c cb \<Rightarrow> elf_load_read_progheaders_cb c cb r s)"

subsection \<open>System calls\<close>

text \<open>
  \<open>mr\<close> are the message registers, \<open>stack_slot\<close> is the address of the local variable of
  \<^verbatim>\<open>_nfs_dev_stat\<close>. A message that is longer than the buffer on the stack, or has no
  length at all, aborts.
\<close>

definition handle_syscall :: "u32 \<Rightarrow> u32 \<Rightarrow> (nat \<Rightarrow> u32) \<Rightarrow> int \<Rightarrow> st \<Rightarrow> st res" where
  "handle_syscall stack_slot ipc_ep mr num_args s0 = do {
     let syscall_number = mr 0;
     (reply_cap, s) \<leftarrow> cspace_save_reply_cap (cur_cspace s0) s0;
     c_assert (reply_cap \<noteq> CSPACE_NULL);
     if syscall_number = 0 then do {
       c_assert (0 \<le> num_args \<and> num_args \<le> 120);
       done_with (serv_sys_print reply_cap (map (\<lambda>i. ucast (mr (i + 1))) [0..<nat num_args]) s) }
     else if syscall_number = 1 then done_with (serv_sys_sbrk reply_cap (mr 1) s)
     else if syscall_number = 2 then serv_sys_open reply_cap (mr 1) (mr 2) (mr 3) s
     else if syscall_number = 3 then done_with (serv_sys_close reply_cap (sint (mr 1)) s)
     else if syscall_number = 4 then serv_sys_read reply_cap (sint (mr 1)) (mr 2) (mr 3) s
     else if syscall_number = 5 then serv_sys_write reply_cap (sint (mr 1)) (mr 2) (mr 3) s
     else if syscall_number = 7 then done_with (serv_sys_sleep reply_cap (sint (mr 1)) s)
     else if syscall_number = 6 then done_with (serv_sys_timestamp reply_cap s)
     else if syscall_number = 8 then serv_sys_getdirent reply_cap (sint (mr 1)) (mr 2) (mr 3) s
     else if syscall_number = 9 then serv_sys_stat stack_slot reply_cap (mr 1) (mr 2) (mr 3) s
     else if syscall_number = 10 then serv_proc_create (mr 1) (mr 2) ipc_ep reply_cap s
     else if syscall_number = 11 then done_with (serv_proc_destroy (sint (mr 1)) reply_cap s)
     else if syscall_number = 12 then done_with (serv_proc_get_id reply_cap s)
     else if syscall_number = 13 then done_with (serv_proc_wait (sint (mr 1)) reply_cap s)
     else if syscall_number = 14 then serv_proc_status (mr 1) (mr 2) reply_cap s
     else finish s }"

definition handle_pagefault :: "(nat \<Rightarrow> u32) \<Rightarrow> st \<Rightarrow> st res" where
  "handle_pagefault mr s = do {
     (reply_cap, s1) \<leftarrow> cspace_save_reply_cap (cur_cspace s) s;
     c_assert (reply_cap \<noteq> CSPACE_NULL);
     sos_VMFaultHandler reply_cap (mr 1) (mr 3) (mr 2 \<noteq> 0) s1 }"

subsection \<open>Timers\<close>

text \<open>
  What a timer that fires does to the driver and to the rest: the timeout of NFS is set again at
  once, a sleeping process gets its reply. The two touch different parts of the state.
\<close>

definition run_timer :: "int \<Rightarrow> kcb \<Rightarrow> kcb clock \<Rightarrow> kcb clock option" where
  "run_timer tid k c = (case k of
       K_nfs_timeout \<Rightarrow> do { (_, c1) \<leftarrow> register_timer 100000 K_nfs_timeout c; Some c1 }
     | K_sleep state \<Rightarrow> Some c
     | _ \<Rightarrow> None)"

fun run_fired :: "(int \<times> kcb) list \<Rightarrow> st \<Rightarrow> st option" where
  "run_fired [] s = Some s"
| "run_fired ((tid, k) # rest) s = do {
     s1 \<leftarrow> (case k of K_sleep state \<Rightarrow> sleep_callback state s | _ \<Rightarrow> Some s);
     run_fired rest s1 }"

definition nfs_dev_setup_timeout :: "st \<Rightarrow> st option" where
  "nfs_dev_setup_timeout s = do {
     (_, c) \<leftarrow> register_timer 100000 K_nfs_timeout (sos_clock s);
     Some (s\<lparr>sos_clock := c\<rparr>) }"

definition sos_timer_interrupt :: "st \<Rightarrow> st option" where
  "sos_timer_interrupt s = do {
     let (ack1, s1) = ask s;
     let (ack2, s2) = ask s1;
     (_, fired, c) \<leftarrow> timer_interrupt run_timer ack1 ack2 (sos_clock s2);
     run_fired fired (s2\<lparr>sos_clock := c\<rparr>) }"

subsection \<open>The event loop\<close>

text \<open>
  What the network brings: answers to the requests that are pending, by their position in the
  list of tasks, and characters from the serial line, which travel over the network too.
\<close>

datatype net_input = Net_reply nat nfs_reply | Net_char u8

fun network_irq :: "net_input list \<Rightarrow> st \<Rightarrow> st task list \<Rightarrow> (st \<times> st task list) option" where
  "network_irq [] s ts = Some (s, ts)"
| "network_irq (Net_reply i r # rest) s ts =
     (if i < length ts then do {
        (s1, new) \<leftarrow> nfs_dispatch (snd (ts ! i)) r s;
        network_irq rest s1 (take i ts @ drop (i + 1) ts @ new) }
      else network_irq rest s ts)"
| "network_irq (Net_char c # rest) s ts = do {
     (s1, new) \<leftarrow> read_handler run_read c s;
     network_irq rest s1 (ts @ new) }"

record message =
  msg_badge :: u32
  msg_label :: u32
  msg_mr :: "nat \<Rightarrow> u32"
  msg_length :: int
  msg_net :: "net_input list"

abbreviation (input) IRQ_EP_BADGE :: u32 where "IRQ_EP_BADGE \<equiv> 0x8000000"
abbreviation (input) IRQ_BADGE_NETWORK :: u32 where "IRQ_BADGE_NETWORK \<equiv> 1"
abbreviation (input) IRQ_BADGE_TIMER :: u32 where "IRQ_BADGE_TIMER \<equiv> 2"
abbreviation (input) seL4_NoFault :: u32 where "seL4_NoFault \<equiv> 0"
abbreviation (input) seL4_VMFault :: u32 where "seL4_VMFault \<equiv> 2"

definition badge_pid :: "u32 \<Rightarrow> int" where
  "badge_pid badge = sint (badge AND NOT USER_EP_BADGE)"

text \<open>One round of \<^verbatim>\<open>syscall_loop\<close>: the state and the pending tasks after a message.\<close>

definition syscall_loop_step :: "u32 \<Rightarrow> u32 \<Rightarrow> message \<Rightarrow> st \<times> st task list \<Rightarrow> (st \<times> st task list) option" where
  "syscall_loop_step stack_slot ipc_ep m sts = (case sts of (s, ts) \<Rightarrow>
     if msg_badge m AND IRQ_EP_BADGE \<noteq> 0 then do {
       (s1, ts1) \<leftarrow> (if msg_badge m AND IRQ_BADGE_NETWORK \<noteq> 0 then network_irq (msg_net m) s ts else Some (s, ts));
       s2 \<leftarrow> (if msg_badge m AND IRQ_BADGE_TIMER \<noteq> 0 then sos_timer_interrupt s1 else Some s1);
       Some (s2, ts1) }
     else if msg_label m = seL4_VMFault then do {
       s1 \<leftarrow> set_cur_proc (badge_pid (msg_badge m)) s;
       (s2, new) \<leftarrow> handle_pagefault (msg_mr m) s1;
       Some (s2, ts @ new) }
     else if msg_label m = seL4_NoFault then do {
       s1 \<leftarrow> set_cur_proc (badge_pid (msg_badge m)) s;
       (s2, new) \<leftarrow> handle_syscall stack_slot ipc_ep (msg_mr m) (msg_length m - 1) s1;
       Some (s2, ts @ new) }
     else Some (s, ts))"

text \<open>The loop never ends; this is what it has done after a number of messages.\<close>

fun syscall_loop :: "u32 \<Rightarrow> u32 \<Rightarrow> message list \<Rightarrow> st \<times> st task list \<Rightarrow> (st \<times> st task list) option" where
  "syscall_loop stack_slot ipc_ep [] c = Some c"
| "syscall_loop stack_slot ipc_ep (m # ms) c = do {
     c1 \<leftarrow> syscall_loop_step stack_slot ipc_ep m c;
     syscall_loop stack_slot ipc_ep ms c1 }"

subsection \<open>Start of the system\<close>

definition first_process_created :: "int \<Rightarrow> int \<Rightarrow> st \<Rightarrow> st res" where
  "first_process_created err pid s = finish (s\<lparr>starting_first_process := False\<rparr>)"

definition sos_ipc_object :: "kobject \<Rightarrow> st \<Rightarrow> (u32 \<times> st) option" where
  "sos_ipc_object ty s = do {
     (addr, s1) \<leftarrow> env_ut_alloc 4 s;
     c_assert (addr \<noteq> 0);
     (err, cap, s2) \<leftarrow> cspace_ut_retype_addr addr ty 4 (cur_cspace s1) s1;
     c_assert (err = 0);
     c \<leftarrow> cap;
     Some (c, s2) }"

definition sos_ipc_init :: "st \<Rightarrow> (u32 \<times> u32 \<times> st) option" where
  "sos_ipc_init s = do {
     (async_ep, s1) \<leftarrow> sos_ipc_object AsyncEndpointObject s;
     s2 \<leftarrow> kernel_ok (TCB_BindAEP seL4_CapInitThreadTCB async_ep) s1;
     (ipc_ep, s3) \<leftarrow> sos_ipc_object EndpointObject s2;
     Some (ipc_ep, async_ep, s3) }"

definition badge_irq_ep :: "u32 \<Rightarrow> u32 \<Rightarrow> st \<Rightarrow> (u32 \<times> st) option" where
  "badge_irq_ep ep badge s = do {
     (cap, s1) \<leftarrow> cspace_mint_cap (cur_cspace s) (cur_cspace s) ep seL4_AllRights (CapBadge (badge OR IRQ_EP_BADGE)) s;
     c_assert (cap \<noteq> 0);
     Some (cap, s1) }"

definition filesystem_init :: "st \<Rightarrow> st option" where
  "filesystem_init s = do {
     let (vn, s1) = malloc s;
     c_assert (vn \<noteq> None);
     let (ok1, s2) = malloc_ok s1;
     c_assert ok1;
     let (ok2, s3) = malloc_ok s2;
     c_assert ok2;
     let s4 = put_vnode vn \<lparr>vn_initialised = False, vn_opencount = 0, vn_name = ''/'', vn_data = None,
       vn_sattr = \<lparr>st_type = 0, st_mode = 0, st_size = 0, st_mtime = (0, 0)\<rparr>, vn_ops = Ops_None\<rparr> s3;
     (err, s5) \<leftarrow> nfs_dev_init_mntpoint_vnode vn (mnt_point s4) s4;
     c_assert (err = 0);
     v \<leftarrow> get_vnode vn s5;
     (err', s6) \<leftarrow> vfs_vnt_insert vn (put_vnode vn (v\<lparr>vn_opencount := 1\<rparr>) s5);
     c_assert (err' = 0);
     nfs_dev_setup_timeout s6 }"

text \<open>The last part of \<^verbatim>\<open>main\<close>, when the hardware is set up: the system before its first message.\<close>

definition sos_start :: "string \<Rightarrow> u32 \<Rightarrow> st \<Rightarrow> st res" where
  "sos_start tty_name ipc_ep s = do {
     s1 \<leftarrow> filesystem_init s;
     s2 \<leftarrow> proc_list_init (s1\<lparr>starting_first_process := True\<rparr>);
     proc_create tty_name (word_of_nat (length tty_name)) ipc_ep first_process_created s2 }"

end
