(* ===== verification/Spec2Isabelle.thy ===== *)
theory Spec2Isabelle
  imports UT_Contract UT_Table Clock Cspace_Slots Cpio_Roundtrip Console_Queue File_Refs Sos_Main
begin

text \<open>
  Verification of SOS.
\<close>

end
